(* ===== verification/Axiom_Prelude.thy ===== *)
theory Axiom_Prelude
  imports
    Main
    "HOL-Library.Word"
    "HOL-Library.Multiset"
    "HOL-Library.Char_ord"
    "HOL-Library.List_Lexorder"
    "HOL-Library.Product_Lexorder"
    "HOL-Library.Option_ord"
begin

text \<open>
  What the components share: results as sums, machine integers, the part of Rust's string
  library the sources use (\<open>str::split\<close>, decimal printing and parsing), stable
  sorting, and generic facts about lists. A Rust \<open>String\<close> is a \<^typ>\<open>string\<close>,
  its list of UTF-8 bytes, so \<open>len\<close>, equality and the derived (bytewise
  lexicographic) order agree with Rust's.
\<close>

section \<open>Results, machine integers\<close>

named_theorems result_simps \<open>unfolding of result-returning steps\<close>

type_synonym ('e, 'a) result = "'e + 'a"
type_synonym u64 = "64 word"
type_synonym u32 = "32 word"
type_synonym byte = "8 word"

definition rbind :: "('e, 'a) result \<Rightarrow> ('a \<Rightarrow> ('e, 'b) result) \<Rightarrow> ('e, 'b) result" where
  "rbind r f = (case r of Inl e \<Rightarrow> Inl e | Inr a \<Rightarrow> f a)"

lemma rbind_simps [simp, result_simps]:
  "rbind (Inl e) f = Inl e"
  "rbind (Inr a) f = f a"
  by (simp_all add: rbind_def)

lemma rbind_Inr_iff: "rbind r f = Inr b \<longleftrightarrow> (\<exists>a. r = Inr a \<and> f a = Inr b)"
  by (cases r) auto

lemma rbind_Inl_iff: "rbind r f = Inl e \<longleftrightarrow> r = Inl e \<or> (\<exists>a. r = Inr a \<and> f a = Inl e)"
  by (cases r) auto

lemma rbind_cong [fundef_cong]:
  "r = r' \<Longrightarrow> (\<And>a. r' = Inr a \<Longrightarrow> f a = g a) \<Longrightarrow> rbind r f = rbind r' g"
  by (cases r') auto

text \<open>\<open>usize\<close> is 64 bits wide on the supported targets; a \<open>usize\<close> is a \<^typ>\<open>nat\<close>
  and the operations that can leave the range say so.\<close>

definition usize_max :: nat where
  "usize_max = 2 ^ 64 - 1"

definition usize_checked_add :: "nat \<Rightarrow> nat \<Rightarrow> nat option" where
  "usize_checked_add a b = (if a + b \<le> usize_max then Some (a + b) else None)"

definition usize_saturating_add :: "nat \<Rightarrow> nat \<Rightarrow> nat" where
  "usize_saturating_add a b = min (a + b) usize_max"

definition word_checked_add :: "'w::len word \<Rightarrow> 'w word \<Rightarrow> 'w word option" where
  "word_checked_add a b = (if unat a + unat b < 2 ^ LENGTH('w) then Some (a + b) else None)"

lemma word_checked_add_Some:
  "word_checked_add a b = Some c \<Longrightarrow> unat c = unat a + unat b"
  by (auto simp: word_checked_add_def unat_word_ariths split: if_splits)

section \<open>Strings\<close>

definition is_ascii :: "char \<Rightarrow> bool" where
  "is_ascii c \<longleftrightarrow> of_char c < (128 :: nat)"

definition is_ascii_digit :: "char \<Rightarrow> bool" where
  "is_ascii_digit c \<longleftrightarrow> 48 \<le> (of_char c :: nat) \<and> of_char c \<le> (57 :: nat)"

text \<open>\<open>str::split\<close> with a single-character pattern: always at least one piece.\<close>

fun split_on :: "char \<Rightarrow> string \<Rightarrow> string list" where
  "split_on c [] = [[]]"
| "split_on c (x # xs) =
     (if x = c then [] # split_on c xs
      else (case split_on c xs of [] \<Rightarrow> [[x]] | y # ys \<Rightarrow> (x # y) # ys))"

lemma split_on_nonempty [simp]: "split_on c s \<noteq> []"
  by (cases s) (auto split: list.splits)

lemma split_on_none [simp]: "c \<notin> set s \<Longrightarrow> split_on c s = [s]"
  by (induction s) auto

lemma split_on_append [simp]: "c \<notin> set s \<Longrightarrow> split_on c (s @ c # t) = s # split_on c t"
  by (induction s) auto

lemma split_on_free: "p \<in> set (split_on c s) \<Longrightarrow> c \<notin> set p"
proof (induction s arbitrary: p)
  case Nil
  then show ?case by simp
next
  case (Cons x xs)
  obtain y ys where eq: "split_on c xs = y # ys"
    by (cases "split_on c xs") auto
  have "c \<notin> set y" "\<forall>q \<in> set ys. c \<notin> set q"
    using Cons.IH eq by auto
  then show ?case using Cons.prems eq by (auto split: if_splits)
qed

text \<open>Joining the pieces with the separator gives the string back.\<close>

fun join_with :: "string \<Rightarrow> string list \<Rightarrow> string" where
  "join_with sep [] = []"
| "join_with sep [s] = s"
| "join_with sep (s # t # ts) = s @ sep @ join_with sep (t # ts)"

lemma join_split_on: "join_with [c] (split_on c s) = s"
proof (induction s)
  case Nil
  then show ?case by simp
next
  case (Cons x xs)
  obtain y ys where eq: "split_on c xs = y # ys"
    by (cases "split_on c xs") auto
  show ?case
    using Cons.IH by (cases ys) (auto simp: eq)
qed

text \<open>Decimal printing of an unsigned integer, as \<open>Display\<close> prints it, and its reading.\<close>

definition digit_char :: "nat \<Rightarrow> char" where
  "digit_char d = char_of (48 + d)"

definition digit_value :: "char \<Rightarrow> nat" where
  "digit_value c = of_char c - 48"

fun show_nat :: "nat \<Rightarrow> string" where
  "show_nat n = (if n < 10 then [digit_char n] else show_nat (n div 10) @ [digit_char (n mod 10)])"

declare show_nat.simps [simp del]

definition decimal_value :: "string \<Rightarrow> nat" where
  "decimal_value s = foldl (\<lambda>acc c. acc * 10 + digit_value c) 0 s"

lemma of_char_digit_char: "d < 10 \<Longrightarrow> of_char (digit_char d) = 48 + d"
  by (simp add: digit_char_def)

lemma digit_char_is_digit: "d < 10 \<Longrightarrow> is_ascii_digit (digit_char d)"
  by (simp add: is_ascii_digit_def of_char_digit_char)

lemma digit_value_digit_char [simp]: "d < 10 \<Longrightarrow> digit_value (digit_char d) = d"
  by (simp add: digit_value_def of_char_digit_char)

lemma show_nat_digits: "\<forall>c \<in> set (show_nat n). is_ascii_digit c"
proof (induction n rule: show_nat.induct)
  case (1 n)
  show ?case
  proof (cases "n < 10")
    case True
    then show ?thesis by (subst show_nat.simps) (simp add: digit_char_is_digit)
  next
    case False
    with "1.IH" show ?thesis by (subst show_nat.simps) (auto simp: digit_char_is_digit)
  qed
qed

lemma show_nat_nonempty [simp]: "show_nat n \<noteq> []"
  by (subst show_nat.simps) simp

lemma decimal_value_snoc: "decimal_value (s @ [c]) = decimal_value s * 10 + digit_value c"
  by (simp add: decimal_value_def)

lemma decimal_value_show_nat [simp]: "decimal_value (show_nat n) = n"
proof (induction n rule: show_nat.induct)
  case (1 n)
  show ?case
  proof (cases "n < 10")
    case True
    then show ?thesis by (subst show_nat.simps) (simp add: decimal_value_def)
  next
    case False
    with "1.IH" show ?thesis by (subst show_nat.simps) (simp add: decimal_value_snoc)
  qed
qed

lemma show_nat_inj: "show_nat m = show_nat n \<Longrightarrow> m = n"
  by (metis decimal_value_show_nat)

lemma hd_show_nat_zero: "hd (show_nat n) = digit_char 0 \<Longrightarrow> n = 0"
proof (induction n rule: show_nat.induct)
  case (1 n)
  show ?case
  proof (cases "n < 10")
    case True
    have "digit_char n = digit_char 0"
      using "1.prems" True by (simp add: show_nat.simps [of n])
    then show ?thesis using True digit_value_digit_char [of n] digit_value_digit_char [of 0] by simp
  next
    case False
    have "hd (show_nat (n div 10)) = digit_char 0"
      using "1.prems" False by (simp add: show_nat.simps [of n])
    with "1.IH" False have "n div 10 = 0" by blast
    with False show ?thesis by simp
  qed
qed

text \<open>A digit string without a superfluous leading zero is the canonical print of its value.\<close>

lemma show_nat_decimal_value:
  assumes "s \<noteq> []" "\<forall>c \<in> set s. is_ascii_digit c" "length s = 1 \<or> hd s \<noteq> digit_char 0"
  shows "show_nat (decimal_value s) = s \<and> (length s > 1 \<longrightarrow> 0 < decimal_value s)"
  using assms
proof (induction s rule: rev_induct)
  case Nil
  then show ?case by simp
next
  case (snoc c s)
  have c: "digit_value c < 10" "digit_char (digit_value c) = c"
    using snoc.prems(2) by (auto simp: is_ascii_digit_def digit_value_def digit_char_def)
  show ?case
  proof (cases "s = []")
    case True
    then show ?thesis using c by (simp add: decimal_value_def show_nat.simps)
  next
    case False
    have hd0: "hd s \<noteq> digit_char 0"
      using snoc.prems(3) False by (auto simp: hd_append)
    have IH: "show_nat (decimal_value s) = s" "length s > 1 \<longrightarrow> 0 < decimal_value s"
      using snoc.IH False snoc.prems(2) hd0 by auto
    have pos: "0 < decimal_value s"
    proof (rule ccontr)
      assume "\<not> 0 < decimal_value s"
      then have "decimal_value s = 0" by simp
      with IH(1) have "s = [digit_char 0]" by (simp add: show_nat.simps)
      with hd0 show False by simp
    qed
    then have "\<not> decimal_value (s @ [c]) < 10"
      by (simp add: decimal_value_snoc)
    then have "show_nat (decimal_value (s @ [c])) = s @ [c]"
      using IH(1) c by (subst show_nat.simps) (simp add: decimal_value_snoc)
    then show ?thesis using pos by (simp add: decimal_value_snoc)
  qed
qed

section \<open>Stable sorting\<close>

text \<open>Rust's \<open>sort_by\<close> is stable; \<^term>\<open>le\<close> is the comparison's "not greater".\<close>

fun insert_by :: "('a \<Rightarrow> 'a \<Rightarrow> bool) \<Rightarrow> 'a \<Rightarrow> 'a list \<Rightarrow> 'a list" where
  "insert_by le x [] = [x]"
| "insert_by le x (y # ys) = (if le x y then x # y # ys else y # insert_by le x ys)"

definition sort_by :: "('a \<Rightarrow> 'a \<Rightarrow> bool) \<Rightarrow> 'a list \<Rightarrow> 'a list" where
  "sort_by le xs = foldr (insert_by le) xs []"

lemma mset_insert_by [simp]: "mset (insert_by le x xs) = {#x#} + mset xs"
  by (induction xs) auto

lemma mset_sort_by [simp]: "mset (sort_by le xs) = mset xs"
  unfolding sort_by_def by (induction xs) auto

lemma set_sort_by [simp]: "set (sort_by le xs) = set xs"
  by (metis mset_sort_by set_mset_mset)

lemma length_sort_by [simp]: "length (sort_by le xs) = length xs"
  by (metis mset_sort_by size_mset)

lemma set_insert_by [simp]: "set (insert_by le x xs) = insert x (set xs)"
  by (induction xs) auto

lemma sorted_insert_by:
  assumes "\<And>a b. le a b \<or> le b a" and "\<And>a b c. le a b \<Longrightarrow> le b c \<Longrightarrow> le a c"
  shows "sorted_wrt le xs \<Longrightarrow> sorted_wrt le (insert_by le x xs)"
proof (induction xs)
  case Nil
  then show ?case by simp
next
  case (Cons y ys)
  then show ?case using assms by (auto intro: assms(2))
qed

lemma sorted_sort_by:
  assumes "\<And>a b. le a b \<or> le b a" and "\<And>a b c. le a b \<Longrightarrow> le b c \<Longrightarrow> le a c"
  shows "sorted_wrt le (sort_by le xs)"
  unfolding sort_by_def by (induction xs) (simp_all add: sorted_insert_by [OF assms])

section \<open>Lists\<close>

lemma set_sort_key [simp]: "set (sort_key f xs) = set xs"
  by simp

lemma find_Some_mem: "find P xs = Some x \<Longrightarrow> x \<in> set xs \<and> P x"
  by (induction xs) (auto split: if_splits)

lemma find_None_all: "find P xs = None \<longleftrightarrow> (\<forall>x \<in> set xs. \<not> P x)"
  by (induction xs) auto

end
