(* ===== verification/Rust_Maps.thy ===== *)
theory Rust_Maps
  imports Axiom_Prelude
begin

text \<open>
  The standard-library collections the sources use. A \<open>BTreeMap\<close> is its list of
  entries in strictly ascending key order, so that iteration is iteration over the list. A
  \<open>HashMap\<close> is a list of entries with distinct keys in some order: a statement about
  every such list is a statement about every iteration order. Both implement the same
  contract, the locale \<open>map_contract\<close>; the components rest on its facts
  through the two interpretations.
\<close>

section \<open>The map contract\<close>

locale map_contract =
  fixes empty :: "'m"
    and get :: "'m \<Rightarrow> 'k \<Rightarrow> 'v option"
    and insert :: "'k \<Rightarrow> 'v \<Rightarrow> 'm \<Rightarrow> 'm"
    and remove :: "'k \<Rightarrow> 'm \<Rightarrow> 'm"
    and keys :: "'m \<Rightarrow> 'k list"
    and wf :: "'m \<Rightarrow> bool"
  assumes get_empty: "get empty k = None"
    and get_insert: "wf m \<Longrightarrow> get (insert k v m) = (get m)(k \<mapsto> v)"
    and get_remove: "wf m \<Longrightarrow> get (remove k m) = (get m)(k := None)"
    and keys_get: "wf m \<Longrightarrow> k \<in> set (keys m) \<longleftrightarrow> get m k \<noteq> None"
    and keys_distinct: "wf m \<Longrightarrow> distinct (keys m)"
    and wf_empty: "wf empty"
    and wf_insert: "wf m \<Longrightarrow> wf (insert k v m)"
    and wf_remove: "wf m \<Longrightarrow> wf (remove k m)"
begin

lemma set_keys: "wf m \<Longrightarrow> set (keys m) = dom (get m)"
  by (auto simp: keys_get dom_def)

lemma set_keys_insert: "wf m \<Longrightarrow> set (keys (insert k v m)) = Set.insert k (set (keys m))"
  by (simp add: set_keys wf_insert get_insert)

lemma set_keys_remove: "wf m \<Longrightarrow> set (keys (remove k m)) = set (keys m) - {k}"
  by (simp add: set_keys wf_remove get_remove)

text \<open>The size of a map grows by one exactly when the key is new.\<close>

lemma length_keys_insert:
  assumes "wf m"
  shows "length (keys (insert k v m)) = (if k \<in> set (keys m) then length (keys m) else Suc (length (keys m)))"
proof -
  have "length (keys m') = card (set (keys m'))" if "wf m'" for m'
    using that by (simp add: keys_distinct distinct_card)
  then show ?thesis
    using assms by (simp add: wf_insert set_keys_insert insert_absorb)
qed

lemma insert_other: "wf m \<Longrightarrow> j \<noteq> k \<Longrightarrow> get (insert k v m) j = get m j"
  by (simp add: get_insert)

end

section \<open>Association lists\<close>

text \<open>\<open>get_mut\<close> followed by an assignment through the reference, and removal.\<close>

definition al_modify :: "'k \<Rightarrow> ('v \<Rightarrow> 'v) \<Rightarrow> ('k \<times> 'v) list \<Rightarrow> ('k \<times> 'v) list" where
  "al_modify k f m = map (\<lambda>(k', v). (k', if k' = k then f v else v)) m"

definition al_remove :: "'k \<Rightarrow> ('k \<times> 'v) list \<Rightarrow> ('k \<times> 'v) list" where
  "al_remove k m = filter (\<lambda>(k', v). k' \<noteq> k) m"

definition al_keys :: "('k \<times> 'v) list \<Rightarrow> 'k list" where
  "al_keys m = map fst m"

definition al_values :: "('k \<times> 'v) list \<Rightarrow> 'v list" where
  "al_values m = map snd m"

lemma al_keys_simps [simp]:
  "al_keys [] = []"
  "al_keys (p # m) = fst p # al_keys m"
  by (simp_all add: al_keys_def)

lemma al_keys_modify [simp]: "al_keys (al_modify k f m) = al_keys m"
  by (simp add: al_keys_def al_modify_def split_beta comp_def)

lemma map_of_modify [simp]: "map_of (al_modify k f m) = (map_of m)(k := map_option f (map_of m k))"
  by (induction m) (auto simp: al_modify_def fun_eq_iff)

lemma map_of_remove [simp]: "map_of (al_remove k m) = (map_of m)(k := None)"
  by (induction m) (auto simp: al_remove_def fun_eq_iff)

lemma set_al_keys: "set (al_keys m) = dom (map_of m)"
  by (simp add: al_keys_def dom_map_of_conv_image_fst)

lemma al_keys_iff: "k \<in> set (al_keys m) \<longleftrightarrow> map_of m k \<noteq> None"
  by (auto simp: set_al_keys dom_def)

lemma al_values_map_of:
  "distinct (al_keys m) \<Longrightarrow> v \<in> set (al_values m) \<longleftrightarrow> (\<exists>k. map_of m k = Some v)"
  by (auto simp: al_values_def al_keys_def image_iff) (metis map_of_SomeD snd_conv)

lemma map_of_Some_iff: "distinct (al_keys m) \<Longrightarrow> map_of m k = Some v \<longleftrightarrow> (k, v) \<in> set m"
  by (simp add: al_keys_def)

lemma length_modify [simp]: "length (al_modify k f m) = length m"
  by (simp add: al_modify_def)

text \<open>Updating every value, and keeping the entries of some keys.\<close>

definition al_mapk :: "('k \<Rightarrow> 'v \<Rightarrow> 'w) \<Rightarrow> ('k \<times> 'v) list \<Rightarrow> ('k \<times> 'w) list" where
  "al_mapk f m = map (\<lambda>(k, v). (k, f k v)) m"

definition al_keep :: "('k \<Rightarrow> bool) \<Rightarrow> ('k \<times> 'v) list \<Rightarrow> ('k \<times> 'v) list" where
  "al_keep P m = filter (\<lambda>(k, v). P k) m"

lemma map_of_mapk [simp]: "map_of (al_mapk f m) k = map_option (f k) (map_of m k)"
  by (induction m) (auto simp: al_mapk_def)

lemma al_keys_mapk [simp]: "al_keys (al_mapk f m) = al_keys m"
  by (simp add: al_keys_def al_mapk_def split_beta comp_def)

lemma al_mapk_mapk: "al_mapk f (al_mapk g m) = al_mapk (\<lambda>k v. f k (g k v)) m"
  by (simp add: al_mapk_def split_beta comp_def)

lemma al_modify_mapk: "al_modify k f m = al_mapk (\<lambda>j v. if j = k then f v else v) m"
  by (simp add: al_modify_def al_mapk_def)

lemma al_mapk_id [simp]: "al_mapk (\<lambda>k v. v) m = m"
  by (simp add: al_mapk_def)

lemma length_mapk [simp]: "length (al_mapk f m) = length m"
  by (simp add: al_mapk_def)

lemma map_of_keep: "map_of (al_keep P m) k = (if P k then map_of m k else None)"
  by (induction m) (auto simp: al_keep_def)

lemma al_keep_keep: "al_keep P (al_keep Q m) = al_keep (\<lambda>k. P k \<and> Q k) m"
  by (simp add: al_keep_def case_prod_unfold conj_commute)

lemma al_mapk_eqI: "(\<And>k v. f k v = g k v) \<Longrightarrow> al_mapk f m = al_mapk g m"
  and al_keep_eqI: "(\<And>k. P k = Q k) \<Longrightarrow> al_keep P m = al_keep Q m"
  by presburger+

lemma al_remove_keep: "al_remove k m = al_keep (\<lambda>j. j \<noteq> k) m"
  by (simp add: al_remove_def al_keep_def)

lemma al_keep_True [simp]: "al_keep (\<lambda>k. True) m = m"
  by (simp add: al_keep_def)

lemma al_keys_keep: "al_keys (al_keep P m) = filter P (al_keys m)"
  by (induction m) (auto simp: al_keep_def)

section \<open>BTreeMap\<close>

type_synonym ('k, 'v) btree_map = "('k \<times> 'v) list"

fun bt_insert :: "'k::linorder \<Rightarrow> 'v \<Rightarrow> ('k, 'v) btree_map \<Rightarrow> ('k, 'v) btree_map" where
  "bt_insert k v [] = [(k, v)]"
| "bt_insert k v ((k', v') # m) =
     (if k < k' then (k, v) # (k', v') # m
      else if k = k' then (k, v) # m
      else (k', v') # bt_insert k v m)"

definition bt_wf :: "('k::linorder, 'v) btree_map \<Rightarrow> bool" where
  "bt_wf m \<longleftrightarrow> sorted_wrt (<) (al_keys m)"

lemma bt_wf_Nil [simp]: "bt_wf []"
  by (simp add: bt_wf_def)

lemma bt_wf_distinct: "bt_wf m \<Longrightarrow> distinct (al_keys m)"
  by (simp add: bt_wf_def strict_sorted_iff)

lemma bt_wf_mapk [simp]: "bt_wf (al_mapk f m) \<longleftrightarrow> bt_wf m"
  by (simp add: bt_wf_def)

lemma bt_wf_keep: "bt_wf m \<Longrightarrow> bt_wf (al_keep P m)"
  by (simp add: bt_wf_def al_keys_keep sorted_wrt_filter)

lemma set_keys_bt_insert: "set (al_keys (bt_insert k v m)) = insert k (set (al_keys m))"
  by (induction k v m rule: bt_insert.induct) (simp_all add: insert_commute)

lemma bt_wf_insert: "bt_wf m \<Longrightarrow> bt_wf (bt_insert k v m)"
proof (induction m)
  case Nil
  then show ?case by (simp add: bt_wf_def)
next
  case (Cons p m)
  obtain k' v' where p: "p = (k', v')" by (cases p)
  have "\<forall>j \<in> set (al_keys m). k' < j" and "bt_wf m"
    using Cons.prems p by (auto simp: bt_wf_def)
  with Cons.IH p show ?case
    by (auto simp: bt_wf_def set_keys_bt_insert dest: less_trans)
qed

lemma bt_wf_remove: "bt_wf m \<Longrightarrow> bt_wf (al_remove k m)"
  unfolding bt_wf_def
  by (induction m) (auto simp: al_remove_def al_keys_def)

lemma bt_wf_modify [simp]: "bt_wf (al_modify k f m) = bt_wf m"
  by (simp add: bt_wf_def)

lemma map_of_bt_insert: "bt_wf m \<Longrightarrow> map_of (bt_insert k v m) = (map_of m)(k \<mapsto> v)"
proof (induction m)
  case Nil
  then show ?case by simp
next
  case (Cons p m)
  obtain k' v' where p: "p = (k', v')" by (cases p)
  have "bt_wf m" using Cons.prems p by (simp add: bt_wf_def)
  with Cons.IH p show ?case by (auto simp: fun_eq_iff)
qed

interpretation bt: map_contract "[] :: ('k::linorder, 'v) btree_map" map_of bt_insert al_remove al_keys bt_wf
  by unfold_locales
    (auto simp: map_of_bt_insert al_keys_iff intro: bt_wf_distinct bt_wf_insert bt_wf_remove)

text \<open>\<open>entry(k).or_default()\<close> followed by an assignment.\<close>

definition bt_entry :: "'k::linorder \<Rightarrow> 'v \<Rightarrow> ('v \<Rightarrow> 'v) \<Rightarrow> ('k, 'v) btree_map \<Rightarrow> ('k, 'v) btree_map" where
  "bt_entry k d f m = bt_insert k (f (case map_of m k of None \<Rightarrow> d | Some v \<Rightarrow> v)) m"

lemma bt_entry_get: "bt_wf m \<Longrightarrow>
    map_of (bt_entry k d f m) = (map_of m)(k \<mapsto> f (case map_of m k of None \<Rightarrow> d | Some v \<Rightarrow> v))"
  by (simp add: bt_entry_def bt.get_insert)

lemma bt_entry_wf: "bt_wf m \<Longrightarrow> bt_wf (bt_entry k d f m)"
  by (simp add: bt_entry_def bt.wf_insert)

section \<open>BTreeSet\<close>

fun bset_insert :: "'a::linorder \<Rightarrow> 'a list \<Rightarrow> 'a list" where
  "bset_insert x [] = [x]"
| "bset_insert x (y # ys) = (if x < y then x # y # ys else if x = y then y # ys else y # bset_insert x ys)"

lemma set_bset_insert [simp]: "set (bset_insert x xs) = insert x (set xs)"
  by (induction xs) auto

lemma sorted_bset_insert: "sorted_wrt (<) xs \<Longrightarrow> sorted_wrt (<) (bset_insert x xs)"
  by (induction xs) (auto dest: less_trans)

text \<open>Collecting into a \<open>BTreeSet\<close>.\<close>

definition bset_of :: "'a::linorder list \<Rightarrow> 'a list" where
  "bset_of xs = fold bset_insert xs []"

lemma bset_of_set [simp]: "set (bset_of xs) = set xs"
proof -
  have "set (fold bset_insert xs acc) = set xs \<union> set acc" for acc
    by (induction xs arbitrary: acc) auto
  then show ?thesis by (simp add: bset_of_def)
qed

lemma bset_of_sorted: "sorted_wrt (<) (bset_of xs)"
proof -
  have "sorted_wrt (<) (fold bset_insert xs acc)" if "sorted_wrt (<) acc" for acc
    using that by (induction xs arbitrary: acc) (auto simp: sorted_bset_insert)
  then show ?thesis by (simp add: bset_of_def)
qed

lemma bset_of_length: "length (bset_of xs) = card (set xs)"
  using bset_of_sorted [of xs] by (metis bset_of_set distinct_card strict_sorted_iff)

lemma bset_of_distinct: "length (bset_of xs) = length xs \<longleftrightarrow> distinct xs"
  by (metis bset_of_length card_distinct distinct_card)

lemma bset_of_eqI: "set xs = set ys \<Longrightarrow> bset_of xs = bset_of ys"
  using bset_of_sorted [of xs] bset_of_sorted [of ys]
  by (metis bset_of_set sorted_distinct_set_unique strict_sorted_iff)

section \<open>HashMap\<close>

type_synonym ('k, 'v) hash_map = "('k \<times> 'v) list"

definition hm_insert :: "'k \<Rightarrow> 'v \<Rightarrow> ('k, 'v) hash_map \<Rightarrow> ('k, 'v) hash_map" where
  "hm_insert k v m = (if k \<in> fst ` set m then al_modify k (\<lambda>_. v) m else m @ [(k, v)])"

definition hm_wf :: "('k, 'v) hash_map \<Rightarrow> bool" where
  "hm_wf m \<longleftrightarrow> distinct (al_keys m)"

lemma hm_wf_distinct: "hm_wf m \<Longrightarrow> distinct (al_keys m)"
  by (simp add: hm_wf_def)

lemma hm_wf_Nil [simp]: "hm_wf []"
  by (simp add: hm_wf_def)

lemma map_of_hm_insert: "map_of (hm_insert k v m) = (map_of m)(k \<mapsto> v)"
proof (cases "k \<in> fst ` set m")
  case True
  then have "map_of m k \<noteq> None" by (simp add: map_of_eq_None_iff)
  with True show ?thesis by (auto simp: hm_insert_def fun_eq_iff)
next
  case False
  then have "map_of m k = None" by (simp add: map_of_eq_None_iff)
  with False show ?thesis by (auto simp: hm_insert_def fun_eq_iff map_add_def split: option.splits)
qed

lemma hm_wf_insert: "hm_wf m \<Longrightarrow> hm_wf (hm_insert k v m)"
  by (auto simp: hm_wf_def hm_insert_def) (auto simp: al_keys_def)

lemma hm_wf_remove: "hm_wf m \<Longrightarrow> hm_wf (al_remove k m)"
  unfolding hm_wf_def al_remove_def al_keys_def by (simp add: distinct_map_filter)

lemma hm_wf_modify [simp]: "hm_wf (al_modify k f m) = hm_wf m"
  by (simp add: hm_wf_def)

interpretation hm: map_contract "[] :: ('k, 'v) hash_map" map_of hm_insert al_remove al_keys hm_wf
  by unfold_locales
    (auto simp: map_of_hm_insert al_keys_iff intro: hm_wf_distinct hm_wf_insert hm_wf_remove)

section \<open>HashSet\<close>

text \<open>A \<open>HashSet\<close> is a list without duplicates that enumerates it in some order.\<close>

definition hs_insert :: "'a \<Rightarrow> 'a list \<Rightarrow> 'a list" where
  "hs_insert x xs = (if x \<in> set xs then xs else xs @ [x])"

definition hs_extend :: "'a list \<Rightarrow> 'a list \<Rightarrow> 'a list" where
  "hs_extend xs ys = foldl (\<lambda>acc y. hs_insert y acc) xs ys"

lemma set_hs_insert [simp]: "set (hs_insert x xs) = insert x (set xs)"
  by (auto simp: hs_insert_def)

lemma distinct_hs_insert [simp]: "distinct xs \<Longrightarrow> distinct (hs_insert x xs)"
  by (simp add: hs_insert_def)

lemma set_hs_extend [simp]: "set (hs_extend xs ys) = set xs \<union> set ys"
  unfolding hs_extend_def by (induction ys arbitrary: xs) auto

lemma distinct_hs_extend [simp]: "distinct xs \<Longrightarrow> distinct (hs_extend xs ys)"
  unfolding hs_extend_def by (induction ys arbitrary: xs) auto

end
