(* ===== verification/Rust_Monad.thy ===== *)
theory Rust_Monad
  imports Axiom_Prelude
begin

text \<open>
  Methods that take a struct by mutable reference and return a \<open>Result\<close>. A method maps the
  struct to an outcome and the struct it leaves behind, so that the mutations made before an
  early return are kept. Two further outcomes are a panic and an exhausted recursion bound.
  The weakest precondition has separate postconditions for a value and for an error; a method
  that panics or exhausts the bound has none, so every \<open>wp\<close> fact also says that neither
  happens.
\<close>

section \<open>Methods\<close>

datatype ('e, 'a) outcome = Done 'a | Fail 'e | Panicked | OutOfFuel

type_synonym ('s, 'e, 'a) rust_m = "'s \<Rightarrow> ('e, 'a) outcome \<times> 's"

definition sret :: "'a \<Rightarrow> ('s, 'e, 'a) rust_m" where
  "sret a s = (Done a, s)"

definition sfail :: "'e \<Rightarrow> ('s, 'e, 'a) rust_m" where
  "sfail e s = (Fail e, s)"

definition spanic :: "('s, 'e, 'a) rust_m" where
  "spanic s = (Panicked, s)"

definition sget :: "('s \<Rightarrow> 'a) \<Rightarrow> ('s, 'e, 'a) rust_m" where
  "sget f s = (Done (f s), s)"

definition smodify :: "('s \<Rightarrow> 's) \<Rightarrow> ('s, 'e, unit) rust_m" where
  "smodify f s = (Done (), f s)"

text \<open>\<open>expect\<close>: a missing value is a panic.\<close>

definition sexpect :: "'a option \<Rightarrow> ('s, 'e, 'a) rust_m" where
  "sexpect x = (case x of None \<Rightarrow> spanic | Some a \<Rightarrow> sret a)"

definition sbind :: "('s, 'e, 'a) rust_m \<Rightarrow> ('a \<Rightarrow> ('s, 'e, 'b) rust_m) \<Rightarrow> ('s, 'e, 'b) rust_m" where
  "sbind m f s =
     (case m s of
        (Done a, s') \<Rightarrow> f a s'
      | (Fail e, s') \<Rightarrow> (Fail e, s')
      | (Panicked, s') \<Rightarrow> (Panicked, s')
      | (OutOfFuel, s') \<Rightarrow> (OutOfFuel, s'))"

section \<open>Weakest preconditions\<close>

named_theorems wp_simps \<open>weakest preconditions of methods\<close>

definition wp :: "('s, 'e, 'a) rust_m \<Rightarrow> ('a \<Rightarrow> 's \<Rightarrow> bool) \<Rightarrow> ('e \<Rightarrow> 's \<Rightarrow> bool) \<Rightarrow> 's \<Rightarrow> bool" where
  "wp m Q E s \<longleftrightarrow>
     (case m s of
        (Done a, s') \<Rightarrow> Q a s'
      | (Fail e, s') \<Rightarrow> E e s'
      | (Panicked, s') \<Rightarrow> False
      | (OutOfFuel, s') \<Rightarrow> False)"

lemma wp_sret [wp_simps]: "wp (sret a) Q E s = Q a s"
  by (simp add: wp_def sret_def)

lemma wp_sget [wp_simps]: "wp (sget f) Q E s = Q (f s) s"
  by (simp add: wp_def sget_def)

lemma wp_smodify [wp_simps]: "wp (smodify f) Q E s = Q () (f s)"
  by (simp add: wp_def smodify_def)

lemma wp_spanic [wp_simps]: "wp spanic Q E s = False"
  by (simp add: wp_def spanic_def)

lemma wp_sexpect [wp_simps]: "wp (sexpect x) Q E s = (\<exists>a. x = Some a \<and> Q a s)"
  by (auto simp: sexpect_def wp_spanic wp_sret split: option.splits)

lemma wp_sfail [wp_simps]: "wp (sfail e) Q E s = E e s"
  by (simp add: wp_def sfail_def)

lemma wp_sbind [wp_simps]: "wp (sbind m f) Q E s = wp m (\<lambda>a. wp (f a) Q E) E s"
  by (auto simp: wp_def sbind_def split: prod.splits outcome.splits)

lemma wp_lambda [wp_simps]: "wp (\<lambda>s. (Done (f s), g s)) Q E s = Q (f s) (g s)"
  by (simp add: wp_def)

lemma wp_lambda_fail [wp_simps]: "wp (\<lambda>s. (Fail (f s), g s)) Q E s = E (f s) (g s)"
  by (simp add: wp_def)

lemma wp_if: "wp (if b then m else m') Q E s = (if b then wp m Q E s else wp m' Q E s)"
  by simp

lemma wp_mono:
  assumes "wp m Q E s" and "\<And>a s'. Q a s' \<Longrightarrow> Q' a s'" and "\<And>e s'. E e s' \<Longrightarrow> E' e s'"
  shows "wp m Q' E' s"
  using assms by (auto simp: wp_def split: prod.splits outcome.splits)

lemma wp_conseq:
  assumes "wp m Q E s" and "\<And>a s'. Q a s' \<Longrightarrow> Q' a s'"
  shows "wp m Q' E s"
  using assms by (rule wp_mono)

lemma wp_Done: "wp m Q E s \<Longrightarrow> m s = (Done a, s') \<Longrightarrow> Q a s'"
  and wp_Fail: "wp m Q E s \<Longrightarrow> m s = (Fail e, s') \<Longrightarrow> E e s'"
  and wp_Panicked: "wp m Q E s \<Longrightarrow> m s \<noteq> (Panicked, s')"
  and wp_OutOfFuel: "wp m Q E s \<Longrightarrow> m s \<noteq> (OutOfFuel, s')"
  by (auto simp: wp_def)

lemma wp_at: "m s = m' s \<Longrightarrow> wp m' Q E s \<Longrightarrow> wp m Q E s"
  by (simp add: wp_def)

end
