(* ===== verification/Package_Version.thy ===== *)
theory Package_Version
  imports Axiom_Prelude
begin

text \<open>
  Strict release-only semantic versions (\<open>package_version.rs\<close>): the version and requirement
  types with their derived orders, parsing, printing and requirement matching. The
  components are 64-bit words, so the overflow check of the parser is a branch of the model.
\<close>

section \<open>Release versions\<close>

datatype release_version = ReleaseVersion (major: u64) (minor: u64) (patch: u64)

datatype version_parse_error =
    InvalidRelease string
  | ComponentOverflow string
  | InvalidRequirement string

definition version_key :: "release_version \<Rightarrow> u64 \<times> u64 \<times> u64" where
  "version_key v = (major v, minor v, patch v)"

lemma version_key_inj [simp]: "version_key a = version_key b \<longleftrightarrow> a = b"
  by (cases a; cases b) (simp add: version_key_def)

text \<open>The derived \<open>Ord\<close>: the fields in declaration order.\<close>

instantiation release_version :: linorder
begin

definition less_eq_release_version :: "release_version \<Rightarrow> release_version \<Rightarrow> bool" where
  "less_eq_release_version a b \<longleftrightarrow> version_key a \<le> version_key b"

definition less_release_version :: "release_version \<Rightarrow> release_version \<Rightarrow> bool" where
  "less_release_version a b \<longleftrightarrow> version_key a < version_key b"

instance
  by standard (auto simp: less_eq_release_version_def less_release_version_def
      simp flip: version_key_inj)

end

definition show_word :: "'w::len word \<Rightarrow> string" where
  "show_word w = show_nat (unat w)"

definition release_version_to_string :: "release_version \<Rightarrow> string" where
  "release_version_to_string v =
     show_word (major v) @ ''.'' @ show_word (minor v) @ ''.'' @ show_word (patch v)"

text \<open>\<open>parse_component\<close>: a non-empty run of digits without a superfluous leading zero that
  fits into 64 bits.\<close>

definition parse_component :: "string option \<Rightarrow> string \<Rightarrow> (version_parse_error, u64) result" where
  "parse_component component original =
     (case component of
        None \<Rightarrow> Inl (InvalidRelease original)
      | Some c \<Rightarrow>
          if c = [] \<or> \<not> list_all is_ascii_digit c \<or> (length c > 1 \<and> hd c = CHR ''0'')
          then Inl (InvalidRelease original)
          else if decimal_value c < 2 ^ 64 then Inr (word_of_nat (decimal_value c))
          else Inl (ComponentOverflow original))"

text \<open>The iterator \<open>parts\<close> is the list of pieces; \<open>next\<close> takes its head.\<close>

definition next_part :: "string list \<Rightarrow> string option \<times> string list" where
  "next_part ps = (case ps of [] \<Rightarrow> (None, []) | p # ps' \<Rightarrow> (Some p, ps'))"

definition parse_release_version :: "string \<Rightarrow> (version_parse_error, release_version) result" where
  "parse_release_version s =
     (if s = [] \<or> \<not> list_all is_ascii s then Inl (InvalidRelease s)
      else
        let (p1, r1) = next_part (split_on (CHR ''.'') s) in
        rbind (parse_component p1 s) (\<lambda>ma.
        let (p2, r2) = next_part r1 in
        rbind (parse_component p2 s) (\<lambda>mi.
        let (p3, r3) = next_part r2 in
        rbind (parse_component p3 s) (\<lambda>pa.
          if fst (next_part r3) \<noteq> None then Inl (InvalidRelease s)
          else Inr (ReleaseVersion ma mi pa)))))"

section \<open>Requirements\<close>

datatype version_requirement = Exact release_version | Caret release_version

fun minimum :: "version_requirement \<Rightarrow> release_version" where
  "minimum (Exact v) = v"
| "minimum (Caret v) = v"

definition matches :: "version_requirement \<Rightarrow> release_version \<Rightarrow> bool" where
  "matches r candidate =
     (if candidate < minimum r then False
      else (case r of
          Exact v \<Rightarrow> candidate = v
        | Caret v \<Rightarrow>
            if major v > 0 then major candidate = major v
            else if minor v > 0 then major candidate = 0 \<and> minor candidate = minor v
            else major candidate = 0 \<and> minor candidate = 0 \<and> patch candidate = patch v))"

fun requirement_key :: "version_requirement \<Rightarrow> nat \<times> release_version" where
  "requirement_key (Exact v) = (0, v)"
| "requirement_key (Caret v) = (1, v)"

lemma requirement_key_inj [simp]: "requirement_key a = requirement_key b \<longleftrightarrow> a = b"
  by (cases a; cases b) simp_all

instantiation version_requirement :: linorder
begin

definition less_eq_version_requirement :: "version_requirement \<Rightarrow> version_requirement \<Rightarrow> bool" where
  "less_eq_version_requirement a b \<longleftrightarrow> requirement_key a \<le> requirement_key b"

definition less_version_requirement :: "version_requirement \<Rightarrow> version_requirement \<Rightarrow> bool" where
  "less_version_requirement a b \<longleftrightarrow> requirement_key a < requirement_key b"

instance
  by standard (auto simp: less_eq_version_requirement_def less_version_requirement_def
      simp flip: requirement_key_inj)

end

fun version_requirement_to_string :: "version_requirement \<Rightarrow> string" where
  "version_requirement_to_string (Exact v) = release_version_to_string v"
| "version_requirement_to_string (Caret v) = ''^'' @ release_version_to_string v"

definition parse_version_requirement :: "string \<Rightarrow> (version_parse_error, version_requirement) result" where
  "parse_version_requirement s =
     (if s \<noteq> [] \<and> hd s = CHR ''^'' then
        let version = tl s in
        if version \<noteq> [] \<and> hd version = CHR ''^'' then Inl (InvalidRequirement s)
        else (case parse_release_version version of
            Inl _ \<Rightarrow> Inl (InvalidRequirement s)
          | Inr v \<Rightarrow> Inr (Caret v))
      else (case parse_release_version s of
          Inl _ \<Rightarrow> Inl (InvalidRequirement s)
        | Inr v \<Rightarrow> Inr (Exact v)))"

section \<open>Round trips\<close>

lemma digit_char_0: "digit_char 0 = CHR ''0''"
  by code_simp

lemma is_ascii_digit_ascii: "is_ascii_digit c \<Longrightarrow> is_ascii c"
  by (simp add: is_ascii_def is_ascii_digit_def)

lemma dot_not_digit: "\<not> is_ascii_digit (CHR ''.'')" and caret_not_digit: "\<not> is_ascii_digit (CHR ''^'')"
  by (simp_all add: is_ascii_digit_def)

lemma show_word_digits: "list_all is_ascii_digit (show_word w)"
  using show_nat_digits by (auto simp: show_word_def list_all_iff)

lemma show_word_no_dot [simp]: "CHR ''.'' \<notin> set (show_word w)"
  using show_word_digits [of w] dot_not_digit by (auto simp: list_all_iff)

lemma show_word_nonempty [simp]: "show_word w \<noteq> []"
  by (simp add: show_word_def)

lemma parse_component_show [simp]:
  fixes w :: u64
  shows "parse_component (Some (show_word w)) orig = Inr w"
proof -
  have "\<not> (length (show_word w) > 1 \<and> hd (show_word w) = CHR ''0'')"
  proof
    assume a: "length (show_word w) > 1 \<and> hd (show_word w) = CHR ''0''"
    then have "unat w = 0"
      using hd_show_nat_zero [of "unat w"] by (simp add: show_word_def digit_char_0)
    then have "show_word w = [digit_char 0]"
      by (simp add: show_word_def show_nat.simps)
    with a show False by simp
  qed
  then show ?thesis
    using show_word_digits [of w] unsigned_less [of w]
    by (auto simp: parse_component_def show_word_def)
qed

lemma parse_component_Inr:
  assumes "parse_component c orig = Inr w"
  obtains s where "c = Some s" "show_word w = s"
proof -
  obtain s where s: "c = Some s" "s \<noteq> []" "list_all is_ascii_digit s"
      "\<not> (length s > 1 \<and> hd s = CHR ''0'')" "decimal_value s < 2 ^ 64"
      "w = word_of_nat (decimal_value s)"
    using assms by (auto simp: parse_component_def split: option.splits if_splits)
  have "length s = 1 \<or> hd s \<noteq> digit_char 0"
    using s(2,4) digit_char_0 by (cases s; cases "tl s") auto
  then have "show_nat (decimal_value s) = s"
    using show_nat_decimal_value s(2,3) by (auto simp: list_all_iff)
  moreover have "unat w = decimal_value s"
    using s(5,6) by (simp add: unat_of_nat)
  ultimately have "show_word w = s" by (simp add: show_word_def)
  with s(1) show thesis by (rule that)
qed

lemma release_version_to_string_ascii: "list_all is_ascii (release_version_to_string v)"
proof -
  have "list_all is_ascii (show_word w)" for w :: u64
    using show_word_digits [of w] is_ascii_digit_ascii by (auto simp: list_all_iff)
  then show ?thesis by (simp add: release_version_to_string_def is_ascii_def)
qed

lemma parse_print_version [simp]: "parse_release_version (release_version_to_string v) = Inr v"
proof -
  have "split_on (CHR ''.'') (release_version_to_string v)
      = [show_word (major v), show_word (minor v), show_word (patch v)]"
    by (simp add: release_version_to_string_def)
  moreover have "release_version_to_string v \<noteq> []"
    by (simp add: release_version_to_string_def)
  ultimately show ?thesis
    using release_version_to_string_ascii
    by (simp add: parse_release_version_def next_part_def)
qed

lemma print_parse_version:
  assumes "parse_release_version s = Inr v"
  shows "release_version_to_string v = s"
proof -
  obtain p1 r1 where 1: "next_part (split_on (CHR ''.'') s) = (p1, r1)" by fastforce
  obtain p2 r2 where 2: "next_part r1 = (p2, r2)" by fastforce
  obtain p3 r3 where 3: "next_part r2 = (p3, r3)" by fastforce
  note steps = 1 2 3
  obtain ma mi pa where comps: "parse_component p1 s = Inr ma" "parse_component p2 s = Inr mi"
      "parse_component p3 s = Inr pa"
    and v: "v = ReleaseVersion ma mi pa" and last: "fst (next_part r3) = None"
    using assms steps
    by (auto simp: parse_release_version_def rbind_Inr_iff split: if_splits)
  obtain s1 s2 s3 where "p1 = Some s1" "show_word ma = s1" "p2 = Some s2" "show_word mi = s2"
      "p3 = Some s3" "show_word pa = s3"
    using comps by (elim parse_component_Inr)
  moreover from this have "split_on (CHR ''.'') s = [s1, s2, s3]"
    using steps last by (auto simp: next_part_def split: list.splits)
  ultimately show ?thesis
    using join_split_on [of "CHR ''.''" s] v by (simp add: release_version_to_string_def)
qed

lemma hd_version_string_not_caret: "hd (release_version_to_string v) \<noteq> CHR ''^''"
proof -
  have "is_ascii_digit (hd (show_word (major v)))"
    using show_word_digits [of "major v"] by (cases "show_word (major v)") auto
  then show ?thesis
    using caret_not_digit by (auto simp: release_version_to_string_def)
qed

lemma version_string_nonempty [simp]: "release_version_to_string v \<noteq> []"
  by (simp add: release_version_to_string_def)

lemma release_version_to_string_inj: "release_version_to_string a = release_version_to_string b \<Longrightarrow> a = b"
  by (metis parse_print_version sum.inject(2))

text \<open>
  C19. A printed requirement parses back to itself: printing is injective and every printed
  requirement is accepted, with no component overflowing.
\<close>

theorem version_requirement_roundtrip:
  "parse_version_requirement (version_requirement_to_string r) = Inr r"
  by (cases r) (simp_all add: parse_version_requirement_def hd_version_string_not_caret)

text \<open>
  C20. The parser is strict: whatever it accepts is exactly the canonical print of the result,
  so no extended, padded, wildcard or range form is read as a requirement.
\<close>

theorem version_requirement_strict:
  assumes "parse_version_requirement s = Inr r"
  shows "s = version_requirement_to_string r"
  using assms
  by (cases s) (auto simp: parse_version_requirement_def Let_def split: if_splits sum.splits
      dest: print_parse_version)

theorem version_requirement_strict_witness:
  "''^1.20.0'' = version_requirement_to_string (Caret (ReleaseVersion 1 20 0))"
  by (rule version_requirement_strict)
    (simp add: parse_version_requirement_def parse_release_version_def next_part_def
      parse_component_def is_ascii_def is_ascii_digit_def decimal_value_def digit_value_def)

section \<open>Matching as an interval\<close>

text \<open>The reference definition: a caret requirement allows the versions from its minimum up to,
  and not including, the next version that changes the leftmost non-zero component. The
  bound is over unbounded numbers, since the component after the largest word is none.\<close>

definition nat_key :: "release_version \<Rightarrow> nat \<times> nat \<times> nat" where
  "nat_key v = (unat (major v), unat (minor v), unat (patch v))"

definition caret_bound :: "release_version \<Rightarrow> nat \<times> nat \<times> nat" where
  "caret_bound v =
     (if 0 < major v then (Suc (unat (major v)), 0, 0)
      else if 0 < minor v then (0, Suc (unat (minor v)), 0)
      else (0, 0, Suc (unat (patch v))))"

definition in_requirement_range :: "version_requirement \<Rightarrow> release_version \<Rightarrow> bool" where
  "in_requirement_range r c =
     (case r of
        Exact v \<Rightarrow> c = v
      | Caret v \<Rightarrow> nat_key v \<le> nat_key c \<and> nat_key c < caret_bound v)"

lemma version_le_nat_key: "a \<le> b \<longleftrightarrow> nat_key a \<le> nat_key b"
  by (auto simp: less_eq_release_version_def version_key_def nat_key_def word_less_nat_alt
      word_le_nat_alt word_unat_eq_iff)

lemma version_less_nat_key: "a < b \<longleftrightarrow> nat_key a < nat_key b"
  by (simp only: version_le_nat_key not_le [symmetric])

lemma nat_key_inj [simp]: "nat_key a = nat_key b \<longleftrightarrow> a = b"
  by (cases a; cases b) (simp add: nat_key_def word_unat_eq_iff)

lemma matches_range: "matches r c \<longleftrightarrow> in_requirement_range r c"
proof (cases r)
  case (Exact v)
  then show ?thesis by (auto simp: matches_def in_requirement_range_def)
next
  case (Caret v)
  then show ?thesis
    by (auto simp: matches_def in_requirement_range_def version_less_nat_key nat_key_def
        caret_bound_def word_less_nat_alt word_unat_eq_iff not_less less_Suc_eq_le)
qed

text \<open>
  C21. Requirement matching is membership in the interval of the reference definition.
\<close>

theorem matches_iff_range: "matches r c \<longleftrightarrow> in_requirement_range r c"
  by (rule matches_range)

text \<open>The contract the resolver relies on: what matches is at least the minimum, the minimum
  itself matches, and the accepted versions form an interval.\<close>

locale requirement_contract =
  fixes req_matches :: "'r \<Rightarrow> 'v::linorder \<Rightarrow> bool"
    and req_minimum :: "'r \<Rightarrow> 'v"
  assumes minimum_matches: "req_matches r (req_minimum r)"
    and matches_ge: "req_matches r c \<Longrightarrow> req_minimum r \<le> c"
    and matches_convex: "req_matches r a \<Longrightarrow> req_matches r b \<Longrightarrow> a \<le> c \<Longrightarrow> c \<le> b \<Longrightarrow> req_matches r c"
begin

text \<open>Requirements that agree on a version agree on everything between the larger of their minima
  and that version.\<close>

lemma joint_convex:
  assumes "\<forall>r \<in> R. req_matches r b" "\<forall>r \<in> R. req_minimum r \<le> c" "c \<le> b"
  shows "\<forall>r \<in> R. req_matches r c"
  using assms matches_convex [OF minimum_matches] by blast

lemma below_minimum_rejected: "c < req_minimum r \<Longrightarrow> \<not> req_matches r c"
  using matches_ge leD by blast

end

lemma nat_key_minimum_less: "nat_key v < caret_bound v"
  by (auto simp: nat_key_def caret_bound_def word_less_nat_alt unat_eq_0)

interpretation req: requirement_contract matches minimum
proof
  fix r show "matches r (minimum r)"
    by (cases r) (simp_all add: matches_range in_requirement_range_def nat_key_minimum_less)
next
  fix r c assume "matches r c" then show "minimum r \<le> c"
    by (auto simp: matches_def split: if_splits)
next
  fix r a b c assume "matches r a" "matches r b" "a \<le> c" "c \<le> b"
  then show "matches r c"
    by (cases r) (auto simp: matches_range in_requirement_range_def version_le_nat_key
        intro: order_trans le_less_trans)
qed

end
