(* ===== verification/Package_Resolver.thy ===== *)
theory Package_Resolver
  imports Rust_Maps Rust_Monad Package_Version
begin

text \<open>
  The deterministic, bounded, single-version package resolver
  (\<open>package_resolver.rs\<close>): its data, the solver state, every operation of the solver and
  the entry point \<open>resolve_packages\<close>. The package source (the trait
  \<open>ResolverSource\<close>) is a parameter, a record of state-passing functions; so is the
  JSON-schema validator of the result. Solver methods thread the solver and end in an
  \<open>outcome\<close>: a value, an error, a panic, or an exhausted recursion bound.
\<close>

section \<open>Data\<close>

datatype package_key = PackageKey
  (pk_registry: string) (pk_source: string) (pk_namespace: string) (pk_name: string)

definition package_key_tuple :: "package_key \<Rightarrow> string \<times> string \<times> string \<times> string" where
  "package_key_tuple k = (pk_registry k, pk_source k, pk_namespace k, pk_name k)"

lemma package_key_tuple_inj [simp]: "package_key_tuple a = package_key_tuple b \<longleftrightarrow> a = b"
  by (cases a; cases b) (simp add: package_key_tuple_def)

instantiation package_key :: linorder
begin

definition less_eq_package_key :: "package_key \<Rightarrow> package_key \<Rightarrow> bool" where
  "less_eq_package_key a b \<longleftrightarrow> package_key_tuple a \<le> package_key_tuple b"

definition less_package_key :: "package_key \<Rightarrow> package_key \<Rightarrow> bool" where
  "less_package_key a b \<longleftrightarrow> package_key_tuple a < package_key_tuple b"

instance
  by standard (auto simp: less_eq_package_key_def less_package_key_def
      simp flip: package_key_tuple_inj)

end

definition package_key_to_string :: "package_key \<Rightarrow> string" where
  "package_key_to_string k =
     pk_registry k @ ''@'' @ pk_source k @ ''::'' @ pk_namespace k @ ''/'' @ pk_name k"

record registry_dependency =
  rd_alias :: string
  rd_package :: package_key
  rd_requirement :: version_requirement

record path_dependency =
  pd_alias :: string
  pd_path :: string
  pd_version :: "release_version option"

datatype dependency = Registry registry_dependency | Path path_dependency

record catalog_candidate =
  cand_version :: release_version
  cand_yanked :: bool
  cand_release_id :: string

record authenticated_catalog =
  cat_package :: package_key
  cat_candidates :: "catalog_candidate list"
  cat_authentication_id :: string

record verified_candidate =
  vc_package :: package_key
  vc_version :: release_version
  vc_release_id :: string
  vc_dependencies :: "dependency list"
  vc_manifest_digest :: string
  vc_signer_key_ids :: "string list"
  vc_edition :: string
  vc_compatibility :: string

record source_failure =
  sf_code :: string
  sf_message :: string

text \<open>The trait \<open>ResolverSource\<close>: each method takes the source by mutable reference.\<close>

record 's resolver_source =
  authenticate_catalog :: "'s \<Rightarrow> package_key \<Rightarrow> (source_failure, authenticated_catalog) result \<times> 's"
  verify_candidate :: "'s \<Rightarrow> authenticated_catalog \<Rightarrow> catalog_candidate \<Rightarrow>
    (source_failure, verified_candidate) result \<times> 's"
  discard_candidate :: "'s \<Rightarrow> catalog_candidate \<Rightarrow> 's"

record locked_selection =
  ls_version :: release_version

record resolver_limits =
  max_packages :: nat
  max_catalog_candidates :: nat
  max_candidate_attempts :: nat
  max_backtracks :: nat
  max_trace_events :: nat

definition default_resolver_limits :: resolver_limits where
  "default_resolver_limits =
     \<lparr>max_packages = 256, max_catalog_candidates = 16384, max_candidate_attempts = 16384,
      max_backtracks = 8192, max_trace_events = 65536\<rparr>"

datatype resolution_mode = Fresh | Locked | Update

record resolve_request =
  rq_dependencies :: "dependency list"
  rq_locked :: "(package_key, locked_selection) btree_map"
  rq_frozen :: "(package_key, locked_selection) btree_map"
  rq_mode :: resolution_mode
  rq_limits :: resolver_limits

record resolved_package =
  rp_package :: package_key
  rp_version :: release_version
  rp_release_id :: string
  rp_manifest_digest :: string
  rp_signer_key_ids :: "string list"
  rp_edition :: string
  rp_compatibility :: string
  rp_yanked :: bool

record resolved_edge =
  re_from :: "package_key option"
  re_alias :: string
  re_to :: package_key
  re_requirement :: version_requirement
  re_selected :: release_version

definition edge_key ::
  "resolved_edge \<Rightarrow> package_key option \<times> string \<times> package_key \<times> version_requirement \<times> release_version"
where
  "edge_key e = (re_from e, re_alias e, re_to e, re_requirement e, re_selected e)"

datatype preserved_path_dependency = PreservedPathDependency
  (pp_from: "package_key option") (pp_alias: string) (pp_path: string)
  (pp_version: "release_version option")

definition preserved_path_key ::
  "preserved_path_dependency \<Rightarrow> package_key option \<times> string \<times> string \<times> release_version option"
where
  "preserved_path_key p = (pp_from p, pp_alias p, pp_path p, pp_version p)"

lemma preserved_path_key_inj [simp]: "preserved_path_key a = preserved_path_key b \<longleftrightarrow> a = b"
  by (cases a; cases b) (simp add: preserved_path_key_def)

instantiation preserved_path_dependency :: linorder
begin

definition less_eq_preserved_path_dependency ::
  "preserved_path_dependency \<Rightarrow> preserved_path_dependency \<Rightarrow> bool" where
  "less_eq_preserved_path_dependency a b \<longleftrightarrow> preserved_path_key a \<le> preserved_path_key b"

definition less_preserved_path_dependency ::
  "preserved_path_dependency \<Rightarrow> preserved_path_dependency \<Rightarrow> bool" where
  "less_preserved_path_dependency a b \<longleftrightarrow> preserved_path_key a < preserved_path_key b"

instance
  by standard (auto simp: less_eq_preserved_path_dependency_def less_preserved_path_dependency_def
      simp flip: preserved_path_key_inj)

end

datatype candidate_rejection =
    ConstraintMismatch
  | FrozenMismatch release_version
  | Yanked
  | VerificationFailed string
  | IdentityMismatch
  | Cycle package_key
  | DownstreamConflict

datatype trace_event =
    PathPreserved "package_key option" string string
  | ConstraintAdded "package_key option" package_key version_requirement
  | CatalogAuthenticated package_key string nat
  | CandidateConsidered package_key release_version string
  | CandidateRejected package_key release_version candidate_rejection
  | CandidateVerified package_key release_version string
  | Selected package_key release_version
  | Backtracked package_key release_version
  | ConflictEvent package_key "version_requirement list"

record resolution =
  rs_schema_version :: string
  rs_packages :: "resolved_package list"
  rs_edges :: "resolved_edge list"
  rs_path_dependencies :: "preserved_path_dependency list"
  rs_trace :: "trace_event list"

datatype resolve_error =
    InvalidRequest string
  | InvalidResolution string
  | InvalidCatalog package_key string
  | SourceError package_key source_failure "trace_event list"
  | ConflictError package_key "version_requirement list" "trace_event list"
  | BudgetExceeded string nat "trace_event list"

record constraint =
  cn_from :: "package_key option"
  cn_alias :: string
  cn_requirement :: version_requirement

record selection =
  sel_candidate :: catalog_candidate
  sel_verified :: verified_candidate

record solver_state =
  ss_constraints :: "(package_key, constraint list) btree_map"
  ss_selected :: "(package_key, selection) btree_map"
  ss_paths :: "preserved_path_dependency list"

definition empty_solver_state :: solver_state where
  "empty_solver_state = \<lparr>ss_constraints = [], ss_selected = [], ss_paths = []\<rparr>"

text \<open>\<open>CandidateCacheKey\<close>, in field order.\<close>

type_synonym candidate_cache_key = "package_key \<times> release_version \<times> string"

record 's solver =
  sv_source :: 's
  sv_request :: resolve_request
  sv_catalogs :: "(package_key, authenticated_catalog) btree_map"
  sv_verified :: "(candidate_cache_key, (source_failure, verified_candidate) result) btree_map"
  sv_trace :: "trace_event list"
  sv_catalog_candidate_count :: nat
  sv_candidate_attempts :: nat
  sv_backtracks :: nat
  sv_last_conflict :: "(package_key \<times> version_requirement list) option"

section \<open>Threading the solver\<close>

text \<open>Every method takes the solver and may fail with a \<open>resolve_error\<close>.\<close>

type_synonym ('s, 'a) solver_m = "('s solver, resolve_error, 'a) rust_m"

definition budget_error :: "string \<Rightarrow> nat \<Rightarrow> 's solver \<Rightarrow> resolve_error" where
  "budget_error budget limit s = BudgetExceeded budget limit (sv_trace s)"

definition push_trace :: "trace_event \<Rightarrow> ('s, unit) solver_m" where
  "push_trace event s =
     (let limit = max_trace_events (rq_limits (sv_request s)) in
      if length (sv_trace s) \<ge> limit
      then (Fail (budget_error ''trace events'' limit s), s)
      else (Done (), s\<lparr>sv_trace := sv_trace s @ [event]\<rparr>))"

section \<open>Constraints\<close>

definition validate_limits :: "resolver_limits \<Rightarrow> (resolve_error, unit) result" where
  "validate_limits l =
     (if max_packages l = 0 \<or> max_catalog_candidates l = 0 \<or> max_candidate_attempts l = 0
         \<or> max_backtracks l = 0 \<or> max_trace_events l = 0
      then Inl (InvalidRequest ''resolver budgets must all be positive'')
      else Inr ())"

fun dependency_key :: "dependency \<Rightarrow> nat \<times> string \<times> string" where
  "dependency_key (Registry d) = (0, package_key_to_string (rd_package d), rd_alias d)"
| "dependency_key (Path d) = (1, pd_path d, pd_alias d)"

definition sort_dependencies :: "dependency list \<Rightarrow> dependency list" where
  "sort_dependencies ds = sort_key dependency_key ds"

fun add_dependency ::
  "solver_state \<Rightarrow> package_key option \<Rightarrow> dependency \<Rightarrow> ('s, solver_state) solver_m"
where
  "add_dependency st from (Path d) =
     (if pd_alias d = [] \<or> pd_path d = [] \<or> CHR 0x00 \<in> set (pd_path d)
      then sfail (InvalidRequest ''path dependency alias and path must be non-empty and NUL-free'')
      else
        let st' = st\<lparr>ss_paths := bset_insert
              (PreservedPathDependency from (pd_alias d) (pd_path d) (pd_version d)) (ss_paths st)\<rparr>
        in sbind (push_trace (PathPreserved from (pd_alias d) (pd_path d))) (\<lambda>_. sret st'))"
| "add_dependency st from (Registry d) = (\<lambda>s.
     if rd_alias d = [] \<or> pk_registry (rd_package d) = [] \<or> pk_source (rd_package d) = []
        \<or> pk_namespace (rd_package d) = [] \<or> pk_name (rd_package d) = []
     then sfail (InvalidRequest ''registry dependency coordinates and alias must be non-empty'') s
     else if map_of (ss_constraints st) (rd_package d) = None
        \<and> length (ss_constraints st) \<ge> max_packages (rq_limits (sv_request s))
     then sfail (budget_error ''packages'' (max_packages (rq_limits (sv_request s))) s) s
     else
       let st' = st\<lparr>ss_constraints := bt_entry (rd_package d) [] (\<lambda>cs. cs @
             [\<lparr>cn_from = from, cn_alias = rd_alias d, cn_requirement = rd_requirement d\<rparr>])
             (ss_constraints st)\<rparr>
       in sbind (push_trace (ConstraintAdded from (rd_package d) (rd_requirement d)))
            (\<lambda>_. sret st') s)"

fun add_dependencies ::
  "solver_state \<Rightarrow> package_key option \<Rightarrow> dependency list \<Rightarrow> ('s, solver_state) solver_m"
where
  "add_dependencies st from [] = sret st"
| "add_dependencies st from (d # ds) =
     sbind (add_dependency st from d) (\<lambda>st'. add_dependencies st' from ds)"

text \<open>\<open>requirements_for\<close> with \<open>Some state\<close>, the only way it is called.\<close>

definition requirements_for :: "package_key \<Rightarrow> solver_state \<Rightarrow> version_requirement list" where
  "requirements_for p st =
     remdups_adj (sort_key version_requirement_to_string
       (map cn_requirement (case map_of (ss_constraints st) p of None \<Rightarrow> [] | Some cs \<Rightarrow> cs)))"

section \<open>The path search\<close>

definition depends_on :: "constraint list \<Rightarrow> package_key \<Rightarrow> bool" where
  "depends_on cs p \<longleftrightarrow> (\<exists>c \<in> set cs. cn_from c = Some p)"

definition direct_dependencies :: "solver_state \<Rightarrow> package_key \<Rightarrow> package_key list" where
  "direct_dependencies st p =
     map fst (filter (\<lambda>(target, cs). depends_on cs p) (ss_constraints st))"

definition dependents :: "solver_state \<Rightarrow> package_key set" where
  "dependents st = {p. direct_dependencies st p \<noteq> []}"

lemma finite_dependents: "finite (dependents st)"
proof -
  have "dependents st \<subseteq> (\<Union>(t, cs) \<in> set (ss_constraints st). \<Union>c \<in> set cs. set_option (cn_from c))"
    by (auto simp: dependents_def direct_dependencies_def depends_on_def filter_empty_conv)
  then show ?thesis by (rule finite_subset) auto
qed

text \<open>The worklist loop of \<open>dependency_path_exists\<close>: the stack's top is the list's head, the
  targets are pushed in key order, and the loop returns as soon as it meets the goal.\<close>

function path_search ::
  "solver_state \<Rightarrow> package_key \<Rightarrow> package_key list \<Rightarrow> package_key list \<Rightarrow> bool"
where
  "path_search st goal [] visited = False"
| "path_search st goal (p # pending) visited =
     (if p \<in> set visited then path_search st goal pending visited
      else
        let targets = direct_dependencies st p in
        if goal \<in> set targets then True
        else path_search st goal (rev targets @ pending) (bset_insert p visited))"
  by pat_completeness auto
termination
proof (relation "inv_image (finite_psubset <*lex*> less_than)
    (\<lambda>(st, goal, pending, visited). (dependents st - set visited, length pending))", goal_cases)
  case 1
  then show ?case by auto
next
  case (2 st goal p pending visited)
  then show ?case by simp
next
  case (3 st goal p pending visited targets)
  show ?case
  proof (cases "p \<in> dependents st")
    case True
    then have "dependents st - set (bset_insert p visited) \<subset> dependents st - set visited"
      using 3 by auto
    then show ?thesis
      by (simp add: finite_psubset_def finite_dependents)
  next
    case False
    then have "dependents st - set (bset_insert p visited) = dependents st - set visited"
      and "targets = []"
      using 3 by (auto simp: dependents_def)
    then show ?thesis by simp
  qed
qed

definition dependency_path_exists :: "solver_state \<Rightarrow> package_key \<Rightarrow> package_key \<Rightarrow> bool" where
  "dependency_path_exists st start goal =
     (if start = goal then True else path_search st goal [start] [])"

section \<open>Budgets and caches\<close>

definition backtrack :: "package_key \<Rightarrow> release_version \<Rightarrow> ('s, unit) solver_m" where
  "backtrack p v s =
     (let limit = max_backtracks (rq_limits (sv_request s)) in
      if sv_backtracks s \<ge> limit then (Fail (budget_error ''backtracks'' limit s), s)
      else push_trace (Backtracked p v) (s\<lparr>sv_backtracks := sv_backtracks s + 1\<rparr>))"

definition bump_candidate_attempts :: "('s, unit) solver_m" where
  "bump_candidate_attempts s =
     (let limit = max_candidate_attempts (rq_limits (sv_request s)) in
      if sv_candidate_attempts s \<ge> limit
      then (Fail (budget_error ''candidate attempts'' limit s), s)
      else (Done (), s\<lparr>sv_candidate_attempts := sv_candidate_attempts s + 1\<rparr>))"

text \<open>The loop over the catalog's rows: identities non-empty, versions unique.\<close>

fun valid_candidates :: "catalog_candidate list \<Rightarrow> release_version list \<Rightarrow> bool" where
  "valid_candidates [] versions = True"
| "valid_candidates (c # cs) versions =
     (if cand_release_id c = [] \<or> cand_version c \<in> set versions then False
      else valid_candidates cs (bset_insert (cand_version c) versions))"

definition catalog :: "'s resolver_source \<Rightarrow> package_key \<Rightarrow> ('s, authenticated_catalog) solver_m" where
  "catalog src p s =
     (case map_of (sv_catalogs s) p of
        Some cat \<Rightarrow> (Done cat, s)
      | None \<Rightarrow>
         (case authenticate_catalog src (sv_source s) p of
            (Inl failure, source') \<Rightarrow>
              (Fail (SourceError p failure (sv_trace s)), s\<lparr>sv_source := source'\<rparr>)
          | (Inr cat, source') \<Rightarrow>
             (let s = s\<lparr>sv_source := source'\<rparr>;
                  limit = max_catalog_candidates (rq_limits (sv_request s)) in
              if cat_package cat \<noteq> p then
                (Fail (InvalidCatalog p (''catalog is bound to '' @ package_key_to_string (cat_package cat)
                    @ '', not '' @ package_key_to_string p)), s)
              else if cat_authentication_id cat = [] then
                (Fail (InvalidCatalog p ''catalog authentication identity must be non-empty''), s)
              else if \<not> valid_candidates (cat_candidates cat) [] then
                (Fail (InvalidCatalog p ''release identities must be non-empty and versions unique''), s)
              else
                (case usize_checked_add (sv_catalog_candidate_count s) (length (cat_candidates cat)) of
                   None \<Rightarrow> (Fail (budget_error ''catalog candidates'' limit s), s)
                 | Some n \<Rightarrow>
                    (let s = s\<lparr>sv_catalog_candidate_count := n\<rparr> in
                     if n > limit then (Fail (budget_error ''catalog candidates'' limit s), s)
                     else
                       sbind (push_trace (CatalogAuthenticated p (cat_authentication_id cat)
                           (length (cat_candidates cat))))
                         (\<lambda>_ s. (Done cat, s\<lparr>sv_catalogs := bt_insert p cat (sv_catalogs s)\<rparr>)) s)))))"

definition verified_candidate_of ::
  "'s resolver_source \<Rightarrow> authenticated_catalog \<Rightarrow> catalog_candidate \<Rightarrow>
    ('s, (source_failure, verified_candidate) result) solver_m"
where
  "verified_candidate_of src cat cand s =
     (let key = (cat_package cat, cand_version cand, cand_release_id cand) in
      case map_of (sv_verified s) key of
        Some cached \<Rightarrow> (Done cached, s)
      | None \<Rightarrow>
         (case verify_candidate src (sv_source s) cat cand of
            (result, source') \<Rightarrow>
              (Done result, s\<lparr>sv_source := source', sv_verified := bt_insert key result (sv_verified s)\<rparr>)))"

definition discard :: "'s resolver_source \<Rightarrow> catalog_candidate \<Rightarrow> ('s, unit) solver_m" where
  "discard src cand s = (Done (), s\<lparr>sv_source := discard_candidate src (sv_source s) cand\<rparr>)"

section \<open>Solving\<close>

text \<open>Candidates in the order they are tried: newest first, a locked version before all.\<close>

definition candidate_le :: "catalog_candidate \<Rightarrow> catalog_candidate \<Rightarrow> bool" where
  "candidate_le l r \<longleftrightarrow>
     cand_version r < cand_version l
     \<or> (cand_version r = cand_version l \<and> cand_release_id l \<le> cand_release_id r)"

definition candidate_order :: "resolve_request \<Rightarrow> package_key \<Rightarrow> catalog_candidate list \<Rightarrow> catalog_candidate list" where
  "candidate_order rq p cands =
     (let sorted = sort_by candidate_le cands in
      if rq_mode rq = Locked then
        (case map_of (rq_locked rq) p of
           None \<Rightarrow> sorted
         | Some locked \<Rightarrow> sort_key (\<lambda>c. cand_version c \<noteq> ls_version locked) sorted)
      else sorted)"

definition selects :: "(package_key, locked_selection) btree_map \<Rightarrow> package_key \<Rightarrow> release_version \<Rightarrow> bool" where
  "selects m p v \<longleftrightarrow> (case map_of m p of None \<Rightarrow> False | Some l \<Rightarrow> ls_version l = v)"

definition exact_locked_yank_replay :: "resolve_request \<Rightarrow> package_key \<Rightarrow> release_version \<Rightarrow> bool" where
  "exact_locked_yank_replay rq p v =
     (case rq_mode rq of
        Fresh \<Rightarrow> False
      | Locked \<Rightarrow> selects (rq_locked rq) p v \<or> selects (rq_frozen rq) p v
      | Update \<Rightarrow> selects (rq_frozen rq) p v)"

text \<open>The loop that adds a selected candidate's dependencies, stopping at the first that closes a
  cycle.\<close>

fun add_candidate_dependencies ::
  "package_key \<Rightarrow> solver_state \<Rightarrow> dependency list \<Rightarrow> ('s, solver_state \<times> package_key option) solver_m"
where
  "add_candidate_dependencies p nxt [] = sret (nxt, None)"
| "add_candidate_dependencies p nxt (d # ds) =
     (case d of
        Registry r \<Rightarrow>
          if dependency_path_exists nxt (rd_package r) p then sret (nxt, Some (rd_package r))
          else sbind (add_dependency nxt (Some p) d) (\<lambda>nxt'. add_candidate_dependencies p nxt' ds)
      | Path _ \<Rightarrow>
          sbind (add_dependency nxt (Some p) d) (\<lambda>nxt'. add_candidate_dependencies p nxt' ds))"

definition reject :: "package_key \<Rightarrow> catalog_candidate \<Rightarrow> candidate_rejection \<Rightarrow> ('s, unit) solver_m" where
  "reject p cand reason = push_trace (CandidateRejected p (cand_version cand) reason)"

text \<open>What the loop body does with one candidate: \<open>Next\<close> is \<open>continue\<close>, with the value
  of \<open>attempted\<close>; \<open>Solved\<close> is the early return with a solution.\<close>

datatype step = Next bool | Solved solver_state

text \<open>The three tests a candidate must pass before its manifest is read, in the order of the
  code; \<open>Some\<close> is the reason of the rejection.\<close>

definition screen_candidate ::
  "resolve_request \<Rightarrow> package_key \<Rightarrow> version_requirement list \<Rightarrow> catalog_candidate \<Rightarrow> candidate_rejection option"
where
  "screen_candidate rq p requirements cand =
     (case map_of (rq_frozen rq) p of
        Some frozen \<Rightarrow>
          if cand_version cand \<noteq> ls_version frozen then Some (FrozenMismatch (ls_version frozen))
          else if \<not> list_all (\<lambda>r. matches r (cand_version cand)) requirements then Some ConstraintMismatch
          else if cand_yanked cand \<and> \<not> exact_locked_yank_replay rq p (cand_version cand) then Some Yanked
          else None
      | None \<Rightarrow>
          if \<not> list_all (\<lambda>r. matches r (cand_version cand)) requirements then Some ConstraintMismatch
          else if cand_yanked cand \<and> \<not> exact_locked_yank_replay rq p (cand_version cand) then Some Yanked
          else None)"

text \<open>Selecting a verified candidate and solving the rest, or rejecting it.\<close>

definition give_up :: "'s resolver_source \<Rightarrow> package_key \<Rightarrow> catalog_candidate \<Rightarrow> candidate_rejection \<Rightarrow>
    ('s, step) solver_m" where
  "give_up src p cand reason =
     sbind (reject p cand reason) (\<lambda>_.
     sbind (discard src cand) (\<lambda>_.
     sbind (backtrack p (cand_version cand)) (\<lambda>_. sret (Next True))))"

definition explore_candidate ::
  "'s resolver_source \<Rightarrow> (solver_state \<Rightarrow> ('s, solver_state option) solver_m) \<Rightarrow> package_key \<Rightarrow>
    solver_state \<Rightarrow> catalog_candidate \<Rightarrow> verified_candidate \<Rightarrow> ('s, step) solver_m"
where
  "explore_candidate src recurse p st cand verified =
     (if vc_package verified \<noteq> p \<or> vc_version verified \<noteq> cand_version cand
         \<or> vc_release_id verified \<noteq> cand_release_id cand then
        sbind (reject p cand IdentityMismatch) (\<lambda>_.
        sbind (discard src cand) (\<lambda>_. sret (Next True)))
      else
        sbind (push_trace (CandidateVerified p (cand_version cand) (vc_manifest_digest verified))) (\<lambda>_.
        sbind (add_candidate_dependencies p
            (st\<lparr>ss_selected := bt_insert p \<lparr>sel_candidate = cand, sel_verified = verified\<rparr> (ss_selected st)\<rparr>)
            (sort_dependencies (vc_dependencies verified)))
          (\<lambda>(nxt, cycle).
        case cycle of
          Some through \<Rightarrow> give_up src p cand (Cycle through)
        | None \<Rightarrow>
            sbind (recurse nxt) (\<lambda>solution.
            case solution of
              Some sol \<Rightarrow>
                sbind (push_trace (Selected p (cand_version cand))) (\<lambda>_. sret (Solved sol))
            | None \<Rightarrow> give_up src p cand DownstreamConflict))))"

definition try_candidate ::
  "'s resolver_source \<Rightarrow> (solver_state \<Rightarrow> ('s, solver_state option) solver_m) \<Rightarrow> package_key \<Rightarrow>
    version_requirement list \<Rightarrow> authenticated_catalog \<Rightarrow> solver_state \<Rightarrow> bool \<Rightarrow> catalog_candidate \<Rightarrow>
    ('s, step) solver_m"
where
  "try_candidate src recurse p requirements cat st attempted cand =
     sbind bump_candidate_attempts (\<lambda>_.
     sbind (push_trace (CandidateConsidered p (cand_version cand) (cand_release_id cand))) (\<lambda>_ s.
       case screen_candidate (sv_request s) p requirements cand of
         Some reason \<Rightarrow> sbind (reject p cand reason) (\<lambda>_. sret (Next attempted)) s
       | None \<Rightarrow>
           sbind (verified_candidate_of src cat cand) (\<lambda>result.
           case result of
             Inl failure \<Rightarrow>
               sbind (reject p cand (VerificationFailed (sf_code failure)))
                 (\<lambda>_ s. (Fail (SourceError p failure (sv_trace s)), s))
           | Inr verified \<Rightarrow> explore_candidate src recurse p st cand verified) s))"

definition note_conflict :: "package_key \<Rightarrow> version_requirement list \<Rightarrow> ('s, unit) solver_m" where
  "note_conflict p requirements s =
     push_trace (ConflictEvent p requirements) (s\<lparr>sv_last_conflict := Some (p, requirements)\<rparr>)"

text \<open>The loop over the candidates, and what follows it.\<close>

fun try_candidates ::
  "'s resolver_source \<Rightarrow> (solver_state \<Rightarrow> ('s, solver_state option) solver_m) \<Rightarrow> package_key \<Rightarrow>
    version_requirement list \<Rightarrow> authenticated_catalog \<Rightarrow> solver_state \<Rightarrow> bool \<Rightarrow> catalog_candidate list \<Rightarrow>
    ('s, solver_state option) solver_m"
where
  "try_candidates src recurse p requirements cat st attempted [] =
     (if attempted \<or> cat_candidates cat \<noteq> []
      then sbind (note_conflict p requirements) (\<lambda>_. sret None)
      else sret None)"
| "try_candidates src recurse p requirements cat st attempted (cand # cands) =
     sbind (try_candidate src recurse p requirements cat st attempted cand) (\<lambda>r.
       case r of
         Solved sol \<Rightarrow> sret (Some sol)
       | Next attempted' \<Rightarrow> try_candidates src recurse p requirements cat st attempted' cands)"

definition violated :: "solver_state \<Rightarrow> package_key \<times> selection \<Rightarrow> bool" where
  "violated st ps =
     (case map_of (ss_constraints st) (fst ps) of
        None \<Rightarrow> False
      | Some cs \<Rightarrow> list_ex (\<lambda>c. \<not> matches (cn_requirement c) (cand_version (sel_candidate (snd ps)))) cs)"

definition selected_conflict :: "solver_state \<Rightarrow> package_key option" where
  "selected_conflict st = map_option fst (find (violated st) (ss_selected st))"

definition next_unselected :: "solver_state \<Rightarrow> package_key option" where
  "next_unselected st =
     find (\<lambda>p. map_of (ss_selected st) p = None) (al_keys (ss_constraints st))"

text \<open>\<open>solve\<close>. The first argument bounds the depth of the recursion; each level selects one more
  package, so \<^term>\<open>Suc (max_packages l)\<close> levels are enough.\<close>

fun solve :: "nat \<Rightarrow> 's resolver_source \<Rightarrow> solver_state \<Rightarrow> ('s, solver_state option) solver_m" where
  "solve 0 src st s = (OutOfFuel, s)"
| "solve (Suc depth) src st s =
     (case selected_conflict st of
        Some p \<Rightarrow> sbind (note_conflict p (requirements_for p st)) (\<lambda>_. sret None) s
      | None \<Rightarrow>
         (case next_unselected st of
            None \<Rightarrow> sret (Some st) s
          | Some p \<Rightarrow>
             sbind (catalog src p) (\<lambda>cat s.
               try_candidates src (solve depth src) p (requirements_for p st) cat st False
                 (candidate_order (sv_request s) p (cat_candidates cat)) s) s))"

section \<open>The result\<close>

definition resolved_package_of :: "package_key \<times> selection \<Rightarrow> resolved_package" where
  "resolved_package_of ps =
     (let sel = snd ps in
      \<lparr>rp_package = fst ps,
       rp_version = cand_version (sel_candidate sel),
       rp_release_id = cand_release_id (sel_candidate sel),
       rp_manifest_digest = vc_manifest_digest (sel_verified sel),
       rp_signer_key_ids = remdups_adj (sort (vc_signer_key_ids (sel_verified sel))),
       rp_edition = vc_edition (sel_verified sel),
       rp_compatibility = vc_compatibility (sel_verified sel),
       rp_yanked = cand_yanked (sel_candidate sel)\<rparr>)"

text \<open>\<open>state.selected[package]\<close> panics when the package has no selection.\<close>

fun edges_of :: "(package_key, selection) btree_map \<Rightarrow> (package_key, constraint list) btree_map \<Rightarrow>
    resolved_edge list option" where
  "edges_of selected [] = Some []"
| "edges_of selected ((p, cs) # rest) =
     (case map_of selected p of
        None \<Rightarrow> None
      | Some sel \<Rightarrow>
          map_option (\<lambda>es. map (\<lambda>c. \<lparr>re_from = cn_from c, re_alias = cn_alias c, re_to = p,
              re_requirement = cn_requirement c, re_selected = cand_version (sel_candidate sel)\<rparr>) cs @ es)
            (edges_of selected rest))"

definition finish :: "solver_state \<Rightarrow> ('s, resolution) solver_m" where
  "finish st s =
     (case edges_of (ss_selected st) (ss_constraints st) of
        None \<Rightarrow> (Panicked, s)
      | Some edges \<Rightarrow>
          (Done \<lparr>rs_schema_version = ''axiom.package_resolution.v1'',
                 rs_packages = map resolved_package_of (ss_selected st),
                 rs_edges = sort_key edge_key edges,
                 rs_path_dependencies = ss_paths st,
                 rs_trace = sv_trace s\<rparr>, s))"

definition new_solver :: "'s \<Rightarrow> resolve_request \<Rightarrow> 's solver" where
  "new_solver source rq =
     \<lparr>sv_source = source, sv_request = rq, sv_catalogs = [], sv_verified = [], sv_trace = [],
      sv_catalog_candidate_count = 0, sv_candidate_attempts = 0, sv_backtracks = 0,
      sv_last_conflict = None\<rparr>"

text \<open>\<open>resolve_packages\<close>; \<open>schema\<close> stands for \<open>validate_resolution_schema\<close>, which only calls
  serde and the JSON-schema crate: \<open>None\<close> accepts, \<open>Some message\<close> is its error.\<close>

definition resolve_packages ::
  "'s resolver_source \<Rightarrow> (resolution \<Rightarrow> string option) \<Rightarrow> 's \<Rightarrow> resolve_request \<Rightarrow> (resolve_error, resolution) outcome \<times> 's solver"
where
  "resolve_packages src schema source rq =
     (let s0 = new_solver source rq in
      case validate_limits (rq_limits rq) of
        Inl e \<Rightarrow> (Fail e, s0)
      | Inr _ \<Rightarrow>
          sbind (add_dependencies empty_solver_state None (sort_dependencies (rq_dependencies rq))) (\<lambda>st.
          sbind (solve (Suc (max_packages (rq_limits rq))) src st) (\<lambda>r.
          case r of
            Some st' \<Rightarrow>
              sbind (finish st') (\<lambda>resolution.
                case schema resolution of
                  Some message \<Rightarrow> sfail (InvalidResolution message)
                | None \<Rightarrow> sret resolution)
          | None \<Rightarrow> (\<lambda>s.
              let (p, requirements) =
                (case sv_last_conflict s of
                   Some c \<Rightarrow> c
                 | None \<Rightarrow> ((case al_keys (ss_constraints st) of
                      k # _ \<Rightarrow> k | [] \<Rightarrow> PackageKey [] [] [] ''<root>''), []))
              in sbind (push_trace (ConflictEvent p requirements))
                   (\<lambda>_ s. (Fail (ConflictError p requirements (sv_trace s)), s)) s))) s0)"

end
