(* ===== verification/Resolver_Logic.thy ===== *)
theory Resolver_Logic
  imports Package_Resolver
begin

text \<open>
  Reasoning about solver methods: the solver's own invariant (caches, budgets) with a weakest
  precondition rule for each method, and the correctness of the worklist search.
\<close>

section \<open>The solver's invariant\<close>

text \<open>What the methods keep of the solver itself: the request is never changed, the caches are
  maps whose entries passed validation, and no budget is exceeded.\<close>

definition valid_catalog :: "package_key \<Rightarrow> authenticated_catalog \<Rightarrow> bool" where
  "valid_catalog p cat \<longleftrightarrow>
     cat_package cat = p \<and> cat_authentication_id cat \<noteq> [] \<and> valid_candidates (cat_candidates cat) []"

definition within_budget :: "'s solver \<Rightarrow> bool" where
  "within_budget s \<longleftrightarrow>
     length (sv_trace s) \<le> max_trace_events (rq_limits (sv_request s))
     \<and> sv_candidate_attempts s \<le> max_candidate_attempts (rq_limits (sv_request s))
     \<and> sv_backtracks s \<le> max_backtracks (rq_limits (sv_request s))"

definition solver_inv :: "resolve_request \<Rightarrow> 's solver \<Rightarrow> bool" where
  "solver_inv rq s \<longleftrightarrow>
     sv_request s = rq \<and> bt_wf (sv_catalogs s) \<and> bt_wf (sv_verified s)
     \<and> (\<forall>p cat. map_of (sv_catalogs s) p = Some cat \<longrightarrow> valid_catalog p cat)
     \<and> within_budget s"

text \<open>Caches only grow.\<close>

definition grows :: "'s solver \<Rightarrow> 's solver \<Rightarrow> bool" where
  "grows s s' \<longleftrightarrow>
     map_of (sv_catalogs s) \<subseteq>\<^sub>m map_of (sv_catalogs s')
     \<and> map_of (sv_verified s) \<subseteq>\<^sub>m map_of (sv_verified s')"

lemma grows_refl [simp]: "grows s s"
  by (simp add: grows_def)

lemma grows_trans: "grows s s' \<Longrightarrow> grows s' s'' \<Longrightarrow> grows s s''"
  by (auto simp: grows_def intro: map_le_trans)

lemma grows_same:
  "sv_catalogs s' = sv_catalogs s \<Longrightarrow> sv_verified s' = sv_verified s \<Longrightarrow> grows s s'"
  by (simp add: grows_def)

text \<open>A method is tame when it keeps the solver's invariant, only grows the caches, and reports no
  version conflict as an error: conflicts are values inside the search.\<close>

fun is_conflict_error :: "resolve_error \<Rightarrow> bool" where
  "is_conflict_error (ConflictError _ _ _) = True"
| "is_conflict_error _ = False"

definition err_post :: "resolve_request \<Rightarrow> resolve_error \<Rightarrow> 's solver \<Rightarrow> bool" where
  "err_post rq e s \<longleftrightarrow> solver_inv rq s \<and> \<not> is_conflict_error e"

lemma wp_push_trace:
  assumes "solver_inv rq s"
    and "\<And>s'. solver_inv rq s' \<Longrightarrow> sv_catalogs s' = sv_catalogs s \<Longrightarrow> sv_verified s' = sv_verified s \<Longrightarrow>
      Q () s'"
  shows "wp (push_trace ev) Q (err_post rq) s"
  using assms
  by (auto simp: wp_def push_trace_def Let_def err_post_def budget_error_def solver_inv_def within_budget_def)

lemma wp_bump:
  assumes "solver_inv rq s"
    and "\<And>s'. solver_inv rq s' \<Longrightarrow> sv_catalogs s' = sv_catalogs s \<Longrightarrow> sv_verified s' = sv_verified s \<Longrightarrow>
      Q () s'"
  shows "wp bump_candidate_attempts Q (err_post rq) s"
  using assms
  by (auto simp: wp_def bump_candidate_attempts_def Let_def err_post_def budget_error_def solver_inv_def
      within_budget_def)

lemma wp_backtrack:
  assumes "solver_inv rq s"
    and "\<And>s'. solver_inv rq s' \<Longrightarrow> sv_catalogs s' = sv_catalogs s \<Longrightarrow> sv_verified s' = sv_verified s \<Longrightarrow>
      Q () s'"
  shows "wp (backtrack p v) Q (err_post rq) s"
  using assms
  by (auto simp: wp_def backtrack_def push_trace_def Let_def err_post_def budget_error_def solver_inv_def
      within_budget_def)

lemma wp_discard:
  assumes "solver_inv rq s"
    and "\<And>s'. solver_inv rq s' \<Longrightarrow> sv_catalogs s' = sv_catalogs s \<Longrightarrow> sv_verified s' = sv_verified s \<Longrightarrow>
      Q () s'"
  shows "wp (discard src cand) Q (err_post rq) s"
  using assms by (auto simp: wp_def discard_def solver_inv_def within_budget_def)

lemma wp_note_conflict:
  assumes "solver_inv rq s"
    and "\<And>s'. solver_inv rq s' \<Longrightarrow> sv_catalogs s' = sv_catalogs s \<Longrightarrow> sv_verified s' = sv_verified s \<Longrightarrow>
      Q () s'"
  shows "wp (note_conflict p rs) Q (err_post rq) s"
  using assms
  by (auto simp: wp_def note_conflict_def push_trace_def Let_def err_post_def budget_error_def solver_inv_def
      within_budget_def)

lemma wp_reject:
  assumes "solver_inv rq s"
    and "\<And>s'. solver_inv rq s' \<Longrightarrow> sv_catalogs s' = sv_catalogs s \<Longrightarrow> sv_verified s' = sv_verified s \<Longrightarrow>
      Q () s'"
  shows "wp (reject p cand r) Q (err_post rq) s"
  unfolding reject_def using assms by (rule wp_push_trace)

text \<open>\<open>catalog\<close>: the cached or freshly authenticated catalog, validated. \<open>origin\<close> says where a
  fresh catalog came from.\<close>

definition answers_catalog :: "'s resolver_source \<Rightarrow> package_key \<Rightarrow> authenticated_catalog \<Rightarrow> bool" where
  "answers_catalog src p cat \<longleftrightarrow> (\<exists>t. fst (authenticate_catalog src t p) = Inr cat)"

definition answers_candidate ::
  "'s resolver_source \<Rightarrow> authenticated_catalog \<Rightarrow> catalog_candidate \<Rightarrow> verified_candidate \<Rightarrow> bool" where
  "answers_candidate src cat cand vc \<longleftrightarrow> (\<exists>t. fst (verify_candidate src t cat cand) = Inr vc)"

text \<open>Every cache entry is an answer of the source.\<close>

definition caches_answer :: "'s resolver_source \<Rightarrow> 's solver \<Rightarrow> bool" where
  "caches_answer src s \<longleftrightarrow>
     (\<forall>p cat. map_of (sv_catalogs s) p = Some cat \<longrightarrow> answers_catalog src p cat)
     \<and> (\<forall>p v i vc. map_of (sv_verified s) (p, v, i) = Some (Inr vc) \<longrightarrow>
          (\<exists>cat cand. map_of (sv_catalogs s) p = Some cat \<and> cand \<in> set (cat_candidates cat)
            \<and> cand_version cand = v \<and> cand_release_id cand = i \<and> answers_candidate src cat cand vc))"

lemma caches_answer_same:
  "caches_answer src s \<Longrightarrow> sv_catalogs s' = sv_catalogs s \<Longrightarrow> sv_verified s' = sv_verified s \<Longrightarrow>
    caches_answer src s'"
  by (simp add: caches_answer_def)

lemma grows_insert_catalog:
  assumes "bt_wf (sv_catalogs s)" "map_of (sv_catalogs s) p = None"
    "sv_catalogs s' = bt_insert p cat (sv_catalogs s)" "sv_verified s' = sv_verified s"
  shows "grows s s'"
  using assms by (auto simp: grows_def map_le_def bt.get_insert)

lemma caches_answer_insert_catalog:
  assumes "caches_answer src s" "bt_wf (sv_catalogs s)" "map_of (sv_catalogs s) p = None"
    "answers_catalog src p cat"
    "sv_catalogs s' = bt_insert p cat (sv_catalogs s)" "sv_verified s' = sv_verified s"
  shows "caches_answer src s'"
proof -
  have old: "map_of (sv_catalogs s) q = Some c \<Longrightarrow> map_of (sv_catalogs s') q = Some c" for q c
    using assms(2,3,5) by (auto simp: bt.get_insert)
  have "map_of (sv_catalogs s') q = Some c \<Longrightarrow> answers_catalog src q c" for q c
    using assms by (auto simp: bt.get_insert caches_answer_def split: if_splits)
  then show ?thesis
    using assms(1,6) unfolding caches_answer_def by (metis old)
qed

lemma wp_catalog:
  assumes inv: "solver_inv rq s" and ca: "caches_answer src s"
    and post: "\<And>cat s'. solver_inv rq s' \<Longrightarrow> caches_answer src s' \<Longrightarrow> grows s s' \<Longrightarrow>
      map_of (sv_catalogs s') p = Some cat \<Longrightarrow> Q cat s'"
  shows "wp (catalog src p) Q (err_post rq) s"
proof (cases "map_of (sv_catalogs s) p")
  case (Some cat)
  then have "catalog src p s = (Done cat, s)" by (simp add: catalog_def)
  moreover have "Q cat s" using inv ca Some by (auto intro: post)
  ultimately show ?thesis by (simp add: wp_def)
next
  case None
  obtain r t where auth: "authenticate_catalog src (sv_source s) p = (r, t)" by fastforce
  define s1 where "s1 = s\<lparr>sv_source := t\<rparr>"
  have s1: "solver_inv rq s1" "map_of (sv_catalogs s1) p = None" "bt_wf (sv_catalogs s1)"
    using inv None by (auto simp: s1_def solver_inv_def within_budget_def)
  show ?thesis
  proof (cases r)
    case (Inl f)
    then show ?thesis
      using None auth s1(1) by (simp add: catalog_def wp_def err_post_def s1_def)
  next
    case (Inr cat)
    have answer: "answers_catalog src p cat"
      using auth Inr by (metis answers_catalog_def fst_conv)
    have fin: "wp (sbind (push_trace ev) (\<lambda>_ s. (Done cat, s\<lparr>sv_catalogs := bt_insert p cat (sv_catalogs s)\<rparr>)))
        Q (err_post rq) (s1\<lparr>sv_catalog_candidate_count := n\<rparr>)" if "valid_catalog p cat" for ev n
    proof (unfold wp_sbind, rule wp_push_trace)
      show "solver_inv rq (s1\<lparr>sv_catalog_candidate_count := n\<rparr>)"
        using s1(1) by (auto simp: solver_inv_def within_budget_def)
    next
      fix s2 :: "'a solver"
      assume s2: "solver_inv rq s2" "sv_catalogs s2 = sv_catalogs (s1\<lparr>sv_catalog_candidate_count := n\<rparr>)"
        "sv_verified s2 = sv_verified (s1\<lparr>sv_catalog_candidate_count := n\<rparr>)"
      have same: "sv_catalogs s2 = sv_catalogs s" "sv_verified s2 = sv_verified s"
        using s2 by (simp_all add: s1_def)
      let ?s3 = "s2\<lparr>sv_catalogs := bt_insert p cat (sv_catalogs s2)\<rparr>"
      have wf: "bt_wf (sv_catalogs s)" using inv by (simp add: solver_inv_def)
      have "solver_inv rq ?s3"
        using s2(1) that same wf by (auto simp: solver_inv_def within_budget_def bt.get_insert bt.wf_insert)
      moreover have "caches_answer src ?s3"
        by (rule caches_answer_insert_catalog [OF ca wf None answer]) (simp_all add: same)
      moreover have "grows s ?s3"
        by (rule grows_insert_catalog [OF wf None]) (simp_all add: same)
      ultimately show "wp (\<lambda>s. (Done cat, s\<lparr>sv_catalogs := bt_insert p cat (sv_catalogs s)\<rparr>)) Q (err_post rq) s2"
        using same wf by (auto simp: wp_simps bt.get_insert intro: post)
    qed
    have err: "err_post rq e (s1\<lparr>sv_catalog_candidate_count := n\<rparr>)" "err_post rq e s1"
      if "\<not> is_conflict_error e" for e n
      using s1(1) that by (auto simp: err_post_def solver_inv_def within_budget_def)
    show ?thesis
      using None auth Inr fin err
      by (auto simp: catalog_def wp_def Let_def valid_catalog_def budget_error_def
          simp flip: s1_def split: option.splits)
  qed
qed

lemma wp_verified_candidate_of:
  assumes inv: "solver_inv rq s" and ca: "caches_answer src s"
    and cat: "map_of (sv_catalogs s) p = Some cat" and cand: "cand \<in> set (cat_candidates cat)"
    and post: "\<And>r s'. solver_inv rq s' \<Longrightarrow> caches_answer src s' \<Longrightarrow> grows s s' \<Longrightarrow>
      map_of (sv_verified s') (p, cand_version cand, cand_release_id cand) = Some r \<Longrightarrow> Q r s'"
  shows "wp (verified_candidate_of src cat cand) Q (err_post rq) s"
proof -
  let ?key = "(p, cand_version cand, cand_release_id cand)"
  have p: "cat_package cat = p"
    using inv cat by (auto simp: solver_inv_def valid_catalog_def)
  show ?thesis
  proof (cases "map_of (sv_verified s) ?key")
    case (Some r)
    then show ?thesis using inv ca by (auto simp: wp_def verified_candidate_of_def p intro: post)
  next
    case None
    obtain r t where ver: "verify_candidate src (sv_source s) cat cand = (r, t)" by fastforce
    let ?s' = "s\<lparr>sv_source := t, sv_verified := bt_insert ?key r (sv_verified s)\<rparr>"
    have wf: "bt_wf (sv_verified s)" using inv by (simp add: solver_inv_def)
    have "r = Inr vc \<Longrightarrow> answers_candidate src cat cand vc" for vc
      using ver by (metis answers_candidate_def fst_conv)
    then have "caches_answer src ?s'"
      using ca cat cand wf by (auto simp: caches_answer_def bt.get_insert)
    moreover have "solver_inv rq ?s'"
      using inv by (auto simp: solver_inv_def within_budget_def bt.wf_insert)
    moreover have "grows s ?s'"
      using None wf by (auto simp: grows_def map_le_def bt.get_insert)
    ultimately have "Q r ?s'" using wf by (intro post) (simp_all add: bt.get_insert)
    then show ?thesis
      using None ver by (simp add: wp_def verified_candidate_of_def p)
  qed
qed

section \<open>The path search decides reachability\<close>

definition dep_graph :: "solver_state \<Rightarrow> (package_key \<times> package_key) set" where
  "dep_graph st = {(q, t). \<exists>cs. map_of (ss_constraints st) t = Some cs \<and> depends_on cs q}"

lemma set_direct_dependencies:
  assumes "bt_wf (ss_constraints st)"
  shows "t \<in> set (direct_dependencies st q) \<longleftrightarrow> (q, t) \<in> dep_graph st"
proof -
  have "map_of (ss_constraints st) t = Some cs \<longleftrightarrow> (t, cs) \<in> set (ss_constraints st)" for cs
    using assms by (intro map_of_Some_iff bt_wf_distinct)
  then show ?thesis by (force simp: direct_dependencies_def dep_graph_def)
qed

lemma path_search_sound:
  assumes "bt_wf (ss_constraints st)"
  shows "path_search st goal pending visited \<Longrightarrow> \<exists>p \<in> set pending. (p, goal) \<in> (dep_graph st)\<^sup>+"
  using assms
proof (induction st goal pending visited rule: path_search.induct)
  case (1 st goal visited)
  then show ?case by simp
next
  case (2 st goal q pending visited)
  show ?case
  proof (cases "q \<in> set visited \<or> goal \<in> set (direct_dependencies st q)")
    case True
    with 2 show ?thesis by (auto simp: set_direct_dependencies split: if_splits)
  next
    case False
    then obtain p where p: "p \<in> set (rev (direct_dependencies st q) @ pending)" "(p, goal) \<in> (dep_graph st)\<^sup>+"
      using "2.IH"(2) [OF _ refl] "2.prems" by (auto simp: Let_def)
    then show ?thesis
      using "2.prems"(2) by (auto simp: set_direct_dependencies intro: trancl_into_trancl2)
  qed
qed

text \<open>Visited packages have all their dependencies on the stack or visited, and none is the goal.\<close>

lemma path_search_complete:
  assumes "bt_wf (ss_constraints st)" "\<not> path_search st goal pending visited"
    and "\<forall>v \<in> set visited. \<forall>t. (v, t) \<in> dep_graph st \<longrightarrow> t \<noteq> goal \<and> t \<in> set visited \<union> set pending"
    and "p \<in> set visited \<union> set pending"
  shows "(p, goal) \<notin> (dep_graph st)\<^sup>+"
  using assms
proof (induction st goal pending visited rule: path_search.induct)
  case (1 st goal visited)
  have "x \<in> set visited" if "(p, x) \<in> (dep_graph st)\<^sup>*" for x
    using that 1 by (induction rule: rtrancl_induct) auto
  then show ?case using 1 by (auto dest!: tranclD2)
next
  case (2 st goal q pending visited)
  show ?case
  proof (cases "q \<in> set visited")
    case True
    with 2 show ?thesis by auto
  next
    case False
    let ?pending = "rev (direct_dependencies st q) @ pending"
    have g: "goal \<notin> set (direct_dependencies st q)"
      and n: "\<not> path_search st goal ?pending (bset_insert q visited)"
      using "2.prems"(2) False by (auto simp: Let_def split: if_splits)
    show ?thesis
      by (rule "2.IH"(2) [OF False refl g "2.prems"(1) n])
        (use "2.prems" g in \<open>auto simp: set_direct_dependencies\<close>)
  qed
qed

lemma dependency_path_exists_iff:
  assumes "bt_wf (ss_constraints st)"
  shows "dependency_path_exists st a b \<longleftrightarrow> (a, b) \<in> (dep_graph st)\<^sup>*"
  using path_search_sound [OF assms, of b "[a]" "[]"] path_search_complete [OF assms, of b "[a]" "[]" a]
  by (auto simp: dependency_path_exists_def simp del: path_search.simps
      dest: rtranclD trancl_into_rtrancl)

end
