(* ===== verification/Resolver_Correct.thy ===== *)
theory Resolver_Correct
  imports Resolver_Logic
begin

text \<open>
  The resolver against its specification. An assignment maps packages to selections; it is valid
  for a request when every dependency of the request and of every selected release is
  satisfied by the selection of its target, every selection is a release the source offers and
  the request allows, and the dependencies form no cycle. The resolver returns a valid
  assignment or, for a source that answers consistently, reports a conflict only when there
  is none.
\<close>

section \<open>Specification\<close>

type_synonym assignment = "package_key \<rightharpoonup> selection"

definition allowed :: "resolve_request \<Rightarrow> package_key \<Rightarrow> catalog_candidate \<Rightarrow> bool" where
  "allowed rq p cand \<longleftrightarrow>
     (\<forall>f. map_of (rq_frozen rq) p = Some f \<longrightarrow> cand_version cand = ls_version f)
     \<and> (cand_yanked cand \<longrightarrow> exact_locked_yank_replay rq p (cand_version cand))"

definition same_identity :: "package_key \<Rightarrow> selection \<Rightarrow> bool" where
  "same_identity p sel \<longleftrightarrow>
     vc_package (sel_verified sel) = p
     \<and> vc_version (sel_verified sel) = cand_version (sel_candidate sel)
     \<and> vc_release_id (sel_verified sel) = cand_release_id (sel_candidate sel)"

definition offered :: "'s resolver_source \<Rightarrow> package_key \<Rightarrow> selection \<Rightarrow> bool" where
  "offered src p sel \<longleftrightarrow>
     (\<exists>cat. answers_catalog src p cat \<and> valid_catalog p cat
        \<and> sel_candidate sel \<in> set (cat_candidates cat)
        \<and> answers_candidate src cat (sel_candidate sel) (sel_verified sel))"

definition satisfies :: "assignment \<Rightarrow> registry_dependency \<Rightarrow> bool" where
  "satisfies \<sigma> r \<longleftrightarrow>
     (\<exists>sel. \<sigma> (rd_package r) = Some sel \<and> matches (rd_requirement r) (cand_version (sel_candidate sel)))"

text \<open>The dependencies that \<^term>\<open>from\<close> (\<open>None\<close> is the request itself) asks for.\<close>

definition wanted :: "resolve_request \<Rightarrow> assignment \<Rightarrow> package_key option \<Rightarrow> dependency list" where
  "wanted rq \<sigma> from =
     (case from of
        None \<Rightarrow> rq_dependencies rq
      | Some q \<Rightarrow> (case \<sigma> q of None \<Rightarrow> [] | Some sel \<Rightarrow> vc_dependencies (sel_verified sel)))"

definition assignment_graph :: "resolve_request \<Rightarrow> assignment \<Rightarrow> (package_key \<times> package_key) set" where
  "assignment_graph rq \<sigma> = {(q, t). \<exists>r. Registry r \<in> set (wanted rq \<sigma> (Some q)) \<and> rd_package r = t}"

definition valid_assignment :: "'s resolver_source \<Rightarrow> resolve_request \<Rightarrow> assignment \<Rightarrow> bool" where
  "valid_assignment src rq \<sigma> \<longleftrightarrow>
     (\<forall>from r. Registry r \<in> set (wanted rq \<sigma> from) \<longrightarrow> satisfies \<sigma> r)
     \<and> (\<forall>p sel. \<sigma> p = Some sel \<longrightarrow>
          offered src p sel \<and> same_identity p sel \<and> allowed rq p (sel_candidate sel))
     \<and> acyclic (assignment_graph rq \<sigma>)"

text \<open>A source answers consistently when repeated queries return the same catalog and the same
  verified manifest.\<close>

definition consistent_source :: "'s resolver_source \<Rightarrow> bool" where
  "consistent_source src \<longleftrightarrow>
     (\<forall>p cat cat'. answers_catalog src p cat \<longrightarrow> answers_catalog src p cat' \<longrightarrow> cat = cat')
     \<and> (\<forall>cat cand vc vc'. answers_candidate src cat cand vc \<longrightarrow> answers_candidate src cat cand vc' \<longrightarrow> vc = vc')"

section \<open>The invariant of the search state\<close>

abbreviation chosen :: "solver_state \<Rightarrow> assignment" where
  "chosen st \<equiv> map_of (ss_selected st)"

definition registry_of :: "constraint \<Rightarrow> package_key \<Rightarrow> dependency" where
  "registry_of c t = Registry \<lparr>rd_alias = cn_alias c, rd_package = t, rd_requirement = cn_requirement c\<rparr>"

fun path_of :: "preserved_path_dependency \<Rightarrow> dependency" where
  "path_of (PreservedPathDependency from a pa v) = Path \<lparr>pd_alias = a, pd_path = pa, pd_version = v\<rparr>"

fun covers :: "solver_state \<Rightarrow> package_key option \<Rightarrow> dependency \<Rightarrow> bool" where
  "covers st from (Registry r) =
     (\<exists>cs. map_of (ss_constraints st) (rd_package r) = Some cs
        \<and> \<lparr>cn_from = from, cn_alias = rd_alias r, cn_requirement = rd_requirement r\<rparr> \<in> set cs)"
| "covers st from (Path d) =
     (PreservedPathDependency from (pd_alias d) (pd_path d) (pd_version d) \<in> set (ss_paths st))"

definition selection_ok :: "resolve_request \<Rightarrow> 's solver \<Rightarrow> package_key \<Rightarrow> selection \<Rightarrow> bool" where
  "selection_ok rq s p sel \<longleftrightarrow>
     (\<exists>cat. map_of (sv_catalogs s) p = Some cat \<and> sel_candidate sel \<in> set (cat_candidates cat))
     \<and> map_of (sv_verified s) (p, cand_version (sel_candidate sel), cand_release_id (sel_candidate sel))
          = Some (Inr (sel_verified sel))
     \<and> same_identity p sel \<and> allowed rq p (sel_candidate sel)"

text \<open>Everything but coverage, which holds again once a candidate's dependencies are all added.\<close>

definition state_core :: "resolve_request \<Rightarrow> 's solver \<Rightarrow> solver_state \<Rightarrow> bool" where
  "state_core rq s st \<longleftrightarrow>
     bt_wf (ss_constraints st) \<and> bt_wf (ss_selected st) \<and> sorted_wrt (<) (ss_paths st)
     \<and> length (ss_constraints st) \<le> max_packages (rq_limits rq)
     \<and> dom (chosen st) \<subseteq> dom (map_of (ss_constraints st))
     \<and> (\<forall>p sel. chosen st p = Some sel \<longrightarrow> selection_ok rq s p sel)
     \<and> (\<forall>t. map_of (ss_constraints st) t \<noteq> Some [])
     \<and> (\<forall>t cs c. map_of (ss_constraints st) t = Some cs \<longrightarrow> c \<in> set cs \<longrightarrow>
          registry_of c t \<in> set (wanted rq (chosen st) (cn_from c)))
     \<and> (\<forall>pp \<in> set (ss_paths st). path_of pp \<in> set (wanted rq (chosen st) (pp_from pp)))
     \<and> acyclic (dep_graph st)"

definition covered :: "resolve_request \<Rightarrow> solver_state \<Rightarrow> bool" where
  "covered rq st \<longleftrightarrow> (\<forall>from. \<forall>d \<in> set (wanted rq (chosen st) from). covers st from d)"

definition state_inv :: "resolve_request \<Rightarrow> 's solver \<Rightarrow> solver_state \<Rightarrow> bool" where
  "state_inv rq s st \<longleftrightarrow> state_core rq s st \<and> covered rq st"

definition solved :: "solver_state \<Rightarrow> bool" where
  "solved st \<longleftrightarrow> selected_conflict st = None \<and> next_unselected st = None"

text \<open>What the search learns when it gives up on a state or on a candidate.\<close>

definition refuted :: "'s resolver_source \<Rightarrow> resolve_request \<Rightarrow> solver_state \<Rightarrow> bool" where
  "refuted src rq st \<longleftrightarrow>
     (consistent_source src \<longrightarrow> (\<forall>\<sigma>. valid_assignment src rq \<sigma> \<longrightarrow> \<not> chosen st \<subseteq>\<^sub>m \<sigma>))"

definition ruled_out ::
  "'s resolver_source \<Rightarrow> resolve_request \<Rightarrow> solver_state \<Rightarrow> package_key \<Rightarrow> catalog_candidate \<Rightarrow> bool" where
  "ruled_out src rq st p cand \<longleftrightarrow>
     (consistent_source src \<longrightarrow> (\<forall>\<sigma> sel. valid_assignment src rq \<sigma> \<longrightarrow> chosen st \<subseteq>\<^sub>m \<sigma> \<longrightarrow>
        \<sigma> p = Some sel \<longrightarrow> sel_candidate sel \<noteq> cand))"

lemma selection_ok_grows: "selection_ok rq s p sel \<Longrightarrow> grows s s' \<Longrightarrow> selection_ok rq s' p sel"
  unfolding selection_ok_def grows_def map_le_def by (metis domI)

lemma state_core_grows: "state_core rq s st \<Longrightarrow> grows s s' \<Longrightarrow> state_core rq s' st"
  unfolding state_core_def using selection_ok_grows by blast

lemma state_inv_grows: "state_inv rq s st \<Longrightarrow> grows s s' \<Longrightarrow> state_inv rq s' st"
  unfolding state_inv_def using state_core_grows by blast

text \<open>Dependency edges of the state are dependencies of the chosen releases.\<close>

lemma dep_graph_wanted:
  assumes "state_core rq s st"
  shows "dep_graph st \<subseteq> assignment_graph rq (chosen st)"
proof
  fix x assume "x \<in> dep_graph st"
  then obtain q t cs c where x: "x = (q, t)" and cs: "map_of (ss_constraints st) t = Some cs"
      "c \<in> set cs" "cn_from c = Some q"
    by (auto simp: dep_graph_def depends_on_def)
  then have "registry_of c t \<in> set (wanted rq (chosen st) (Some q))"
    using assms unfolding state_core_def by metis
  then show "x \<in> assignment_graph rq (chosen st)"
    unfolding assignment_graph_def x registry_of_def by force
qed

lemma wanted_mono:
  "\<sigma> \<subseteq>\<^sub>m \<sigma>' \<Longrightarrow> set (wanted rq \<sigma> from) \<subseteq> set (wanted rq \<sigma>' from)"
  by (auto simp: wanted_def map_le_def dom_def split: option.splits) (metis option.sel option.distinct(1))

lemma assignment_graph_mono: "\<sigma> \<subseteq>\<^sub>m \<sigma>' \<Longrightarrow> assignment_graph rq \<sigma> \<subseteq> assignment_graph rq \<sigma>'"
  unfolding assignment_graph_def using wanted_mono by blast

lemma set_requirements_for:
  "set (requirements_for p st)
     = cn_requirement ` set (case map_of (ss_constraints st) p of None \<Rightarrow> [] | Some cs \<Rightarrow> cs)"
  by (simp add: requirements_for_def)

text \<open>A catalog that passed validation has one row per version.\<close>

lemma valid_candidates_distinct:
  "valid_candidates cs vs \<Longrightarrow> distinct (map cand_version cs) \<and> cand_version ` set cs \<inter> set vs = {}"
  by (induction cs vs rule: valid_candidates.induct) (auto split: if_splits)

lemma valid_catalog_unique:
  "valid_catalog p cat \<Longrightarrow> a \<in> set (cat_candidates cat) \<Longrightarrow> b \<in> set (cat_candidates cat) \<Longrightarrow>
    cand_version a = cand_version b \<Longrightarrow> a = b"
  using valid_candidates_distinct [of "cat_candidates cat" "[]"]
  by (auto simp: valid_catalog_def distinct_map inj_on_def)

lemma selection_ok_offered:
  assumes "selection_ok rq s p sel" "solver_inv rq s" "caches_answer src s"
  shows "offered src p sel"
proof -
  obtain cat where cat: "map_of (sv_catalogs s) p = Some cat" "sel_candidate sel \<in> set (cat_candidates cat)"
    using assms(1) by (auto simp: selection_ok_def)
  obtain cand where cand: "cand \<in> set (cat_candidates cat)"
      "cand_version cand = cand_version (sel_candidate sel)" "answers_candidate src cat cand (sel_verified sel)"
    using assms(1,3) cat(1) unfolding selection_ok_def caches_answer_def
    by (metis option.inject)
  have "valid_catalog p cat" using assms(2) cat(1) by (simp add: solver_inv_def)
  moreover from this have "cand = sel_candidate sel"
    using valid_catalog_unique cand cat(2) by blast
  ultimately show ?thesis
    using assms(3) cat cand unfolding offered_def caches_answer_def by blast
qed

end
