(* ===== verification/Resolver_Search.thy ===== *)
theory Resolver_Search
  imports Resolver_Correct
begin

text \<open>
  The search keeps the state invariant, terminates within its depth bound, and gives up on a
  state only when no valid assignment extends it.
\<close>

section \<open>Adding dependencies\<close>

lemma registry_dependency_eta [simp]:
  "\<lparr>rd_alias = rd_alias r, rd_package = rd_package r, rd_requirement = rd_requirement r\<rparr> = r"
  by (cases r) simp

lemma path_dependency_eta [simp]:
  "\<lparr>pd_alias = pd_alias d, pd_path = pd_path d, pd_version = pd_version d\<rparr> = d"
  by (cases d) simp

definition covers_le :: "solver_state \<Rightarrow> solver_state \<Rightarrow> bool" where
  "covers_le st st' \<longleftrightarrow>
     ss_selected st' = ss_selected st \<and> (\<forall>from d. covers st from d \<longrightarrow> covers st' from d)"

lemma covers_le_refl [simp]: "covers_le st st"
  by (simp add: covers_le_def)

lemma covers_le_trans: "covers_le a b \<Longrightarrow> covers_le b c \<Longrightarrow> covers_le a c"
  by (simp add: covers_le_def)

abbreviation push_constraint :: "package_key option \<Rightarrow> registry_dependency \<Rightarrow> solver_state \<Rightarrow> solver_state" where
  "push_constraint from r st \<equiv>
     st\<lparr>ss_constraints := bt_entry (rd_package r) [] (\<lambda>cs. cs @
         [\<lparr>cn_from = from, cn_alias = rd_alias r, cn_requirement = rd_requirement r\<rparr>]) (ss_constraints st)\<rparr>"

abbreviation push_path :: "package_key option \<Rightarrow> path_dependency \<Rightarrow> solver_state \<Rightarrow> solver_state" where
  "push_path from d st \<equiv>
     st\<lparr>ss_paths := bset_insert
         (PreservedPathDependency from (pd_alias d) (pd_path d) (pd_version d)) (ss_paths st)\<rparr>"

lemma constraints_push:
  assumes "bt_wf (ss_constraints st)"
  shows "map_of (ss_constraints (push_constraint from r st)) t = Some cs \<and> c \<in> set cs \<longleftrightarrow>
    map_of (ss_constraints (push_constraint from r st)) t = Some cs
    \<and> ((\<exists>cs0. map_of (ss_constraints st) t = Some cs0 \<and> c \<in> set cs0)
      \<or> t = rd_package r \<and> c = \<lparr>cn_from = from, cn_alias = rd_alias r, cn_requirement = rd_requirement r\<rparr>)"
  using assms by (auto simp: bt_entry_get split: option.splits)

lemma dep_graph_push:
  assumes "bt_wf (ss_constraints st)"
  shows "dep_graph (push_constraint from r st)
    = {(q, rd_package r) | q. from = Some q} \<union> dep_graph st"
  using assms by (cases "map_of (ss_constraints st) (rd_package r)")
    (auto simp: dep_graph_def depends_on_def bt_entry_get split: if_splits)

lemma covers_le_push_constraint:
  assumes "bt_wf (ss_constraints st)"
  shows "covers_le st (push_constraint from r st)"
proof -
  have "covers (push_constraint from r st) f d" if "covers st f d" for f d
    using that assms by (cases d) (auto simp: bt_entry_get)
  then show ?thesis by (simp add: covers_le_def)
qed

lemma covers_le_push_path: "covers_le st (push_path from d st)"
proof -
  have "covers (push_path from d st) f e" if "covers st f e" for f e
    using that by (cases e) auto
  then show ?thesis by (simp add: covers_le_def)
qed

lemma length_bt_insert:
  "bt_wf m \<Longrightarrow> length (bt_insert k v m) = (if map_of m k = None then Suc (length m) else length m)"
  using bt.length_keys_insert [of m k v] by (auto simp: al_keys_def map_of_eq_None_iff)

lemma state_core_push_constraint:
  assumes core: "state_core rq s st" and want: "Registry r \<in> set (wanted rq (chosen st) from)"
    and room: "map_of (ss_constraints st) (rd_package r) = None \<Longrightarrow>
      length (ss_constraints st) < max_packages (rq_limits rq)"
    and open_path: "\<And>q. from = Some q \<Longrightarrow> (rd_package r, q) \<notin> (dep_graph st)\<^sup>*"
  shows "state_core rq s (push_constraint from r st)"
proof -
  let ?st = "push_constraint from r st"
  have wf: "bt_wf (ss_constraints st)" using core by (simp add: state_core_def)
  have "registry_of c t \<in> set (wanted rq (chosen ?st) (cn_from c))"
    if "map_of (ss_constraints ?st) t = Some cs" "c \<in> set cs" for t cs c
  proof -
    have "(\<exists>cs0. map_of (ss_constraints st) t = Some cs0 \<and> c \<in> set cs0)
        \<or> t = rd_package r \<and> c = \<lparr>cn_from = from, cn_alias = rd_alias r, cn_requirement = rd_requirement r\<rparr>"
      using constraints_push [OF wf] that by blast
    then show ?thesis
      using core want by (auto simp: state_core_def registry_of_def)
  qed
  moreover have "acyclic (dep_graph ?st)"
    using core open_path wf by (cases "from") (auto simp: dep_graph_push state_core_def acyclic_insert)
  moreover have "length (ss_constraints ?st) \<le> max_packages (rq_limits rq)"
    using core room wf by (auto simp: bt_entry_def length_bt_insert state_core_def)
  moreover have "map_of (ss_constraints ?st) t \<noteq> Some []" for t
    using core by (simp add: state_core_def bt_entry_get)
  moreover have "bt_wf (ss_constraints ?st)" "dom (chosen ?st) \<subseteq> dom (map_of (ss_constraints ?st))"
    using core by (auto simp: state_core_def bt_entry_wf bt_entry_get)
  ultimately show ?thesis
    using core unfolding state_core_def by simp
qed

lemma state_core_push_path:
  assumes core: "state_core rq s st" and want: "Path d \<in> set (wanted rq (chosen st) from)"
  shows "state_core rq s (push_path from d st)"
proof -
  have "dep_graph (push_path from d st) = dep_graph st" by (simp add: dep_graph_def)
  then show ?thesis
    using assms by (auto simp: state_core_def sorted_bset_insert)
qed

lemma state_core_same:
  fixes s s' :: "'s solver"
  shows "state_core rq s st \<Longrightarrow> sv_catalogs s' = sv_catalogs s \<Longrightarrow> sv_verified s' = sv_verified s \<Longrightarrow>
    state_core rq s' st"
  by (erule state_core_grows) (rule grows_same)

lemma wp_add_dependency:
  assumes inv: "solver_inv rq s" and core: "state_core rq s st"
    and want: "d \<in> set (wanted rq (chosen st) from)"
    and open_path: "\<And>q r. from = Some q \<Longrightarrow> d = Registry r \<Longrightarrow> (rd_package r, q) \<notin> (dep_graph st)\<^sup>*"
    and post: "\<And>st' s'. solver_inv rq s' \<Longrightarrow> sv_catalogs s' = sv_catalogs s \<Longrightarrow>
      sv_verified s' = sv_verified s \<Longrightarrow> state_core rq s' st' \<Longrightarrow> covers_le st st' \<Longrightarrow>
      covers st' from d \<Longrightarrow> Q st' s'"
  shows "wp (add_dependency st from d) Q (err_post rq) s"
proof (cases d)
  case (Path pd)
  have *: "wp (sbind (push_trace ev) (\<lambda>_. sret (push_path from pd st))) Q (err_post rq) s" for ev
    unfolding wp_simps
    by (rule wp_push_trace [OF inv])
      (use core want Path in \<open>auto simp: wp_simps covers_le_push_path
        intro!: post state_core_push_path elim: state_core_same\<close>)
  show ?thesis
    using inv * unfolding Path add_dependency.simps Let_def wp_if
    by (auto simp: wp_simps err_post_def)
next
  case (Registry r)
  have rq: "sv_request s = rq" using inv by (simp add: solver_inv_def)
  have wf: "bt_wf (ss_constraints st)" using core by (simp add: state_core_def)
  have *: "wp (sbind (push_trace ev) (\<lambda>_. sret (push_constraint from r st))) Q (err_post rq) s"
    if "map_of (ss_constraints st) (rd_package r) = None \<longrightarrow>
      length (ss_constraints st) < max_packages (rq_limits rq)" for ev
    unfolding wp_simps
  proof (rule wp_push_trace [OF inv])
    fix s' :: "'a solver"
    assume s': "solver_inv rq s'" "sv_catalogs s' = sv_catalogs s" "sv_verified s' = sv_verified s"
    have "state_core rq s' (push_constraint from r st)"
      by (rule state_core_push_constraint)
        (use state_core_same [OF core s'(2,3)] want Registry that open_path in auto)
    moreover have "covers (push_constraint from r st) from d"
      using wf by (simp add: Registry bt_entry_get)
    ultimately show "Q (push_constraint from r st) s'"
      using post s' covers_le_push_constraint [OF wf] by blast
  qed
  have step: "wp (add_dependency st from (Registry r)) Q (err_post rq) s \<longleftrightarrow>
    (if rd_alias r = [] \<or> pk_registry (rd_package r) = [] \<or> pk_source (rd_package r) = []
        \<or> pk_namespace (rd_package r) = [] \<or> pk_name (rd_package r) = []
        \<or> (map_of (ss_constraints st) (rd_package r) = None
          \<and> length (ss_constraints st) \<ge> max_packages (rq_limits rq)) then True
     else wp (sbind (push_trace (ConstraintAdded from (rd_package r) (rd_requirement r)))
       (\<lambda>_. sret (push_constraint from r st))) Q (err_post rq) s)"
    using inv rq by (simp add: wp_def sfail_def err_post_def budget_error_def Let_def)
  show ?thesis unfolding Registry step using * by (auto simp: not_le)
qed

lemma covers_leD: "covers_le st st' \<Longrightarrow> covers st from d \<Longrightarrow> covers st' from d"
  and covers_le_selected: "covers_le st st' \<Longrightarrow> ss_selected st' = ss_selected st"
  by (auto simp: covers_le_def)

lemma wp_add_dependencies:
  assumes "solver_inv rq s" "state_core rq s st" "set ds \<subseteq> set (wanted rq (chosen st) None)"
    and "\<And>st' s'. solver_inv rq s' \<Longrightarrow> sv_catalogs s' = sv_catalogs s \<Longrightarrow>
      sv_verified s' = sv_verified s \<Longrightarrow> state_core rq s' st' \<Longrightarrow> covers_le st st' \<Longrightarrow>
      (\<forall>d \<in> set ds. covers st' None d) \<Longrightarrow> Q st' s'"
  shows "wp (add_dependencies st None ds) Q (err_post rq) s"
  using assms
proof (induction ds arbitrary: st s)
  case Nil
  then show ?case by (simp add: wp_simps)
next
  case (Cons d ds)
  show ?case
    unfolding add_dependencies.simps wp_sbind
  proof (rule wp_add_dependency [OF Cons.prems(1,2)], goal_cases)
    case (3 st' s')
    note step = this
    show ?case
    proof (rule Cons.IH [OF step(1,4)], goal_cases)
      case 1
      then show ?case using Cons.prems(3) step(5) by (simp add: covers_le_selected)
    next
      case (2 s'' st'')
      have "covers st'' None d" by (rule covers_leD [OF 2(5) step(6)])
      then show ?case
        using 2 step by (intro Cons.prems(4) covers_le_trans [OF step(5)]) simp_all
    qed
  qed (use Cons.prems(3) in auto)
qed

lemma wp_add_candidate_dependencies:
  assumes "solver_inv rq s" "state_core rq s nxt" "set ds \<subseteq> set (wanted rq (chosen nxt) (Some p))"
    and "\<And>nxt' s'. solver_inv rq s' \<Longrightarrow> sv_catalogs s' = sv_catalogs s \<Longrightarrow>
      sv_verified s' = sv_verified s \<Longrightarrow> state_core rq s' nxt' \<Longrightarrow> covers_le nxt nxt' \<Longrightarrow>
      (\<forall>d \<in> set ds. covers nxt' (Some p) d) \<Longrightarrow> Q (nxt', None) s'"
    and "\<And>nxt' s' r. solver_inv rq s' \<Longrightarrow> sv_catalogs s' = sv_catalogs s \<Longrightarrow>
      sv_verified s' = sv_verified s \<Longrightarrow> state_core rq s' nxt' \<Longrightarrow> covers_le nxt nxt' \<Longrightarrow>
      Registry r \<in> set ds \<Longrightarrow> (rd_package r, p) \<in> (dep_graph nxt')\<^sup>* \<Longrightarrow> Q (nxt', Some (rd_package r)) s'"
  shows "wp (add_candidate_dependencies p nxt ds) Q (err_post rq) s"
  using assms
proof (induction ds arbitrary: nxt s)
  case Nil
  then show ?case by (simp add: wp_simps)
next
  case (Cons d ds)
  have wf: "bt_wf (ss_constraints nxt)" using Cons.prems(2) by (simp add: state_core_def)
  have rest: "wp (sbind (add_dependency nxt (Some p) d) (\<lambda>nxt'. add_candidate_dependencies p nxt' ds))
      Q (err_post rq) s"
    if "\<And>r. d = Registry r \<Longrightarrow> (rd_package r, p) \<notin> (dep_graph nxt)\<^sup>*"
    unfolding wp_sbind
  proof (rule wp_add_dependency [OF Cons.prems(1,2)], goal_cases)
    case (3 nxt' s')
    note step = this
    show ?case
    proof (rule Cons.IH [OF step(1,4)], goal_cases)
      case 1
      then show ?case using Cons.prems(3) step(5) by (simp add: covers_le_selected)
    next
      case (2 s'' st'')
      have "covers st'' (Some p) d" by (rule covers_leD [OF 2(5) step(6)])
      then show ?case
        using 2 step by (intro Cons.prems(4) covers_le_trans [OF step(5)]) simp_all
    next
      case (3 st'' s'' r)
      then show ?case
        using step by (intro Cons.prems(5) covers_le_trans [OF step(5)]) simp_all
    qed
  qed (use Cons.prems(3) that in auto)
  show ?case
  proof (cases "\<exists>r. d = Registry r \<and> dependency_path_exists nxt (rd_package r) p")
    case True
    then obtain r where r: "d = Registry r" "dependency_path_exists nxt (rd_package r) p" by blast
    then have "Q (nxt, Some (rd_package r)) s"
      using Cons.prems(1,2) by (intro Cons.prems(5)) (simp_all add: dependency_path_exists_iff [OF wf])
    with r show ?thesis by (simp add: wp_simps)
  next
    case False
    with rest show ?thesis
      by (auto simp: dependency_path_exists_iff [OF wf] split: dependency.splits)
  qed
qed

section \<open>Selecting a candidate\<close>

abbreviation select :: "package_key \<Rightarrow> selection \<Rightarrow> solver_state \<Rightarrow> solver_state" where
  "select p sel st \<equiv> st\<lparr>ss_selected := bt_insert p sel (ss_selected st)\<rparr>"

lemma state_core_select:
  assumes core: "state_core rq s st" and fresh: "chosen st p = None"
    and known: "p \<in> dom (map_of (ss_constraints st))" and ok: "selection_ok rq s p sel"
  shows "state_core rq s (select p sel st)"
    and "chosen (select p sel st) = (chosen st)(p \<mapsto> sel)"
    and "chosen st \<subseteq>\<^sub>m chosen (select p sel st)"
proof -
  have wf: "bt_wf (ss_selected st)" using core by (simp add: state_core_def)
  show ch: "chosen (select p sel st) = (chosen st)(p \<mapsto> sel)"
    using wf by (simp add: bt.get_insert)
  then show le: "chosen st \<subseteq>\<^sub>m chosen (select p sel st)"
    using fresh by (auto simp: map_le_def)
  have "dep_graph (select p sel st) = dep_graph st" by (simp add: dep_graph_def)
  moreover have "set (wanted rq (chosen st) f) \<subseteq> set (wanted rq (chosen (select p sel st)) f)" for f
    using wanted_mono [OF le] .
  ultimately show "state_core rq s (select p sel st)"
    using core known ok wf unfolding state_core_def ch
    by (auto simp: bt.wf_insert subset_iff)
qed

lemma covered_select:
  assumes inv: "state_inv rq s st" and fresh: "chosen st p = None"
    and core: "state_core rq s' nxt" and le: "covers_le (select p sel st) nxt"
    and deps: "\<forall>d \<in> set (vc_dependencies (sel_verified sel)). covers nxt (Some p) d"
  shows "covered rq nxt"
  unfolding covered_def
proof (intro allI ballI)
  fix f d assume d: "d \<in> set (wanted rq (chosen nxt) f)"
  have ch: "chosen nxt = (chosen st)(p \<mapsto> sel)"
    using inv le by (simp add: covers_le_selected bt.get_insert state_inv_def state_core_def)
  show "covers nxt f d"
  proof (cases "f = Some p")
    case True
    with d ch deps show ?thesis by (simp add: wanted_def)
  next
    case False
    with d ch have "d \<in> set (wanted rq (chosen st) f)"
      by (auto simp: wanted_def split: option.splits)
    then have "covers st f d" using inv by (simp add: state_inv_def covered_def)
    then have "covers (select p sel st) f d" by (cases d) simp_all
    then show ?thesis by (rule covers_leD [OF le])
  qed
qed

text \<open>A consistent source gives every valid assignment the manifest the solver has cached.\<close>

lemma verified_agrees:
  assumes con: "consistent_source src" and ca: "caches_answer src s" and inv: "solver_inv rq s"
    and cat: "map_of (sv_catalogs s) p = Some cat" and cand: "sel_candidate sel \<in> set (cat_candidates cat)"
    and ver: "map_of (sv_verified s) (p, cand_version (sel_candidate sel), cand_release_id (sel_candidate sel))
      = Some (Inr vc)"
    and off: "offered src p sel"
  shows "sel_verified sel = vc"
proof -
  obtain cat' where cat': "answers_catalog src p cat'"
      "answers_candidate src cat' (sel_candidate sel) (sel_verified sel)"
    using off by (auto simp: offered_def)
  have "cat' = cat" using con ca cat cat'(1) unfolding consistent_source_def caches_answer_def by blast
  moreover obtain c where c: "c \<in> set (cat_candidates cat)"
      "cand_version c = cand_version (sel_candidate sel)" "answers_candidate src cat c vc"
    using ca ver cat unfolding caches_answer_def by (metis option.inject)
  moreover have "c = sel_candidate sel"
    using inv cat c cand by (intro valid_catalog_unique [of p cat]) (auto simp: solver_inv_def)
  ultimately show ?thesis
    using con cat'(2) unfolding consistent_source_def by blast
qed

lemma screen_ruled_out:
  assumes core: "state_core rq s st"
    and screen: "screen_candidate rq p (requirements_for p st) cand = Some reason"
  shows "ruled_out src rq st p cand"
  unfolding ruled_out_def
proof (intro impI allI)
  fix \<sigma> sel assume valid: "valid_assignment src rq \<sigma>" and le: "chosen st \<subseteq>\<^sub>m \<sigma>" and p: "\<sigma> p = Some sel"
  show "sel_candidate sel \<noteq> cand"
  proof
    assume cand: "sel_candidate sel = cand"
    have "matches r (cand_version cand)" if r: "r \<in> set (requirements_for p st)" for r
    proof -
      obtain cs c where c: "map_of (ss_constraints st) p = Some cs" "c \<in> set cs" "cn_requirement c = r"
        using r by (cases "map_of (ss_constraints st) p") (auto simp: set_requirements_for)
      then have "registry_of c p \<in> set (wanted rq (chosen st) (cn_from c))"
        using core by (simp add: state_core_def)
      then have "registry_of c p \<in> set (wanted rq \<sigma> (cn_from c))"
        using wanted_mono [OF le] by blast
      with valid c p cand show ?thesis
        by (fastforce simp: valid_assignment_def registry_of_def satisfies_def)
    qed
    moreover have "allowed rq p cand" using valid p cand by (auto simp: valid_assignment_def)
    ultimately show False
      using screen by (auto simp: screen_candidate_def allowed_def list_all_iff split: option.splits if_splits)
  qed
qed

lemma screen_allowed: "screen_candidate rq p rs cand = None \<Longrightarrow> allowed rq p cand"
  by (auto simp: screen_candidate_def allowed_def split: option.splits if_splits)

text \<open>The cached facts about the candidate under consideration.\<close>

definition candidate_known ::
  "'s solver \<Rightarrow> package_key \<Rightarrow> catalog_candidate \<Rightarrow> verified_candidate \<Rightarrow> bool" where
  "candidate_known s p cand vc \<longleftrightarrow>
     (\<exists>cat. map_of (sv_catalogs s) p = Some cat \<and> cand \<in> set (cat_candidates cat))
     \<and> map_of (sv_verified s) (p, cand_version cand, cand_release_id cand) = Some (Inr vc)"

lemma candidate_known_agrees:
  assumes "candidate_known s p cand vc" "caches_answer src s" "solver_inv rq s" "consistent_source src"
    "valid_assignment src rq \<sigma>" "\<sigma> p = Some sel" "sel_candidate sel = cand"
  shows "sel = \<lparr>sel_candidate = cand, sel_verified = vc\<rparr>" and "same_identity p sel"
proof -
  have "offered src p sel" "same_identity p sel" using assms(5,6) by (auto simp: valid_assignment_def)
  moreover from this(1) have "sel_verified sel = vc"
    using assms by (auto simp: candidate_known_def intro: verified_agrees)
  ultimately show "sel = \<lparr>sel_candidate = cand, sel_verified = vc\<rparr>" "same_identity p sel"
    using assms(7) by simp_all
qed

lemma identity_ruled_out:
  assumes "candidate_known s p cand vc" "caches_answer src s" "solver_inv rq s"
    and "\<not> same_identity p \<lparr>sel_candidate = cand, sel_verified = vc\<rparr>"
  shows "ruled_out src rq st p cand"
  unfolding ruled_out_def using assms candidate_known_agrees by metis

lemma refuted_ruled_out:
  assumes "candidate_known s p cand vc" "caches_answer src s" "solver_inv rq s"
    and "refuted src rq nxt"
    and "chosen nxt = (chosen st)(p \<mapsto> \<lparr>sel_candidate = cand, sel_verified = vc\<rparr>)"
  shows "ruled_out src rq st p cand"
  unfolding ruled_out_def
proof (intro impI allI notI)
  fix \<sigma> sel assume *: "consistent_source src" "valid_assignment src rq \<sigma>" "chosen st \<subseteq>\<^sub>m \<sigma>" "\<sigma> p = Some sel"
    "sel_candidate sel = cand"
  then have "sel = \<lparr>sel_candidate = cand, sel_verified = vc\<rparr>"
    using candidate_known_agrees assms(1-3) by blast
  with * assms(5) have "chosen nxt \<subseteq>\<^sub>m \<sigma>" by (auto simp: map_le_def)
  with * assms(4) show False by (auto simp: refuted_def)
qed

lemma cycle_refuted:
  assumes core: "state_core rq s nxt" and sel: "chosen nxt p = Some sel"
    and dep: "Registry r \<in> set (vc_dependencies (sel_verified sel))"
    and path: "(rd_package r, p) \<in> (dep_graph nxt)\<^sup>*"
  shows "refuted src rq nxt"
  unfolding refuted_def
proof (intro impI allI notI)
  fix \<sigma> assume valid: "valid_assignment src rq \<sigma>" and le: "chosen nxt \<subseteq>\<^sub>m \<sigma>"
  have "(rd_package r, p) \<in> (assignment_graph rq \<sigma>)\<^sup>*"
    using path dep_graph_wanted [OF core] assignment_graph_mono [OF le] rtrancl_mono by blast
  moreover have "\<sigma> p = Some sel" using le sel by (metis domI map_le_def)
  then have "(p, rd_package r) \<in> assignment_graph rq \<sigma>"
    using dep by (auto simp: assignment_graph_def wanted_def)
  ultimately show False
    using valid by (auto simp: valid_assignment_def acyclic_def dest: rtrancl_into_trancl2)
qed

section \<open>The search\<close>

text \<open>\<open>live\<close>: the solver is sound and its caches extend those of an earlier moment.\<close>

definition live :: "'s resolver_source \<Rightarrow> resolve_request \<Rightarrow> 's solver \<Rightarrow> 's solver \<Rightarrow> bool" where
  "live src rq s0 s \<longleftrightarrow> solver_inv rq s \<and> caches_answer src s \<and> grows s0 s"

lemma live_same:
  "live src rq s0 s \<Longrightarrow> solver_inv rq s' \<Longrightarrow> sv_catalogs s' = sv_catalogs s \<Longrightarrow>
    sv_verified s' = sv_verified s \<Longrightarrow> live src rq s0 s'"
  using caches_answer_same grows_same grows_trans unfolding live_def by metis

lemma live_trans: "live src rq s0 s \<Longrightarrow> live src rq s s' \<Longrightarrow> live src rq s0 s'"
  unfolding live_def using grows_trans by blast

lemma live_solver_inv: "live src rq s0 s \<Longrightarrow> solver_inv rq s"
  by (simp add: live_def)

definition search_post ::
  "'s resolver_source \<Rightarrow> resolve_request \<Rightarrow> 's solver \<Rightarrow> solver_state \<Rightarrow> solver_state option \<Rightarrow> 's solver \<Rightarrow> bool"
where
  "search_post src rq s0 st r s \<longleftrightarrow> live src rq s0 s
     \<and> (case r of Some sol \<Rightarrow> state_inv rq s sol \<and> solved sol | None \<Rightarrow> refuted src rq st)"

definition step_post ::
  "'s resolver_source \<Rightarrow> resolve_request \<Rightarrow> 's solver \<Rightarrow> solver_state \<Rightarrow> package_key \<Rightarrow> catalog_candidate \<Rightarrow>
    step \<Rightarrow> 's solver \<Rightarrow> bool"
where
  "step_post src rq s0 st p cand r s \<longleftrightarrow> live src rq s0 s
     \<and> (case r of Solved sol \<Rightarrow> state_inv rq s sol \<and> solved sol | Next _ \<Rightarrow> ruled_out src rq st p cand)"

lemma state_inv_same:
  fixes s s' :: "'s solver"
  shows "state_inv rq s st \<Longrightarrow> sv_catalogs s' = sv_catalogs s \<Longrightarrow> sv_verified s' = sv_verified s \<Longrightarrow>
    state_inv rq s' st"
  by (erule state_inv_grows) (rule grows_same)

lemma wp_give_up:
  assumes "live src rq s0 s" "ruled_out src rq st p cand"
  shows "wp (give_up src p cand reason) (step_post src rq s0 st p cand) (err_post rq) s"
  unfolding give_up_def wp_simps
  using assms
  by (intro wp_reject wp_discard wp_backtrack)
    (auto simp: step_post_def live_solver_inv intro: live_same)

text \<open>What the loop over the candidates knows of the state it works on.\<close>

definition choosing ::
  "'s resolver_source \<Rightarrow> resolve_request \<Rightarrow> solver_state \<Rightarrow> package_key \<Rightarrow> 's solver \<Rightarrow> bool" where
  "choosing src rq st p s \<longleftrightarrow>
     state_inv rq s st \<and> chosen st p = None \<and> p \<in> dom (map_of (ss_constraints st))"

definition solves_deeper ::
  "'s resolver_source \<Rightarrow> resolve_request \<Rightarrow> solver_state \<Rightarrow>
    (solver_state \<Rightarrow> ('s, solver_state option) solver_m) \<Rightarrow> bool"
where
  "solves_deeper src rq st recurse \<longleftrightarrow>
     (\<forall>nxt s. live src rq s s \<longrightarrow> state_inv rq s nxt \<longrightarrow>
        length (ss_selected nxt) = Suc (length (ss_selected st)) \<longrightarrow>
        wp (recurse nxt) (search_post src rq s nxt) (err_post rq) s)"

lemma wp_recurse:
  assumes rec: "solves_deeper src rq st recurse" and live: "live src rq s0 s" and inv: "state_inv rq s nxt"
    and len: "length (ss_selected nxt) = Suc (length (ss_selected st))"
    and known: "candidate_known s p cand vc"
    and ch: "chosen nxt = (chosen st)(p \<mapsto> \<lparr>sel_candidate = cand, sel_verified = vc\<rparr>)"
  shows "wp (sbind (recurse nxt) (\<lambda>solution.
      case solution of
        Some sol \<Rightarrow> sbind (push_trace (Selected p (cand_version cand))) (\<lambda>_. sret (Solved sol))
      | None \<Rightarrow> give_up src p cand DownstreamConflict)) (step_post src rq s0 st p cand) (err_post rq) s"
  unfolding wp_sbind
proof (rule wp_conseq)
  show "wp (recurse nxt) (search_post src rq s nxt) (err_post rq) s"
    using rec live inv len by (auto simp: solves_deeper_def live_def)
next
  fix r s' assume post: "search_post src rq s nxt r s'"
  then have live': "live src rq s0 s'" using live live_trans by (auto simp: search_post_def)
  show "wp (case r of
        Some sol \<Rightarrow> sbind (push_trace (Selected p (cand_version cand))) (\<lambda>_. sret (Solved sol))
      | None \<Rightarrow> give_up src p cand DownstreamConflict) (step_post src rq s0 st p cand) (err_post rq) s'"
  proof (cases r)
    case None
    have "ruled_out src rq st p cand"
      using refuted_ruled_out [OF known _ _ _ ch] live post None
      by (auto simp: search_post_def live_def)
    with None live' show ?thesis by (simp add: wp_give_up)
  next
    case (Some sol)
    with post have "state_inv rq s' sol" "solved sol" by (simp_all add: search_post_def)
    then show ?thesis
      unfolding Some option.case wp_simps
      by (intro wp_push_trace)
        (auto simp: step_post_def live' live_solver_inv [OF live']
          intro: live_same [OF live'] elim: state_inv_same)
  qed
qed

text \<open>What follows the loop over the candidate's dependencies, with the loop's result.\<close>

definition dependencies_added ::
  "package_key \<Rightarrow> verified_candidate \<Rightarrow> solver_state \<times> package_key option \<Rightarrow> bool" where
  "dependencies_added p vc x \<longleftrightarrow>
     (case snd x of
        None \<Rightarrow> \<forall>d \<in> set (vc_dependencies vc). covers (fst x) (Some p) d
      | Some through \<Rightarrow> \<exists>r. through = rd_package r \<and> Registry r \<in> set (vc_dependencies vc)
          \<and> (through, p) \<in> (dep_graph (fst x))\<^sup>*)"

lemma wp_dependencies_added:
  fixes s s2 :: "'s solver" and src :: "'s resolver_source"
  assumes rec: "solves_deeper src rq st recurse" and st: "state_inv rq s st" and fresh: "chosen st p = None"
    and live: "live src rq s0 s2" and known: "candidate_known s2 p cand vc" and core: "state_core rq s2 nxt"
    and le: "covers_le (select p \<lparr>sel_candidate = cand, sel_verified = vc\<rparr> st) nxt"
    and added: "dependencies_added p vc (nxt, cycle)"
  shows "wp (case cycle of
          Some through \<Rightarrow> give_up src p cand (Cycle through)
        | None \<Rightarrow> sbind (recurse nxt) (\<lambda>solution. case solution of
              Some sol \<Rightarrow> sbind (push_trace (Selected p (cand_version cand))) (\<lambda>_. sret (Solved sol))
            | None \<Rightarrow> give_up src p cand DownstreamConflict))
        (step_post src rq s0 st p cand) (err_post rq) s2"
proof -
  have wf: "bt_wf (ss_selected st)" using st by (simp add: state_inv_def state_core_def)
  have ch: "chosen nxt = (chosen st)(p \<mapsto> \<lparr>sel_candidate = cand, sel_verified = vc\<rparr>)"
    and len: "length (ss_selected nxt) = Suc (length (ss_selected st))"
    using covers_le_selected [OF le] wf fresh by (simp_all add: bt.get_insert length_bt_insert)
  show ?thesis
  proof (cases cycle)
    case None
    with added have "state_inv rq s2 nxt"
      using covered_select [OF st fresh core le] core by (simp add: state_inv_def dependencies_added_def)
    then show ?thesis
      using wp_recurse [OF rec live _ len known ch] None by simp
  next
    case (Some through)
    with added obtain r where "through = rd_package r" "Registry r \<in> set (vc_dependencies vc)"
        "(rd_package r, p) \<in> (dep_graph nxt)\<^sup>*"
      by (auto simp: dependencies_added_def)
    then have "refuted src rq nxt"
      by (intro cycle_refuted [OF core, of p "\<lparr>sel_candidate = cand, sel_verified = vc\<rparr>"]) (simp_all add: ch)
    then have "ruled_out src rq st p cand"
      using refuted_ruled_out [OF known _ _ _ ch] live by (simp add: live_def)
    with Some live show ?thesis by (simp add: wp_give_up)
  qed
qed

lemma set_sort_dependencies [simp]: "set (sort_dependencies ds) = set ds"
  by (simp add: sort_dependencies_def)

lemma candidate_known_same:
  "candidate_known s p cand vc \<Longrightarrow> sv_catalogs s' = sv_catalogs s \<Longrightarrow> sv_verified s' = sv_verified s \<Longrightarrow>
    candidate_known s' p cand vc"
  by (simp add: candidate_known_def)

lemma wp_explore_candidate:
  fixes s :: "'s solver" and src :: "'s resolver_source"
  assumes rec: "solves_deeper src rq st recurse" and live: "live src rq s0 s"
    and choosing: "choosing src rq st p s" and known: "candidate_known s p cand vc"
    and allowed: "allowed rq p cand"
  shows "wp (explore_candidate src recurse p st cand vc) (step_post src rq s0 st p cand) (err_post rq) s"
proof -
  let ?sel = "\<lparr>sel_candidate = cand, sel_verified = vc\<rparr>"
  have inv: "solver_inv rq s" "caches_answer src s" using live by (simp_all add: live_def)
  show ?thesis
  proof (cases "same_identity p ?sel")
    case False
    then have "ruled_out src rq st p cand" using identity_ruled_out known inv by blast
    then have "wp (sbind (reject p cand IdentityMismatch) (\<lambda>_. sbind (discard src cand) (\<lambda>_. sret (Next True))))
        (step_post src rq s0 st p cand) (err_post rq) s"
      unfolding wp_simps using live
      by (intro wp_reject wp_discard) (auto simp: step_post_def live_solver_inv intro: live_same)
    with False show ?thesis by (simp add: explore_candidate_def same_identity_def)
  next
    case True
    have ok: "selection_ok rq s p ?sel"
      using known allowed True by (simp add: selection_ok_def candidate_known_def)
    have st: "state_inv rq s st" and core: "state_core rq s st" and fresh: "chosen st p = None"
      and dom: "p \<in> dom (map_of (ss_constraints st))"
      using choosing by (simp_all add: choosing_def state_inv_def)
    note sel = state_core_select [OF core fresh dom ok]
    have "wp (sbind (push_trace ev) (\<lambda>_. sbind (add_candidate_dependencies p (select p ?sel st)
            (sort_dependencies (vc_dependencies vc))) (\<lambda>(nxt, cycle). case cycle of
          Some through \<Rightarrow> give_up src p cand (Cycle through)
        | None \<Rightarrow> sbind (recurse nxt) (\<lambda>solution. case solution of
              Some sol \<Rightarrow> sbind (push_trace (Selected p (cand_version cand))) (\<lambda>_. sret (Solved sol))
            | None \<Rightarrow> give_up src p cand DownstreamConflict))))
        (step_post src rq s0 st p cand) (err_post rq) s" for ev
      unfolding wp_sbind
    proof (rule wp_push_trace [OF inv(1)], rule wp_add_candidate_dependencies, goal_cases)
      case (2 s1)
      then show ?case using state_core_same [OF sel(1)] by blast
    next
      case (3 s1)
      then show ?case unfolding sel(2) by (simp add: wanted_def)
    next
      case (4 s1 nxt s2)
      then show ?case
        by (simp, intro wp_dependencies_added [OF rec st fresh, where cycle = None, simplified]
            live_same [OF live])
          (simp_all add: dependencies_added_def candidate_known_same [OF known])
    next
      case (5 s1 nxt s2 r)
      then show ?case
        by (simp, intro wp_dependencies_added [OF rec st fresh, where cycle = "Some (rd_package r)", simplified]
            live_same [OF live])
          (auto simp: dependencies_added_def candidate_known_same [OF known])
    qed simp_all
    with True show ?thesis by (simp add: explore_candidate_def same_identity_def)
  qed
qed

lemma candidate_known_grows: "candidate_known s p cand vc \<Longrightarrow> grows s s' \<Longrightarrow> candidate_known s' p cand vc"
  unfolding candidate_known_def grows_def map_le_def by (metis domI)

lemma choosing_grows: "choosing src rq st p s \<Longrightarrow> grows s s' \<Longrightarrow> choosing src rq st p s'"
  unfolding choosing_def using state_inv_grows by blast

lemma wp_try_candidate:
  fixes s :: "'s solver" and src :: "'s resolver_source"
  assumes rec: "solves_deeper src rq st recurse" and live: "live src rq s0 s"
    and choosing: "choosing src rq st p s"
    and cat: "map_of (sv_catalogs s) p = Some cat" and cand: "cand \<in> set (cat_candidates cat)"
  shows "wp (try_candidate src recurse p (requirements_for p st) cat st attempted cand)
    (step_post src rq s0 st p cand) (err_post rq) s"
  unfolding try_candidate_def wp_sbind
proof (rule wp_bump [OF live_solver_inv [OF live]], rule wp_push_trace, goal_cases)
  case (2 s1 s2)
  have live2: "live src rq s0 s2" using 2 live_same [OF live] by simp
  have same: "grows s s2" using 2 by (simp add: grows_same)
  have core: "state_core rq s2 st"
    using choosing_grows [OF choosing same] by (simp add: choosing_def state_inv_def)
  have rq: "sv_request s2 = rq" using 2 by (simp add: solver_inv_def)
  have cat2: "map_of (sv_catalogs s2) p = Some cat" using 2 cat by simp
  show ?case
  proof (cases "screen_candidate rq p (requirements_for p st) cand")
    case (Some reason)
    have "wp (sbind (reject p cand reason) (\<lambda>_. sret (Next attempted)))
        (step_post src rq s0 st p cand) (err_post rq) s2"
      unfolding wp_simps using screen_ruled_out [OF core Some, of src] live2
      by (intro wp_reject) (auto simp: step_post_def live_solver_inv intro: live_same)
    then show ?thesis by (rule wp_at [rotated]) (simp add: rq Some)
  next
    case None
    have "wp (sbind (verified_candidate_of src cat cand) (\<lambda>result.
           case result of
             Inl failure \<Rightarrow>
               sbind (reject p cand (VerificationFailed (sf_code failure)))
                 (\<lambda>_ s. (Fail (SourceError p failure (sv_trace s)), s))
           | Inr verified \<Rightarrow> explore_candidate src recurse p st cand verified))
        (step_post src rq s0 st p cand) (err_post rq) s2"
      unfolding wp_sbind
    proof (rule wp_verified_candidate_of [OF _ _ cat2 cand], goal_cases)
      case (3 r s3)
      then have live3: "live src rq s0 s3" using live2 grows_trans by (auto simp: live_def)
      show ?case
      proof (cases r)
        case (Inl f)
        then show ?thesis
          using 3 by (auto simp: wp_simps err_post_def intro!: wp_reject)
      next
        case (Inr vc)
        have "map_of (sv_catalogs s3) p = Some cat"
          using 3(3) cat2 by (auto simp: grows_def map_le_def dom_def)
        then have "candidate_known s3 p cand vc"
          using 3(4) cand Inr by (simp add: candidate_known_def)
        then show ?thesis
          using wp_explore_candidate [OF rec live3 choosing_grows [OF choosing] _ screen_allowed [OF None]]
            grows_trans [OF same 3(3)] Inr by simp
      qed
    qed (use live2 in \<open>simp_all add: live_def\<close>)
    then show ?thesis by (rule wp_at [rotated]) (simp add: rq None)
  qed
qed

text \<open>When every row of the package's catalog is ruled out, so is the state.\<close>

lemma all_ruled_out_refuted:
  assumes choosing: "choosing src rq st p s" and live: "live src rq s0 s"
    and cat: "map_of (sv_catalogs s) p = Some cat"
    and out: "\<forall>cand \<in> set (cat_candidates cat). ruled_out src rq st p cand"
  shows "refuted src rq st"
  unfolding refuted_def
proof (intro impI allI notI)
  fix \<sigma> assume con: "consistent_source src" and valid: "valid_assignment src rq \<sigma>" and le: "chosen st \<subseteq>\<^sub>m \<sigma>"
  obtain cs where cs: "map_of (ss_constraints st) p = Some cs" using choosing by (auto simp: choosing_def)
  show False
  proof (cases "\<sigma> p")
    case None
    obtain c where c: "c \<in> set cs"
      using choosing cs by (cases cs) (auto simp: choosing_def state_inv_def state_core_def)
    then have "registry_of c p \<in> set (wanted rq (chosen st) (cn_from c))"
      using choosing cs by (simp add: choosing_def state_inv_def state_core_def)
    then have "registry_of c p \<in> set (wanted rq \<sigma> (cn_from c))" using wanted_mono [OF le] by blast
    with valid None show False by (fastforce simp: valid_assignment_def registry_of_def satisfies_def)
  next
    case (Some sel)
    then have "offered src p sel" using valid by (simp add: valid_assignment_def)
    moreover have "answers_catalog src p cat" using live cat by (simp add: live_def caches_answer_def)
    ultimately have "sel_candidate sel \<in> set (cat_candidates cat)"
      using con by (metis consistent_source_def offered_def)
    with out con valid le Some show False by (auto simp: ruled_out_def)
  qed
qed

lemma wp_try_candidates:
  fixes s :: "'s solver" and src :: "'s resolver_source"
  assumes rec: "solves_deeper src rq st recurse"
    and "live src rq s0 s" "choosing src rq st p s" "map_of (sv_catalogs s) p = Some cat"
    and "set cands \<subseteq> set (cat_candidates cat)"
    and "\<forall>cand \<in> set (cat_candidates cat) - set cands. ruled_out src rq st p cand"
  shows "wp (try_candidates src recurse p (requirements_for p st) cat st attempted cands)
    (search_post src rq s0 st) (err_post rq) s"
  using assms(2-)
proof (induction cands arbitrary: attempted s)
  case Nil
  have "refuted src rq st" using all_ruled_out_refuted Nil.prems by fastforce
  then have none: "live src rq s0 s' \<Longrightarrow> search_post src rq s0 st None s'" for s'
    by (simp add: search_post_def)
  have "wp (sbind (note_conflict p (requirements_for p st)) (\<lambda>_. sret None))
      (search_post src rq s0 st) (err_post rq) s"
    unfolding wp_simps
    by (intro wp_note_conflict none) (use Nil.prems(1) in \<open>auto simp: live_solver_inv intro: live_same\<close>)
  then show ?case using none Nil.prems(1) by (simp add: wp_simps)
next
  case (Cons cand cands)
  have first: "wp (try_candidate src recurse p (requirements_for p st) cat st attempted cand)
      (step_post src rq s st p cand) (err_post rq) s"
    by (rule wp_try_candidate [OF rec _ Cons.prems(2,3)])
      (use Cons.prems(1,4) in \<open>simp_all add: live_def\<close>)
  show ?case
    unfolding try_candidates.simps wp_sbind
  proof (rule wp_conseq [OF first])
    fix r s' assume 3: "step_post src rq s st p cand r s'"
    have live: "live src rq s0 s'" and grows: "grows s s'"
      using 3 live_trans [OF Cons.prems(1)] by (auto simp: step_post_def live_def)
    show "wp (case r of Solved sol \<Rightarrow> sret (Some sol)
        | Next attempted' \<Rightarrow> try_candidates src recurse p (requirements_for p st) cat st attempted' cands)
        (search_post src rq s0 st) (err_post rq) s'"
    proof (cases r)
      case (Solved sol)
      with 3 live show ?thesis by (simp add: wp_simps search_post_def step_post_def)
    next
      case (Next attempted')
      have "wp (try_candidates src recurse p (requirements_for p st) cat st attempted' cands)
          (search_post src rq s0 st) (err_post rq) s'"
      proof (rule Cons.IH [OF live choosing_grows [OF Cons.prems(2) grows]])
        show "map_of (sv_catalogs s') p = Some cat"
          using grows Cons.prems(3) by (auto simp: grows_def map_le_def dom_def)
        show "set cands \<subseteq> set (cat_candidates cat)" using Cons.prems(4) by simp
        show "\<forall>c \<in> set (cat_candidates cat) - set cands. ruled_out src rq st p c"
          using Cons.prems(5) 3 Next by (auto simp: step_post_def)
      qed
      with Next show ?thesis by simp
    qed
  qed
qed

lemma set_candidate_order [simp]: "set (candidate_order rq p cands) = set cands"
  by (auto simp: candidate_order_def Let_def split: option.splits)

lemma next_unselected_Some:
  assumes "state_inv rq s st" "next_unselected st = Some p"
  shows "choosing src rq st p s"
  using find_Some_mem [of _ "al_keys (ss_constraints st)" p] assms
  by (auto simp: next_unselected_def choosing_def al_keys_iff)

lemma conflict_refuted:
  assumes core: "state_core rq s st" and conflict: "selected_conflict st = Some p"
  shows "refuted src rq st"
  unfolding refuted_def
proof (intro impI allI notI)
  fix \<sigma> assume valid: "valid_assignment src rq \<sigma>" and le: "chosen st \<subseteq>\<^sub>m \<sigma>"
  obtain sel where "find (violated st) (ss_selected st) = Some (p, sel)"
    using conflict by (auto simp: selected_conflict_def)
  then have "violated st (p, sel)" and "(p, sel) \<in> set (ss_selected st)"
    using find_Some_mem by fastforce+
  then obtain cs c where c: "map_of (ss_constraints st) p = Some cs" "c \<in> set cs"
      "\<not> matches (cn_requirement c) (cand_version (sel_candidate sel))"
    by (auto simp: violated_def list_ex_iff split: option.splits)
  have "chosen st p = Some sel"
    using \<open>(p, sel) \<in> set _\<close> core by (simp add: state_core_def bt_wf_distinct map_of_Some_iff)
  then have "\<sigma> p = Some sel" using le by (metis domI map_le_def)
  moreover have "registry_of c p \<in> set (wanted rq \<sigma> (cn_from c))"
    using core c wanted_mono [OF le] unfolding state_core_def by blast
  ultimately show False
    using valid c(3) by (fastforce simp: valid_assignment_def registry_of_def satisfies_def)
qed

lemma card_dom_bt: "bt_wf m \<Longrightarrow> card (dom (map_of m)) = length m"
  using bt_wf_distinct [of m] distinct_card [of "al_keys m"] by (simp add: dom_map_of_conv_image_fst al_keys_def)

text \<open>Every level of the recursion selects a package, so the depth bound is never reached.\<close>

lemma selected_room:
  assumes "state_inv rq s st" "choosing src rq st p s"
  shows "length (ss_selected st) < max_packages (rq_limits rq)"
proof -
  have core: "state_core rq s st" using assms(1) by (simp add: state_inv_def)
  have "dom (chosen st) \<subset> dom (map_of (ss_constraints st))"
    using core assms(2) unfolding choosing_def state_core_def by (metis domIff psubsetI)
  then have less: "card (dom (chosen st)) < card (dom (map_of (ss_constraints st)))"
    by (intro psubset_card_mono finite_dom_map_of)
  have "card (dom (chosen st)) = length (ss_selected st)"
    "card (dom (map_of (ss_constraints st))) = length (ss_constraints st)"
    using core by (simp_all add: card_dom_bt state_core_def)
  with less core show ?thesis by (simp add: state_core_def)
qed

lemma wp_solve:
  fixes s :: "'s solver" and src :: "'s resolver_source"
  assumes "live src rq s0 s" "state_inv rq s st"
    and "max_packages (rq_limits rq) < depth + length (ss_selected st)" "0 < depth"
  shows "wp (solve depth src st) (search_post src rq s0 st) (err_post rq) s"
  using assms
proof (induction depth arbitrary: st s s0)
  case (Suc depth)
  have core: "state_core rq s st" using Suc.prems(2) by (simp add: state_inv_def)
  have inv: "solver_inv rq s" "caches_answer src s" using Suc.prems(1) by (simp_all add: live_def)
  consider p where "selected_conflict st = Some p"
    | "selected_conflict st = None" "next_unselected st = None"
    | p where "selected_conflict st = None" "next_unselected st = Some p"
    by fastforce
  then show ?case
  proof cases
    case (1 p)
    have "wp (sbind (note_conflict p (requirements_for p st)) (\<lambda>_. sret None))
        (search_post src rq s0 st) (err_post rq) s"
      unfolding wp_simps
      by (intro wp_note_conflict inv)
        (auto simp: search_post_def conflict_refuted [OF core 1] intro: live_same [OF Suc.prems(1)])
    then show ?thesis by (rule wp_at [rotated]) (simp add: 1)
  next
    case 2
    then have "wp (sret (Some st)) (search_post src rq s0 st) (err_post rq) s"
      using Suc.prems by (simp add: wp_simps search_post_def solved_def)
    then show ?thesis by (rule wp_at [rotated]) (simp add: 2)
  next
    case (3 p)
    have choosing: "choosing src rq st p s" by (rule next_unselected_Some [OF Suc.prems(2) 3(2)])
    have room: "length (ss_selected st) < max_packages (rq_limits rq)"
      by (rule selected_room [OF Suc.prems(2) choosing])
    have rec: "solves_deeper src rq st (solve depth src)"
      unfolding solves_deeper_def using Suc.IH Suc.prems(3) room by auto
    have "wp (sbind (catalog src p) (\<lambda>cat s. try_candidates src (solve depth src) p (requirements_for p st) cat st
          False (candidate_order (sv_request s) p (cat_candidates cat)) s)) (search_post src rq s0 st) (err_post rq) s"
      unfolding wp_sbind
    proof (rule wp_catalog [OF inv])
      fix cat and s' :: "'s solver"
      assume s': "solver_inv rq s'" "caches_answer src s'" "grows s s'" "map_of (sv_catalogs s') p = Some cat"
      have "live src rq s0 s'" using live_trans [OF Suc.prems(1)] s' by (simp add: live_def)
      then have "wp (try_candidates src (solve depth src) p (requirements_for p st) cat st
          False (candidate_order rq p (cat_candidates cat))) (search_post src rq s0 st) (err_post rq) s'"
        using wp_try_candidates [OF rec _ choosing_grows [OF choosing s'(3)] s'(4)] by simp
      then show "wp (\<lambda>s. try_candidates src (solve depth src) p (requirements_for p st) cat st
          False (candidate_order (sv_request s) p (cat_candidates cat)) s) (search_post src rq s0 st) (err_post rq) s'"
        by (rule wp_at [rotated]) (use s'(1) in \<open>simp add: solver_inv_def\<close>)
    qed
    then show ?thesis by (rule wp_at [rotated]) (simp add: 3)
  qed
qed simp

end
