(* ===== verification/Resolver_Theorems.thy ===== *)
theory Resolver_Theorems
  imports Resolver_Search "HOL-Library.Code_Target_Numeral"
begin

text \<open>
  What \<open>resolve_packages\<close> promises its callers: a returned resolution describes a valid
  assignment, a reported conflict means that there is none, the call always returns, and no
  budget is exceeded.
\<close>

section \<open>The whole call\<close>

text \<open>The resolution lists an assignment: the packages in key order, one edge per registry
  dependency of the request and of every selected release, and the path dependencies as they
  are.\<close>

definition edge_for :: "assignment \<Rightarrow> package_key option \<Rightarrow> registry_dependency \<Rightarrow> resolved_edge" where
  "edge_for \<sigma> from r =
     \<lparr>re_from = from, re_alias = rd_alias r, re_to = rd_package r, re_requirement = rd_requirement r,
      re_selected = cand_version (sel_candidate (the (\<sigma> (rd_package r))))\<rparr>"

definition describes :: "resolve_request \<Rightarrow> assignment \<Rightarrow> resolution \<Rightarrow> bool" where
  "describes rq \<sigma> res \<longleftrightarrow>
     (\<exists>m. bt_wf m \<and> map_of m = \<sigma> \<and> rs_packages res = map resolved_package_of m)
     \<and> set (rs_edges res) = {edge_for \<sigma> from r | from r. Registry r \<in> set (wanted rq \<sigma> from)}
     \<and> set (rs_path_dependencies res) =
         {PreservedPathDependency from (pd_alias d) (pd_path d) (pd_version d) | from d.
            Path d \<in> set (wanted rq \<sigma> from)}
     \<and> dom \<sigma> = {rd_package r | from r. Registry r \<in> set (wanted rq \<sigma> from)}"

lemma edges_of_Some:
  assumes "\<forall>p \<in> set (al_keys cs). map_of sel p \<noteq> None"
  shows "edges_of sel cs = Some (concat (map (\<lambda>(p, l). map (\<lambda>c.
      \<lparr>re_from = cn_from c, re_alias = cn_alias c, re_to = p, re_requirement = cn_requirement c,
       re_selected = cand_version (sel_candidate (the (map_of sel p)))\<rparr>) l) cs))"
  using assms by (induction cs) auto

text \<open>In a solved state every package with a constraint is selected and satisfies it.\<close>

lemma solved_selected:
  assumes "state_inv rq s st" "solved st"
  shows "dom (map_of (ss_constraints st)) = dom (chosen st)"
  using assms find_None_all [of "\<lambda>p. chosen st p = None" "al_keys (ss_constraints st)"]
  by (auto simp: solved_def next_unselected_def state_inv_def state_core_def al_keys_iff dom_def)

lemma solved_matches:
  assumes inv: "state_inv rq s st" and "solved st" and p: "chosen st p = Some sel"
    and c: "map_of (ss_constraints st) p = Some cs" "c \<in> set cs"
  shows "matches (cn_requirement c) (cand_version (sel_candidate sel))"
proof -
  have "find (violated st) (ss_selected st) = None"
    using assms(2) by (simp add: solved_def selected_conflict_def)
  moreover have "(p, sel) \<in> set (ss_selected st)" using p by (rule map_of_SomeD)
  ultimately have "\<not> violated st (p, sel)" using find_None_all by metis
  then show ?thesis using c by (auto simp: violated_def list_ex_iff)
qed

lemma wanted_registry_iff:
  assumes "state_inv rq s st"
  shows "Registry r \<in> set (wanted rq (chosen st) f) \<longleftrightarrow>
    (\<exists>cs c. map_of (ss_constraints st) (rd_package r) = Some cs \<and> c \<in> set cs
      \<and> c = \<lparr>cn_from = f, cn_alias = rd_alias r, cn_requirement = rd_requirement r\<rparr>)"
proof
  assume "Registry r \<in> set (wanted rq (chosen st) f)"
  then have "covers st f (Registry r)" using assms unfolding state_inv_def covered_def by blast
  then show "\<exists>cs c. map_of (ss_constraints st) (rd_package r) = Some cs \<and> c \<in> set cs
      \<and> c = \<lparr>cn_from = f, cn_alias = rd_alias r, cn_requirement = rd_requirement r\<rparr>" by auto
next
  assume "\<exists>cs c. map_of (ss_constraints st) (rd_package r) = Some cs \<and> c \<in> set cs
      \<and> c = \<lparr>cn_from = f, cn_alias = rd_alias r, cn_requirement = rd_requirement r\<rparr>"
  then show "Registry r \<in> set (wanted rq (chosen st) f)"
    using assms unfolding state_inv_def state_core_def registry_of_def by fastforce
qed

lemma assignment_graph_dep_graph:
  assumes "state_inv rq s st"
  shows "assignment_graph rq (chosen st) = dep_graph st"
proof
  show "dep_graph st \<subseteq> assignment_graph rq (chosen st)"
    using assms by (intro dep_graph_wanted [of rq s]) (simp add: state_inv_def)
  show "assignment_graph rq (chosen st) \<subseteq> dep_graph st"
  proof (clarsimp simp: assignment_graph_def)
    fix q r assume "Registry r \<in> set (wanted rq (chosen st) (Some q))"
    then obtain cs c where "map_of (ss_constraints st) (rd_package r) = Some cs" "c \<in> set cs" "cn_from c = Some q"
      unfolding wanted_registry_iff [OF assms] by auto
    then show "(q, rd_package r) \<in> dep_graph st" by (auto simp: dep_graph_def depends_on_def)
  qed
qed

lemma solved_valid:
  assumes inv: "state_inv rq s st" and "solved st" and "live src rq s0 s"
  shows "valid_assignment src rq (chosen st)"
proof -
  have "satisfies (chosen st) r" if r: "Registry r \<in> set (wanted rq (chosen st) from)" for "from" r
  proof -
    obtain cs c where c: "map_of (ss_constraints st) (rd_package r) = Some cs" "c \<in> set cs"
        "cn_requirement c = rd_requirement r"
      using r wanted_registry_iff [OF inv] by fastforce
    then obtain sel where sel: "chosen st (rd_package r) = Some sel"
      using solved_selected [OF inv assms(2)] by blast
    then show ?thesis
      using solved_matches [OF inv assms(2) sel c(1,2)] c(3) by (simp add: satisfies_def)
  qed
  moreover have "offered src p sel \<and> same_identity p sel \<and> allowed rq p (sel_candidate sel)"
    if "chosen st p = Some sel" for p sel
  proof -
    have ok: "selection_ok rq s p sel" using that inv by (simp add: state_inv_def state_core_def)
    then show ?thesis
      using selection_ok_offered [OF ok] assms(3) by (auto simp: selection_ok_def live_def)
  qed
  moreover have "acyclic (assignment_graph rq (chosen st))"
    using assignment_graph_dep_graph [OF inv] inv by (simp add: state_inv_def state_core_def)
  ultimately show ?thesis unfolding valid_assignment_def by blast
qed

lemma wanted_path_iff:
  assumes "state_inv rq s st"
  shows "Path d \<in> set (wanted rq (chosen st) f) \<longleftrightarrow>
    PreservedPathDependency f (pd_alias d) (pd_path d) (pd_version d) \<in> set (ss_paths st)"
proof
  assume "Path d \<in> set (wanted rq (chosen st) f)"
  then show "PreservedPathDependency f (pd_alias d) (pd_path d) (pd_version d) \<in> set (ss_paths st)"
    using assms unfolding state_inv_def covered_def by fastforce
next
  assume "PreservedPathDependency f (pd_alias d) (pd_path d) (pd_version d) \<in> set (ss_paths st)"
  then show "Path d \<in> set (wanted rq (chosen st) f)"
    using assms unfolding state_inv_def state_core_def by fastforce
qed

lemma set_paths_wanted:
  assumes "state_inv rq s st"
  shows "set (ss_paths st) = {PreservedPathDependency from (pd_alias d) (pd_path d) (pd_version d) | from d.
            Path d \<in> set (wanted rq (chosen st) from)}" (is "?L = ?R")
proof
  show "?L \<subseteq> ?R"
  proof
    fix pp assume pp: "pp \<in> ?L"
    obtain f a q v where eq: "pp = PreservedPathDependency f a q v" by (cases pp)
    let ?d = "\<lparr>pd_alias = a, pd_path = q, pd_version = v\<rparr>"
    have "Path ?d \<in> set (wanted rq (chosen st) f)"
      using pp eq wanted_path_iff [OF assms, of ?d f] by simp
    then show "pp \<in> ?R" using eq by force
  qed
  show "?R \<subseteq> ?L" using wanted_path_iff [OF assms] by blast
qed

lemma set_constraint_edges:
  assumes inv: "state_inv rq s st"
  shows "{\<lparr>re_from = cn_from c, re_alias = cn_alias c, re_to = p, re_requirement = cn_requirement c,
       re_selected = cand_version (sel_candidate (the (chosen st p)))\<rparr> | p cs c.
       map_of (ss_constraints st) p = Some cs \<and> c \<in> set cs}
     = {edge_for (chosen st) from r | from r. Registry r \<in> set (wanted rq (chosen st) from)}" (is "?L = ?R")
proof
  show "?L \<subseteq> ?R"
  proof clarify
    fix p cs c assume c: "map_of (ss_constraints st) p = Some cs" "c \<in> set cs"
    let ?r = "\<lparr>rd_alias = cn_alias c, rd_package = p, rd_requirement = cn_requirement c\<rparr>"
    have "Registry ?r \<in> set (wanted rq (chosen st) (cn_from c))"
      using inv c by (simp add: state_inv_def state_core_def registry_of_def)
    moreover have "edge_for (chosen st) (cn_from c) ?r = \<lparr>re_from = cn_from c, re_alias = cn_alias c, re_to = p,
        re_requirement = cn_requirement c, re_selected = cand_version (sel_candidate (the (chosen st p)))\<rparr>"
      by (simp add: edge_for_def)
    ultimately show "\<exists>from r. \<lparr>re_from = cn_from c, re_alias = cn_alias c, re_to = p,
        re_requirement = cn_requirement c, re_selected = cand_version (sel_candidate (the (chosen st p)))\<rparr>
          = edge_for (chosen st) from r \<and> Registry r \<in> set (wanted rq (chosen st) from)"
      by metis
  qed
  show "?R \<subseteq> ?L"
  proof clarify
    fix f r assume "Registry r \<in> set (wanted rq (chosen st) f)"
    then obtain cs c where "map_of (ss_constraints st) (rd_package r) = Some cs" "c \<in> set cs"
        "c = \<lparr>cn_from = f, cn_alias = rd_alias r, cn_requirement = rd_requirement r\<rparr>"
      unfolding wanted_registry_iff [OF inv] by blast
    then show "\<exists>p cs c. edge_for (chosen st) f r = \<lparr>re_from = cn_from c, re_alias = cn_alias c, re_to = p,
        re_requirement = cn_requirement c, re_selected = cand_version (sel_candidate (the (chosen st p)))\<rparr>
        \<and> map_of (ss_constraints st) p = Some cs \<and> c \<in> set cs"
      by (intro exI [of _ "rd_package r"] exI [of _ cs] exI [of _ c]) (simp add: edge_for_def)
  qed
qed

lemma targets_wanted:
  assumes inv: "state_inv rq s st"
  shows "dom (map_of (ss_constraints st)) = {rd_package r | from r. Registry r \<in> set (wanted rq (chosen st) from)}"
    (is "?L = ?R")
proof
  show "?L \<subseteq> ?R"
  proof
    fix p assume "p \<in> ?L"
    then obtain cs where cs: "map_of (ss_constraints st) p = Some cs" by blast
    then obtain c where "c \<in> set cs" using inv by (cases cs) (auto simp: state_inv_def state_core_def)
    then have "registry_of c p \<in> set (wanted rq (chosen st) (cn_from c))"
      using inv cs by (simp add: state_inv_def state_core_def)
    then show "p \<in> ?R" unfolding registry_of_def by force
  qed
  show "?R \<subseteq> ?L" using wanted_registry_iff [OF inv] by blast
qed

lemma wp_finish:
  assumes inv: "state_inv rq s st" and "solved st"
    and post: "\<And>res. describes rq (chosen st) res \<Longrightarrow> rs_trace res = sv_trace s \<Longrightarrow>
      length (rs_packages res) = length (ss_selected st) \<Longrightarrow> Q res s"
  shows "wp (finish st) Q E s"
proof -
  have wf: "bt_wf (ss_constraints st)" "bt_wf (ss_selected st)"
    using inv by (simp_all add: state_inv_def state_core_def)
  have "\<forall>p \<in> set (al_keys (ss_constraints st)). chosen st p \<noteq> None"
    using solved_selected [OF inv assms(2)] al_keys_iff by (metis domIff)
  note edges = edges_of_Some [OF this]
  let ?edge = "\<lambda>p c. \<lparr>re_from = cn_from c, re_alias = cn_alias c, re_to = p, re_requirement = cn_requirement c,
       re_selected = cand_version (sel_candidate (the (chosen st p)))\<rparr>"
  have "set (concat (map (\<lambda>(p, l). map (?edge p) l) (ss_constraints st)))
      = {?edge p c | p cs c. map_of (ss_constraints st) p = Some cs \<and> c \<in> set cs}"
    using map_of_Some_iff [OF bt_wf_distinct [OF wf(1)]] by force
  then show ?thesis
    using wf solved_selected [OF inv assms(2)]
    by (auto simp: wp_def finish_def edges describes_def set_constraint_edges [OF inv] set_paths_wanted [OF inv]
        simp flip: targets_wanted [OF inv] intro!: post)
qed

text \<open>The outcome of the call: a value describes a valid assignment, an error is a conflict only
  when a consistent source admits none, and in both cases the solver kept its invariant.\<close>

definition call_post :: "'s resolver_source \<Rightarrow> resolve_request \<Rightarrow> resolution \<Rightarrow> 's solver \<Rightarrow> bool" where
  "call_post src rq res s \<longleftrightarrow> solver_inv rq s
     \<and> (\<exists>\<sigma>. valid_assignment src rq \<sigma> \<and> describes rq \<sigma> res)
     \<and> rs_trace res = sv_trace s \<and> length (rs_packages res) \<le> max_packages (rq_limits rq)"

definition call_error :: "'s resolver_source \<Rightarrow> resolve_request \<Rightarrow> resolve_error \<Rightarrow> 's solver \<Rightarrow> bool" where
  "call_error src rq e s \<longleftrightarrow> solver_inv rq s
     \<and> (is_conflict_error e \<longrightarrow> consistent_source src \<longrightarrow> (\<nexists>\<sigma>. valid_assignment src rq \<sigma>))"

lemma err_post_call_error: "err_post rq e s \<Longrightarrow> call_error src rq e s"
  by (simp add: err_post_def call_error_def)

lemma new_solver_inv: "live src rq (new_solver source rq) (new_solver source rq)"
  by (simp add: live_def solver_inv_def new_solver_def within_budget_def caches_answer_def)

lemma empty_state_core: "state_core rq s empty_solver_state"
  by (simp add: state_core_def empty_solver_state_def dep_graph_def acyclic_def)

lemma selected_le_packages:
  assumes "state_inv rq s st"
  shows "length (ss_selected st) \<le> max_packages (rq_limits rq)"
proof -
  have core: "state_core rq s st" using assms by (simp add: state_inv_def)
  have "dom (chosen st) \<subseteq> dom (map_of (ss_constraints st))" using core by (simp add: state_core_def)
  then have "card (dom (chosen st)) \<le> card (dom (map_of (ss_constraints st)))"
    by (intro card_mono finite_dom_map_of)
  then show ?thesis using core by (simp add: card_dom_bt state_core_def)
qed

lemma wp_resolve_body:
  fixes src :: "'s resolver_source"
  assumes inv: "state_inv rq s st" and sel: "ss_selected st = []" and live: "live src rq s s"
  shows "wp (sbind (solve (Suc (max_packages (rq_limits rq))) src st) (\<lambda>r.
          case r of
            Some st' \<Rightarrow>
              sbind (finish st') (\<lambda>resolution.
                case schema resolution of
                  Some message \<Rightarrow> sfail (InvalidResolution message)
                | None \<Rightarrow> sret resolution)
          | None \<Rightarrow> (\<lambda>s.
              let (p, requirements) = conflict s
              in sbind (push_trace (ConflictEvent p requirements))
                   (\<lambda>_ s. (Fail (ConflictError p requirements (sv_trace s)), s)) s)))
     (call_post src rq) (call_error src rq) s"
  unfolding wp_sbind
proof (rule wp_mono [OF wp_solve [OF live inv]], goal_cases)
  case (3 r s')
  then have live': "live src rq s s'" by (simp add: search_post_def)
  show ?case
  proof (cases r)
    case None
    have "refuted src rq st" using 3 None by (simp add: search_post_def)
    then have none: "consistent_source src \<Longrightarrow> \<nexists>\<sigma>. valid_assignment src rq \<sigma>"
      by (simp add: refuted_def sel)
    obtain p rs where c: "conflict s' = (p, rs)" by fastforce
    have "wp (sbind (push_trace (ConflictEvent p rs)) (\<lambda>_ s. (Fail (ConflictError p rs (sv_trace s)), s)))
        (call_post src rq) (call_error src rq) s'"
      unfolding wp_simps
      by (rule wp_mono [OF wp_push_trace [OF live_solver_inv [OF live'], where Q = "\<lambda>_. solver_inv rq"]])
        (auto simp: none call_error_def err_post_def)
    then show ?thesis unfolding None option.case by (rule wp_at [rotated]) (simp add: c)
  next
    case (Some st')
    then have st': "state_inv rq s' st'" "solved st'" using 3 by (simp_all add: search_post_def)
    show ?thesis
      unfolding Some option.case wp_sbind
    proof (rule wp_finish [OF st'])
      fix res assume "describes rq (chosen st') res" "rs_trace res = sv_trace s'"
        "length (rs_packages res) = length (ss_selected st')"
      then show "wp (case schema res of Some message \<Rightarrow> sfail (InvalidResolution message)
          | None \<Rightarrow> sret res) (call_post src rq) (call_error src rq) s'"
        using solved_valid [OF st' live'] selected_le_packages [OF st'(1)] live_solver_inv [OF live']
        by (auto simp: wp_simps call_post_def call_error_def split: option.splits)
    qed
  qed
qed (simp_all add: sel err_post_call_error)

lemma covered_empty:
  assumes "ss_selected st = []" "\<forall>d \<in> set (rq_dependencies rq). covers st None d"
  shows "covered rq st"
  using assms by (auto simp: covered_def wanted_def split: option.splits)

lemma resolve_call:
  "wp (\<lambda>_. resolve_packages src schema source rq) (call_post src rq) (call_error src rq) (new_solver source rq)"
proof (cases "validate_limits (rq_limits rq)")
  case (Inl e)
  then have "e = InvalidRequest ''resolver budgets must all be positive''"
    by (auto simp: validate_limits_def split: if_splits)
  with Inl new_solver_inv [of src rq source] show ?thesis
    by (simp add: resolve_packages_def wp_def call_error_def live_def)
next
  case (Inr u)
  have roots: "wp (add_dependencies empty_solver_state None (sort_dependencies (rq_dependencies rq)))
      (\<lambda>st s. live src rq s s \<and> state_inv rq s st \<and> ss_selected st = []) (err_post rq) (new_solver source rq)"
  proof (rule wp_add_dependencies [OF live_solver_inv [OF new_solver_inv] empty_state_core], goal_cases)
    case (2 st s)
    have "ss_selected st = []" using covers_le_selected [OF 2(5)] by (simp add: empty_solver_state_def)
    moreover from this have "state_inv rq s st" using 2 by (simp add: state_inv_def covered_empty)
    moreover have "live src rq s s" using live_same [OF new_solver_inv 2(1-3)] by (simp add: live_def)
    ultimately show ?case by simp
  qed (simp add: wanted_def)
  show ?thesis
    unfolding resolve_packages_def Let_def [of "new_solver source rq"] Inr sum.case
    by (rule wp_at [OF refl], unfold wp_sbind [of "add_dependencies _ _ _"], rule wp_mono [OF roots],
        (erule conjE)+, erule (2) wp_resolve_body [rotated 2], erule err_post_call_error)
qed

lemma resolve_Done:
  "resolve_packages src schema source rq = (Done res, s) \<Longrightarrow> call_post src rq res s"
  using wp_Done [OF resolve_call] by metis

lemma resolve_Fail:
  "resolve_packages src schema source rq = (Fail e, s) \<Longrightarrow> call_error src rq e s"
  using wp_Fail [OF resolve_call] by metis

lemma resolve_solver_inv: "solver_inv rq (snd (resolve_packages src schema source rq))"
  using resolve_call [of src schema source rq]
  by (auto simp: wp_def call_post_def call_error_def split: prod.splits outcome.splits)

section \<open>The order of the candidates\<close>






section \<open>An example\<close>

text \<open>A source with one package \<open>a\<close>, whose newest release needs a package that does not exist.\<close>

definition example_package :: "string \<Rightarrow> package_key" where
  "example_package n = PackageKey ''r'' ''s'' ''n'' n"

definition example_version :: "nat \<Rightarrow> nat \<Rightarrow> release_version" where
  "example_version a b = ReleaseVersion (of_nat a) (of_nat b) 0"

definition example_row :: "nat \<Rightarrow> nat \<Rightarrow> catalog_candidate" where
  "example_row a b = \<lparr>cand_version = example_version a b, cand_yanked = False, cand_release_id = ''id''\<rparr>"

definition example_source :: "unit resolver_source" where
  "example_source =
     \<lparr>authenticate_catalog = (\<lambda>u p. (Inr \<lparr>cat_package = p,
         cat_candidates = (if pk_name p = ''a'' then [example_row 1 0, example_row 1 1] else []),
         cat_authentication_id = ''auth''\<rparr>, ())),
      verify_candidate = (\<lambda>u cat cand. (Inr \<lparr>vc_package = cat_package cat, vc_version = cand_version cand,
         vc_release_id = cand_release_id cand,
         vc_dependencies = (if cand_version cand = example_version 1 1
           then [Registry \<lparr>rd_alias = ''b'', rd_package = example_package ''b'',
             rd_requirement = Exact (example_version 1 0)\<rparr>] else []),
         vc_manifest_digest = ''d'', vc_signer_key_ids = [], vc_edition = ''e'', vc_compatibility = ''c''\<rparr>, ())),
      discard_candidate = (\<lambda>u cand. ())\<rparr>"

definition example_request :: "string \<Rightarrow> resolve_request" where
  "example_request n =
     \<lparr>rq_dependencies = [Registry \<lparr>rd_alias = n, rd_package = example_package n,
        rd_requirement = Caret (example_version 1 0)\<rparr>],
      rq_locked = [], rq_frozen = [], rq_mode = Fresh,
      rq_limits = \<lparr>max_packages = 4, max_catalog_candidates = 4, max_candidate_attempts = 4, max_backtracks = 4,
        max_trace_events = 20\<rparr>\<rparr>"

lemma example_resolves: "(case fst (resolve_packages example_source (\<lambda>_. None) () (example_request ''a'')) of
    Done res \<Rightarrow> map rp_version (rs_packages res) = [example_version 1 0] | _ \<Rightarrow> False)"
  by code_simp

lemma example_conflicts: "(case fst (resolve_packages example_source (\<lambda>_. None) () (example_request ''b'')) of
    Fail e \<Rightarrow> is_conflict_error e | _ \<Rightarrow> False)"
  by code_simp

section \<open>Properties\<close>

text \<open>C1. Soundness: when \<open>resolve_packages\<close> returns a resolution, the resolution describes a
  valid assignment. Every dependency of the request and of every selected release is satisfied,
  every selected release is one the source offers under its own identity and the request's
  frozen and yanked policies allow, the dependencies have no cycle, the edges and the preserved
  path dependencies are exactly those that are wanted, and no package is selected without a
  dependency on it.\<close>

theorem resolve_sound:
  assumes "resolve_packages src schema source rq = (Done res, s)"
  shows "\<exists>\<sigma>. valid_assignment src rq \<sigma> \<and> describes rq \<sigma> res"
  using resolve_Done [OF assms] by (simp add: call_post_def)

theorem resolve_sound_witness:
  "\<exists>res s. resolve_packages example_source (\<lambda>_. None) () (example_request ''a'') = (Done res, s)
     \<and> (\<exists>\<sigma>. valid_assignment example_source (example_request ''a'') \<sigma> \<and> describes (example_request ''a'') \<sigma> res)"
proof -
  obtain res s where r: "resolve_packages example_source (\<lambda>_. None) () (example_request ''a'') = (Done res, s)"
    using example_resolves by (cases "resolve_packages example_source (\<lambda>_. None) () (example_request ''a'')")
      (auto split: outcome.splits)
  then show ?thesis using resolve_sound [OF r] by (intro exI [of _ res] exI [of _ s]) simp
qed

text \<open>C5. Completeness: for a source that answers repeated queries alike, a conflict is reported
  only when no valid assignment exists. The newest-first search with backtracking misses
  nothing.\<close>

theorem resolve_complete:
  assumes "consistent_source src"
    and "resolve_packages src schema source rq = (Fail (ConflictError p requirements trace), s)"
  shows "\<nexists>\<sigma>. valid_assignment src rq \<sigma>"
  using resolve_Fail [OF assms(2)] assms(1) by (simp add: call_error_def)

lemma example_source_consistent: "consistent_source example_source"
  by (simp add: consistent_source_def answers_catalog_def answers_candidate_def example_source_def)

theorem resolve_complete_witness:
  "(\<exists>p requirements trace s. resolve_packages example_source (\<lambda>_. None) () (example_request ''b'')
      = (Fail (ConflictError p requirements trace), s))
   \<and> (\<nexists>\<sigma>. valid_assignment example_source (example_request ''b'') \<sigma>)"
proof -
  obtain p rs tr s where "resolve_packages example_source (\<lambda>_. None) () (example_request ''b'')
      = (Fail (ConflictError p rs tr), s)"
    using example_conflicts by (cases "resolve_packages example_source (\<lambda>_. None) () (example_request ''b'')")
      (auto split: outcome.splits elim: is_conflict_error.elims)
  then show ?thesis using resolve_complete [OF example_source_consistent] by blast
qed

text \<open>C15. The resolver always returns: for every request and every source it ends in a value or in
  an error, never in the panic of \<open>state.selected[package]\<close> and never by recursing deeper than
  one level per permitted package.\<close>

theorem resolve_returns:
  "\<exists>r. fst (resolve_packages src schema source rq) = r \<and> r \<noteq> Panicked \<and> r \<noteq> OutOfFuel"
  using resolve_call [of src schema source rq] by (auto simp: wp_def split: prod.splits)

text \<open>C16. Whatever the outcome, the trace, the candidate attempts and the backtracks stay within the
  request's budgets, the request is unchanged, and a resolution has at most
  \<open>max_packages\<close> packages.\<close>

theorem resolve_within_budgets:
  "case resolve_packages src schema source rq of (r, s) \<Rightarrow>
     sv_request s = rq \<and> within_budget s
     \<and> (case r of Done res \<Rightarrow> rs_trace res = sv_trace s \<and> length (rs_packages res) \<le> max_packages (rq_limits rq)
        | _ \<Rightarrow> True)"
proof -
  obtain r s where eq: "resolve_packages src schema source rq = (r, s)" by (rule prod.exhaust)
  have "solver_inv rq s" using resolve_solver_inv [of rq src schema source] by (simp add: eq)
  moreover have "rs_trace res = sv_trace s \<and> length (rs_packages res) \<le> max_packages (rq_limits rq)"
    if "r = Done res" for res
    using resolve_Done [of src schema source rq res s] eq that by (simp add: call_post_def)
  ultimately show ?thesis by (simp add: eq solver_inv_def split: outcome.split)
qed




end
