(* ===== verification/Runtime_Lifecycle.thy ===== *)
theory Runtime_Lifecycle
  imports Rust_Maps Rust_Monad
begin

text \<open>
  The target-neutral lifecycle runtime (\<open>runtime_lifecycle.rs\<close>): owners of allocations with
  moves, borrows and aggregates, resources, scopes with deferred actions and deterministic
  cleanup, and the log of operations. Identifiers are numbers below \<open>2 ^ 64\<close>; taking one more
  from an exhausted counter panics, as an overflowing addition does in a checked build. The two
  recursive walks and the walk to an ancestor take a depth bound, for which the callers pass
  one more than the number of owners.
\<close>

section \<open>Data\<close>

type_synonym owner_id = nat
type_synonym borrow_id = nat
type_synonym resource_id = nat

datatype exit_reason = NormalReturn | EarlyReturn | ErrorReturn | PanicUnwind | Cancellation

datatype owner_status = OwnerActive | OwnerMoved | OwnerDropped

datatype resource_status = ResourceActive | ResourceMoved | ResourceClosed

datatype borrow_mode = Shared | Mutable

datatype lifecycle_error =
    NoActiveScope
  | ScopeUnderflow
  | AllocationFailure nat nat
  | UnknownOwner owner_id
  | UseAfterMove owner_id
  | UseAfterDrop owner_id
  | DoubleFree owner_id
  | BorrowConflict owner_id
  | BorrowStillActive owner_id
  | UnknownBorrow borrow_id
  | OwnershipEscape owner_id
  | OwnershipCycle owner_id
  | NotCopyable owner_id
  | UnknownResource resource_id
  | ResourceUseAfterClose resource_id
  | ResourceEscape resource_id
  | DoubleClose resource_id

fun lifecycle_error_code :: "lifecycle_error \<Rightarrow> string" where
  "lifecycle_error_code NoActiveScope = ''lifecycle.no_active_scope''"
| "lifecycle_error_code ScopeUnderflow = ''lifecycle.scope_underflow''"
| "lifecycle_error_code (AllocationFailure _ _) = ''lifecycle.allocation_failure''"
| "lifecycle_error_code (UnknownOwner _) = ''lifecycle.unknown_owner''"
| "lifecycle_error_code (UseAfterMove _) = ''lifecycle.use_after_move''"
| "lifecycle_error_code (UseAfterDrop _) = ''lifecycle.use_after_free''"
| "lifecycle_error_code (DoubleFree _) = ''lifecycle.double_free''"
| "lifecycle_error_code (BorrowConflict _) = ''lifecycle.borrow_conflict''"
| "lifecycle_error_code (BorrowStillActive _) = ''lifecycle.borrow_conflict''"
| "lifecycle_error_code (UnknownBorrow _) = ''lifecycle.unknown_borrow''"
| "lifecycle_error_code (OwnershipEscape _) = ''lifecycle.ownership_escape''"
| "lifecycle_error_code (OwnershipCycle _) = ''lifecycle.ownership_cycle''"
| "lifecycle_error_code (NotCopyable _) = ''lifecycle.copy_non_copyable''"
| "lifecycle_error_code (UnknownResource _) = ''lifecycle.unknown_resource''"
| "lifecycle_error_code (ResourceUseAfterClose _) = ''lifecycle.resource_use_after_close''"
| "lifecycle_error_code (ResourceEscape _) = ''lifecycle.resource_escape''"
| "lifecycle_error_code (DoubleClose _) = ''lifecycle.double_close''"

definition lifecycle_error_to_string :: "lifecycle_error \<Rightarrow> string" where
  "lifecycle_error_to_string e =
     (let code = lifecycle_error_code e;
          owner = (\<lambda>i. code @ '': owner '' @ show_nat i);
          resource = (\<lambda>i. code @ '': resource '' @ show_nat i) in
      case e of
        AllocationFailure requested limit \<Rightarrow>
          code @ '': requested '' @ show_nat requested @ '' bytes, limit is '' @ show_nat limit
      | UnknownOwner i \<Rightarrow> owner i | UseAfterMove i \<Rightarrow> owner i | UseAfterDrop i \<Rightarrow> owner i
      | DoubleFree i \<Rightarrow> owner i | BorrowConflict i \<Rightarrow> owner i | BorrowStillActive i \<Rightarrow> owner i
      | OwnershipEscape i \<Rightarrow> owner i | OwnershipCycle i \<Rightarrow> owner i | NotCopyable i \<Rightarrow> owner i
      | UnknownBorrow i \<Rightarrow> code @ '': borrow '' @ show_nat i
      | UnknownResource i \<Rightarrow> resource i | ResourceUseAfterClose i \<Rightarrow> resource i
      | ResourceEscape i \<Rightarrow> resource i | DoubleClose i \<Rightarrow> resource i
      | NoActiveScope \<Rightarrow> code | ScopeUnderflow \<Rightarrow> code)"

record lifecycle_operation =
  lo_operation :: string
  lo_allocation_effect :: "string option"
  lo_ownership_transfer :: "string option"
  lo_borrow_extent :: "string option"
  lo_cleanup_obligations :: nat
  lo_resource_authority :: "string option"
  lo_source_provenance :: "string option"

record allocation_inspection =
  ai_owner :: owner_id
  ai_layout :: nat
  ai_active :: bool
  ai_copyable :: bool
  ai_children :: "owner_id list"
  ai_outstanding_cleanup_obligation :: bool

record resource_inspection =
  ri_resource :: resource_id
  ri_capability :: string
  ri_active :: bool
  ri_outstanding_cleanup_obligation :: bool

record lifecycle_inspection =
  li_allocations :: "allocation_inspection list"
  li_resources :: "resource_inspection list"
  li_operations :: "lifecycle_operation list"

record allocation =
  al_bytes :: "byte list"
  al_copyable :: bool

record owner =
  ow_allocation :: nat
  ow_status :: owner_status
  ow_parent :: "owner_id option"
  ow_children :: "owner_id list"
  ow_borrows :: "borrow_id list"
  ow_source_provenance :: "string option"

record borrow_record =
  br_owner :: owner_id
  br_mode :: borrow_mode

record resource =
  rs_status :: resource_status
  rs_capability :: string
  rs_source_provenance :: "string option"

datatype scope_entry = OwnerEntry owner_id | ResourceEntry resource_id

record scope =
  sc_entries :: "scope_entry list"
  sc_deferred :: "string list"

text \<open>The innermost scope is the last of \<open>lr_scopes\<close>.\<close>

record lifecycle_runtime =
  lr_next_id :: nat
  lr_allocation_limit :: nat
  lr_allocations :: "(nat, allocation) btree_map"
  lr_owners :: "(owner_id, owner) btree_map"
  lr_borrows :: "(borrow_id, borrow_record) btree_map"
  lr_resources :: "(resource_id, resource) btree_map"
  lr_scopes :: "scope list"
  lr_operations :: "lifecycle_operation list"

type_synonym 'a lifecycle_m = "(lifecycle_runtime, lifecycle_error, 'a) rust_m"

definition new_lifecycle_runtime :: "nat \<Rightarrow> lifecycle_runtime" where
  "new_lifecycle_runtime limit =
     \<lparr>lr_next_id = 1, lr_allocation_limit = limit, lr_allocations = [], lr_owners = [], lr_borrows = [],
      lr_resources = [], lr_scopes = [], lr_operations = []\<rparr>"

section \<open>Helpers\<close>

definition u64_max :: nat where
  "u64_max = 2 ^ 64 - 1"

text \<open>The largest capacity of a \<open>Vec<u8>\<close>; beyond it \<open>vec!\<close> and \<open>resize\<close> panic.\<close>

definition isize_max :: nat where
  "isize_max = 2 ^ 63 - 1"

definition next_id :: "nat lifecycle_m" where
  "next_id = sbind (sget lr_next_id) (\<lambda>i.
     if i = u64_max then spanic
     else sbind (smodify (\<lambda>s. s\<lparr>lr_next_id := i + 1\<rparr>)) (\<lambda>_. sret i))"

definition record_op :: "lifecycle_operation \<Rightarrow> unit lifecycle_m" where
  "record_op op = smodify (\<lambda>s. s\<lparr>lr_operations := lr_operations s @ [op]\<rparr>)"

definition get_owner :: "owner_id \<Rightarrow> owner lifecycle_m" where
  "get_owner i = sbind (sget (\<lambda>s. map_of (lr_owners s) i)) (\<lambda>w.
     case w of None \<Rightarrow> sfail (UnknownOwner i) | Some w \<Rightarrow> sret w)"

definition owner_mut :: "owner_id \<Rightarrow> (owner \<Rightarrow> owner) \<Rightarrow> unit lifecycle_m" where
  "owner_mut i f = sbind (get_owner i) (\<lambda>_.
     smodify (\<lambda>s. s\<lparr>lr_owners := al_modify i f (lr_owners s)\<rparr>))"

definition require_active_owner :: "owner_id \<Rightarrow> unit lifecycle_m" where
  "require_active_owner i = sbind (get_owner i) (\<lambda>w.
     case ow_status w of
       OwnerActive \<Rightarrow> sret ()
     | OwnerMoved \<Rightarrow> sfail (UseAfterMove i)
     | OwnerDropped \<Rightarrow> sfail (UseAfterDrop i))"

definition require_no_borrows :: "owner_id \<Rightarrow> unit lifecycle_m" where
  "require_no_borrows i = sbind (get_owner i) (\<lambda>w.
     if ow_borrows w = [] then sret () else sfail (BorrowStillActive i))"

definition get_resource :: "resource_id \<Rightarrow> resource lifecycle_m" where
  "get_resource i = sbind (sget (\<lambda>s. map_of (lr_resources s) i)) (\<lambda>r.
     case r of None \<Rightarrow> sfail (UnknownResource i) | Some r \<Rightarrow> sret r)"

definition resource_mut :: "resource_id \<Rightarrow> (resource \<Rightarrow> resource) \<Rightarrow> unit lifecycle_m" where
  "resource_mut i f = sbind (get_resource i) (\<lambda>_.
     smodify (\<lambda>s. s\<lparr>lr_resources := al_modify i f (lr_resources s)\<rparr>))"

definition require_active_resource :: "resource_id \<Rightarrow> unit lifecycle_m" where
  "require_active_resource i = sbind (get_resource i) (\<lambda>r.
     if rs_status r = ResourceActive then sret () else sfail (ResourceUseAfterClose i))"

definition ensure_capacity :: "nat \<Rightarrow> unit lifecycle_m" where
  "ensure_capacity requested = sbind (sget lr_allocation_limit) (\<lambda>limit.
     if requested > limit then sfail (AllocationFailure requested limit) else sret ())"

definition require_scope :: "unit lifecycle_m" where
  "require_scope = sbind (sget lr_scopes) (\<lambda>scopes.
     if scopes = [] then sfail NoActiveScope else sret ())"

definition scope_push :: "scope_entry \<Rightarrow> unit lifecycle_m" where
  "scope_push entry = sbind (sget lr_scopes) (\<lambda>scopes.
     if scopes = [] then sfail NoActiveScope
     else smodify (\<lambda>s. s\<lparr>lr_scopes :=
       butlast scopes @ [(last scopes)\<lparr>sc_entries := sc_entries (last scopes) @ [entry]\<rparr>]\<rparr>))"

definition filter_entries :: "owner_id \<Rightarrow> scope \<Rightarrow> scope" where
  "filter_entries i sc = sc\<lparr>sc_entries := filter (\<lambda>e. e \<noteq> OwnerEntry i) (sc_entries sc)\<rparr>"

definition remove_from_scopes :: "owner_id \<Rightarrow> unit lifecycle_m" where
  "remove_from_scopes i = smodify (\<lambda>s. s\<lparr>lr_scopes := map (filter_entries i) (lr_scopes s)\<rparr>)"

definition replace_entry :: "scope_entry \<Rightarrow> scope_entry \<Rightarrow> scope \<Rightarrow> scope" where
  "replace_entry old new sc = sc\<lparr>sc_entries := map (\<lambda>e. if e = old then new else e) (sc_entries sc)\<rparr>"

definition outstanding_cleanup_obligations :: "lifecycle_runtime \<Rightarrow> nat" where
  "outstanding_cleanup_obligations s =
     length (filter (\<lambda>w. ow_status w = OwnerActive) (al_values (lr_owners s)))
     + length (filter (\<lambda>r. rs_status r = ResourceActive) (al_values (lr_resources s)))"

section \<open>Allocations\<close>

definition enter_scope :: "unit lifecycle_m" where
  "enter_scope = smodify (\<lambda>s. s\<lparr>lr_scopes := lr_scopes s @ [\<lparr>sc_entries = [], sc_deferred = []\<rparr>]\<rparr>)"

definition defer_action :: "string \<Rightarrow> unit lifecycle_m" where
  "defer_action action = sbind (sget lr_scopes) (\<lambda>scopes.
     if scopes = [] then sfail NoActiveScope
     else smodify (\<lambda>s. s\<lparr>lr_scopes :=
       butlast scopes @ [(last scopes)\<lparr>sc_deferred := sc_deferred (last scopes) @ [action]\<rparr>]\<rparr>))"

definition allocate_with_source :: "nat \<Rightarrow> bool \<Rightarrow> string option \<Rightarrow> owner_id lifecycle_m" where
  "allocate_with_source layout copyable source_provenance =
     sbind require_scope (\<lambda>_.
     sbind (ensure_capacity layout) (\<lambda>_.
     sbind next_id (\<lambda>allocation.
     sbind next_id (\<lambda>owner.
     if layout > isize_max then spanic
     else
     sbind (smodify (\<lambda>s. s\<lparr>lr_allocations := bt_insert allocation
         \<lparr>al_bytes = replicate layout 0, al_copyable = copyable\<rparr> (lr_allocations s)\<rparr>)) (\<lambda>_.
     sbind (smodify (\<lambda>s. s\<lparr>lr_owners := bt_insert owner
         \<lparr>ow_allocation = allocation, ow_status = OwnerActive, ow_parent = None, ow_children = [],
          ow_borrows = [], ow_source_provenance = source_provenance\<rparr> (lr_owners s)\<rparr>)) (\<lambda>_.
     sbind (scope_push (OwnerEntry owner)) (\<lambda>_.
     sbind (record_op
         \<lparr>lo_operation = ''allocate'', lo_allocation_effect = Some (''allocate:'' @ show_nat layout),
          lo_ownership_transfer = Some (''creates:'' @ show_nat owner), lo_borrow_extent = None,
          lo_cleanup_obligations = 1, lo_resource_authority = None,
          lo_source_provenance = source_provenance\<rparr>) (\<lambda>_.
     sret owner))))))))"

definition allocate :: "nat \<Rightarrow> bool \<Rightarrow> owner_id lifecycle_m" where
  "allocate layout copyable = allocate_with_source layout copyable None"

definition vec_resize :: "nat \<Rightarrow> byte list \<Rightarrow> byte list" where
  "vec_resize n bs = take n bs @ replicate (n - length bs) 0"

definition resize :: "owner_id \<Rightarrow> nat \<Rightarrow> unit lifecycle_m" where
  "resize owner layout =
     sbind (require_active_owner owner) (\<lambda>_.
     sbind (require_no_borrows owner) (\<lambda>_.
     sbind (ensure_capacity layout) (\<lambda>_.
     sbind (get_owner owner) (\<lambda>w.
     sbind (sget (\<lambda>s. map_of (lr_allocations s) (ow_allocation w))) (\<lambda>found.
     sbind (sexpect found) (\<lambda>_.
     if layout > isize_max then spanic
     else
     sbind (smodify (\<lambda>s. s\<lparr>lr_allocations := al_modify (ow_allocation w)
         (\<lambda>a. a\<lparr>al_bytes := vec_resize layout (al_bytes a)\<rparr>) (lr_allocations s)\<rparr>)) (\<lambda>_.
     record_op
         \<lparr>lo_operation = ''resize'', lo_allocation_effect = Some (''resize:'' @ show_nat layout),
          lo_ownership_transfer = Some (''preserves:'' @ show_nat owner), lo_borrow_extent = None,
          lo_cleanup_obligations = 1, lo_resource_authority = None,
          lo_source_provenance = ow_source_provenance w\<rparr>)))))))"

text \<open>\<open>copy_from_slice\<close> panics unless the slices have one length.\<close>

definition write_bytes :: "owner_id \<Rightarrow> nat \<Rightarrow> byte list \<Rightarrow> unit lifecycle_m" where
  "write_bytes owner offset bytes =
     sbind (require_active_owner owner) (\<lambda>_.
     sbind (require_no_borrows owner) (\<lambda>_.
     sbind (get_owner owner) (\<lambda>w.
     sbind (sget (\<lambda>s. map_of (lr_allocations s) (ow_allocation w))) (\<lambda>found.
     sbind (sexpect found) (\<lambda>a.
     let storage = al_bytes a; stop = usize_saturating_add offset (length bytes) in
     if stop > length storage then sfail (AllocationFailure stop (length storage))
     else if stop - offset \<noteq> length bytes then spanic
     else smodify (\<lambda>s. s\<lparr>lr_allocations := al_modify (ow_allocation w)
         (\<lambda>a. a\<lparr>al_bytes := take offset (al_bytes a) @ bytes @ drop stop (al_bytes a)\<rparr>) (lr_allocations s)\<rparr>))))))"

definition read_bytes :: "owner_id \<Rightarrow> nat \<Rightarrow> nat \<Rightarrow> byte list lifecycle_m" where
  "read_bytes owner offset len =
     sbind (require_active_owner owner) (\<lambda>_.
     sbind (get_owner owner) (\<lambda>w.
     sbind (sget (\<lambda>s. map_of (lr_allocations s) (ow_allocation w))) (\<lambda>found.
     sbind (sexpect found) (\<lambda>a.
     let storage = al_bytes a; stop = usize_saturating_add offset len in
     if stop > length storage then sfail (AllocationFailure stop (length storage))
     else sret (take (stop - offset) (drop offset storage))))))"

definition copy_value :: "owner_id \<Rightarrow> byte list lifecycle_m" where
  "copy_value owner =
     sbind (require_active_owner owner) (\<lambda>_.
     sbind (get_owner owner) (\<lambda>w.
     sbind (sget (\<lambda>s. map_of (lr_allocations s) (ow_allocation w))) (\<lambda>found.
     sbind (sexpect found) (\<lambda>a.
     if \<not> al_copyable a then sfail (NotCopyable owner)
     else
     sbind (sget outstanding_cleanup_obligations) (\<lambda>obligations.
     sbind (record_op
         \<lparr>lo_operation = ''copy'', lo_allocation_effect = Some ''copy'',
          lo_ownership_transfer = Some (''preserves:'' @ show_nat owner), lo_borrow_extent = None,
          lo_cleanup_obligations = obligations, lo_resource_authority = None,
          lo_source_provenance = ow_source_provenance w\<rparr>) (\<lambda>_.
     sret (al_bytes a)))))))"

definition clone_value :: "owner_id \<Rightarrow> owner_id lifecycle_m" where
  "clone_value owner =
     sbind (require_active_owner owner) (\<lambda>_.
     sbind (require_no_borrows owner) (\<lambda>_.
     sbind (get_owner owner) (\<lambda>w.
     sbind (sget (\<lambda>s. map_of (lr_allocations s) (ow_allocation w))) (\<lambda>found.
     sbind (sexpect found) (\<lambda>source.
     sbind (allocate_with_source (length (al_bytes source)) (al_copyable source) (ow_source_provenance w)) (\<lambda>cloned.
     sbind (get_owner cloned) (\<lambda>c.
     sbind (sget (\<lambda>s. map_of (lr_allocations s) (ow_allocation c))) (\<lambda>found'.
     sbind (sexpect found') (\<lambda>target.
     if length (al_bytes target) \<noteq> length (al_bytes source) then spanic
     else
     sbind (smodify (\<lambda>s. s\<lparr>lr_allocations := al_modify (ow_allocation c)
         (\<lambda>a. a\<lparr>al_bytes := al_bytes source\<rparr>) (lr_allocations s)\<rparr>)) (\<lambda>_.
     sbind (get_owner owner) (\<lambda>w.
     sbind (record_op
         \<lparr>lo_operation = ''clone'', lo_allocation_effect = Some ''clone'',
          lo_ownership_transfer = Some (''distinct:'' @ show_nat cloned), lo_borrow_extent = None,
          lo_cleanup_obligations = 2, lo_resource_authority = None,
          lo_source_provenance = ow_source_provenance w\<rparr>) (\<lambda>_.
     sret cloned))))))))))))"

section \<open>Ownership\<close>

fun set_parents :: "owner_id option \<Rightarrow> owner_id list \<Rightarrow> unit lifecycle_m" where
  "set_parents p [] = sret ()"
| "set_parents p (c # cs) = sbind (owner_mut c (\<lambda>w. w\<lparr>ow_parent := p\<rparr>)) (\<lambda>_. set_parents p cs)"

definition move_value :: "owner_id \<Rightarrow> owner_id lifecycle_m" where
  "move_value source =
     sbind (require_active_owner source) (\<lambda>_.
     sbind (require_no_borrows source) (\<lambda>_.
     sbind (get_owner source) (\<lambda>previous.
     sbind next_id (\<lambda>moved.
     sbind (smodify (\<lambda>s. s\<lparr>lr_owners := bt_insert moved
         \<lparr>ow_allocation = ow_allocation previous, ow_status = OwnerActive, ow_parent = ow_parent previous,
          ow_children = ow_children previous, ow_borrows = [],
          ow_source_provenance = ow_source_provenance previous\<rparr> (lr_owners s)\<rparr>)) (\<lambda>_.
     sbind (case ow_parent previous of
         None \<Rightarrow> sret ()
       | Some parent \<Rightarrow> owner_mut parent (\<lambda>w. w\<lparr>ow_children :=
           filter (\<lambda>c. c \<noteq> source) (ow_children w) @ [moved]\<rparr>)) (\<lambda>_.
     sbind (set_parents (Some moved) (ow_children previous)) (\<lambda>_.
     sbind (smodify (\<lambda>s. s\<lparr>lr_scopes :=
         map (replace_entry (OwnerEntry source) (OwnerEntry moved)) (lr_scopes s)\<rparr>)) (\<lambda>_.
     sbind (owner_mut source (\<lambda>w. w\<lparr>ow_status := OwnerMoved\<rparr>)) (\<lambda>_.
     sbind (record_op
         \<lparr>lo_operation = ''move'', lo_allocation_effect = None,
          lo_ownership_transfer = Some (show_nat source @ ''->'' @ show_nat moved), lo_borrow_extent = None,
          lo_cleanup_obligations = 1, lo_resource_authority = None,
          lo_source_provenance = ow_source_provenance previous\<rparr>) (\<lambda>_.
     sret moved))))))))))"

text \<open>The walk from a node to its ancestors; \<open>None\<close> when the bound is exhausted.\<close>

fun has_ancestor :: "nat \<Rightarrow> lifecycle_runtime \<Rightarrow> owner_id \<Rightarrow> owner_id \<Rightarrow> bool option" where
  "has_ancestor 0 s node candidate = None"
| "has_ancestor (Suc n) s node candidate =
     (if node = candidate then Some True
      else (case map_of (lr_owners s) node of
          None \<Rightarrow> Some False
        | Some w \<Rightarrow>
            (case ow_parent w of None \<Rightarrow> Some False | Some p \<Rightarrow> has_ancestor n s p candidate)))"

definition fuelled :: "(lifecycle_runtime \<Rightarrow> 'a option) \<Rightarrow> 'a lifecycle_m" where
  "fuelled f s = (case f s of None \<Rightarrow> (OutOfFuel, s) | Some a \<Rightarrow> (Done a, s))"

definition depth_bound :: "lifecycle_runtime \<Rightarrow> nat" where
  "depth_bound s = Suc (length (lr_owners s))"

definition attach_child :: "owner_id \<Rightarrow> owner_id \<Rightarrow> unit lifecycle_m" where
  "attach_child parent child =
     sbind (require_active_owner parent) (\<lambda>_.
     sbind (require_active_owner child) (\<lambda>_.
     sbind (require_no_borrows parent) (\<lambda>_.
     sbind (require_no_borrows child) (\<lambda>_.
     sbind (get_owner child) (\<lambda>w.
     if ow_parent w \<noteq> None \<or> parent = child then sfail (OwnershipEscape child)
     else
     sbind (fuelled (\<lambda>s. has_ancestor (depth_bound s) s parent child)) (\<lambda>cycle.
     if cycle then sfail (OwnershipCycle child)
     else
     sbind (remove_from_scopes child) (\<lambda>_.
     sbind (owner_mut child (\<lambda>w. w\<lparr>ow_parent := Some parent\<rparr>)) (\<lambda>_.
     sbind (owner_mut parent (\<lambda>w. w\<lparr>ow_children := ow_children w @ [child]\<rparr>)) (\<lambda>_.
     sbind (get_owner parent) (\<lambda>p.
     record_op
         \<lparr>lo_operation = ''attach'', lo_allocation_effect = None,
          lo_ownership_transfer =
            Some (''child:'' @ show_nat child @ ''->parent:'' @ show_nat parent),
          lo_borrow_extent = None, lo_cleanup_obligations = 2, lo_resource_authority = None,
          lo_source_provenance = ow_source_provenance p\<rparr>))))))))))"

definition borrow :: "owner_id \<Rightarrow> borrow_mode \<Rightarrow> borrow_id lifecycle_m" where
  "borrow owner mode =
     sbind (require_active_owner owner) (\<lambda>_.
     sbind (get_owner owner) (\<lambda>w.
     sbind (sget (\<lambda>s. List.map_filter (map_of (lr_borrows s)) (ow_borrows w))) (\<lambda>existing.
     if (mode = Mutable \<or> list_ex (\<lambda>b. br_mode b = Mutable) existing) \<and> existing \<noteq> []
     then sfail (BorrowConflict owner)
     else
     sbind next_id (\<lambda>b.
     sbind (smodify (\<lambda>s. s\<lparr>lr_borrows := bt_insert b \<lparr>br_owner = owner, br_mode = mode\<rparr> (lr_borrows s)\<rparr>)) (\<lambda>_.
     sbind (owner_mut owner (\<lambda>w. w\<lparr>ow_borrows := bset_insert b (ow_borrows w)\<rparr>)) (\<lambda>_.
     sbind (get_owner owner) (\<lambda>w.
     sbind (record_op
         \<lparr>lo_operation = ''borrow'', lo_allocation_effect = None,
          lo_ownership_transfer = Some (''borrows:'' @ show_nat owner),
          lo_borrow_extent = Some (''begin:'' @ show_nat b), lo_cleanup_obligations = 1,
          lo_resource_authority = None, lo_source_provenance = ow_source_provenance w\<rparr>) (\<lambda>_.
     sret b))))))))"

definition end_borrow :: "borrow_id \<Rightarrow> unit lifecycle_m" where
  "end_borrow b =
     sbind (sget (\<lambda>s. map_of (lr_borrows s) b)) (\<lambda>found.
     case found of
       None \<Rightarrow> sfail (UnknownBorrow b)
     | Some rec \<Rightarrow>
         sbind (smodify (\<lambda>s. s\<lparr>lr_borrows := al_remove b (lr_borrows s)\<rparr>)) (\<lambda>_.
         sbind (owner_mut (br_owner rec) (\<lambda>w. w\<lparr>ow_borrows := filter (\<lambda>x. x \<noteq> b) (ow_borrows w)\<rparr>)) (\<lambda>_.
         sbind (get_owner (br_owner rec)) (\<lambda>w.
         record_op
           \<lparr>lo_operation = ''borrow-end'', lo_allocation_effect = None, lo_ownership_transfer = None,
            lo_borrow_extent = Some (''end:'' @ show_nat b), lo_cleanup_obligations = 1,
            lo_resource_authority = None, lo_source_provenance = ow_source_provenance w\<rparr>))))"

section \<open>Resources\<close>

definition open_resource :: "string \<Rightarrow> string option \<Rightarrow> resource_id lifecycle_m" where
  "open_resource capability source_provenance =
     sbind require_scope (\<lambda>_.
     sbind next_id (\<lambda>resource.
     sbind (smodify (\<lambda>s. s\<lparr>lr_resources := bt_insert resource
         \<lparr>rs_status = ResourceActive, rs_capability = capability,
          rs_source_provenance = source_provenance\<rparr> (lr_resources s)\<rparr>)) (\<lambda>_.
     sbind (scope_push (ResourceEntry resource)) (\<lambda>_.
     sbind (sget (\<lambda>s. map_option rs_capability (map_of (lr_resources s) resource))) (\<lambda>authority.
     sbind (record_op
         \<lparr>lo_operation = ''resource-open'', lo_allocation_effect = None,
          lo_ownership_transfer = Some (''creates:'' @ show_nat resource), lo_borrow_extent = None,
          lo_cleanup_obligations = 1, lo_resource_authority = authority,
          lo_source_provenance = source_provenance\<rparr>) (\<lambda>_.
     sret resource))))))"

definition move_resource :: "resource_id \<Rightarrow> resource_id lifecycle_m" where
  "move_resource source =
     sbind (require_active_resource source) (\<lambda>_.
     sbind (get_resource source) (\<lambda>previous.
     sbind next_id (\<lambda>moved.
     sbind (smodify (\<lambda>s. s\<lparr>lr_resources := bt_insert moved
         \<lparr>rs_status = ResourceActive, rs_capability = rs_capability previous,
          rs_source_provenance = rs_source_provenance previous\<rparr> (lr_resources s)\<rparr>)) (\<lambda>_.
     sbind (smodify (\<lambda>s. s\<lparr>lr_scopes :=
         map (replace_entry (ResourceEntry source) (ResourceEntry moved)) (lr_scopes s)\<rparr>)) (\<lambda>_.
     sbind (resource_mut source (\<lambda>r. r\<lparr>rs_status := ResourceMoved\<rparr>)) (\<lambda>_.
     sbind (record_op
         \<lparr>lo_operation = ''resource-move'', lo_allocation_effect = None,
          lo_ownership_transfer = Some (show_nat source @ ''->'' @ show_nat moved), lo_borrow_extent = None,
          lo_cleanup_obligations = 1, lo_resource_authority = Some (rs_capability previous),
          lo_source_provenance = rs_source_provenance previous\<rparr>) (\<lambda>_.
     sret moved)))))))"

definition use_resource :: "resource_id \<Rightarrow> unit lifecycle_m" where
  "use_resource resource =
     sbind (require_active_resource resource) (\<lambda>_.
     sbind (get_resource resource) (\<lambda>value.
     sbind (sget outstanding_cleanup_obligations) (\<lambda>obligations.
     record_op
         \<lparr>lo_operation = ''resource_use'', lo_allocation_effect = None,
          lo_ownership_transfer = Some (''preserves:'' @ show_nat resource), lo_borrow_extent = None,
          lo_cleanup_obligations = obligations, lo_resource_authority = Some (rs_capability value),
          lo_source_provenance = rs_source_provenance value\<rparr>)))"

definition close_resource :: "resource_id \<Rightarrow> unit lifecycle_m" where
  "close_resource resource =
     sbind (get_resource resource) (\<lambda>value.
     case rs_status value of
       ResourceActive \<Rightarrow>
         sbind (resource_mut resource (\<lambda>r. r\<lparr>rs_status := ResourceClosed\<rparr>)) (\<lambda>_.
         record_op
           \<lparr>lo_operation = ''resource-close'', lo_allocation_effect = None,
            lo_ownership_transfer = Some (''discharges:'' @ show_nat resource), lo_borrow_extent = None,
            lo_cleanup_obligations = 0, lo_resource_authority = Some (rs_capability value),
            lo_source_provenance = rs_source_provenance value\<rparr>)
     | ResourceClosed \<Rightarrow> sfail (DoubleClose resource)
     | ResourceMoved \<Rightarrow> sfail (ResourceUseAfterClose resource))"

definition drop_resource :: "resource_id \<Rightarrow> unit lifecycle_m" where
  "drop_resource resource =
     sbind (get_resource resource) (\<lambda>value.
     case rs_status value of
       ResourceActive \<Rightarrow> close_resource resource
     | ResourceClosed \<Rightarrow> sret ()
     | ResourceMoved \<Rightarrow> sfail (ResourceUseAfterClose resource))"

section \<open>Cleanup\<close>

text \<open>The first value a search finds in a list; the outer \<open>None\<close> is an exhausted bound.\<close>

fun first_some :: "('a \<Rightarrow> 'b option option) \<Rightarrow> 'a list \<Rightarrow> 'b option option" where
  "first_some f [] = Some None"
| "first_some f (x # xs) =
     (case f x of
        None \<Rightarrow> None
      | Some None \<Rightarrow> first_some f xs
      | Some (Some b) \<Rightarrow> Some (Some b))"

fun first_borrowed_in_subtree :: "nat \<Rightarrow> lifecycle_runtime \<Rightarrow> owner_id \<Rightarrow> owner_id option option" where
  "first_borrowed_in_subtree 0 s i = None"
| "first_borrowed_in_subtree (Suc n) s i =
     (case map_of (lr_owners s) i of
        None \<Rightarrow> Some None
      | Some w \<Rightarrow>
          if ow_borrows w \<noteq> [] then Some (Some i)
          else first_some (first_borrowed_in_subtree n s) (ow_children w))"

text \<open>A cleanup loop runs every action and remembers the first error.\<close>

fun cleanup_each :: "('x \<Rightarrow> unit lifecycle_m) \<Rightarrow> 'x list \<Rightarrow> lifecycle_error option \<Rightarrow>
    lifecycle_error option lifecycle_m" where
  "cleanup_each f [] first_error = sret first_error"
| "cleanup_each f (x # xs) first_error = (\<lambda>s.
     case f x s of
       (Done _, s') \<Rightarrow> cleanup_each f xs first_error s'
     | (Fail e, s') \<Rightarrow> cleanup_each f xs (case first_error of None \<Rightarrow> Some e | Some e' \<Rightarrow> Some e') s'
     | (Panicked, s') \<Rightarrow> (Panicked, s')
     | (OutOfFuel, s') \<Rightarrow> (OutOfFuel, s'))"

definition report :: "lifecycle_error option \<Rightarrow> unit lifecycle_m" where
  "report first_error = (case first_error of None \<Rightarrow> sret () | Some e \<Rightarrow> sfail e)"

fun drop_owner :: "nat \<Rightarrow> owner_id \<Rightarrow> unit lifecycle_m" where
  "drop_owner 0 owner s = (OutOfFuel, s)"
| "drop_owner (Suc n) owner s =
     sbind (get_owner owner) (\<lambda>owner_record.
     case ow_status owner_record of
       OwnerMoved \<Rightarrow> sfail (UseAfterMove owner)
     | OwnerDropped \<Rightarrow> sfail (DoubleFree owner)
     | OwnerActive \<Rightarrow>
         sbind (fuelled (\<lambda>s. first_borrowed_in_subtree (depth_bound s) s owner)) (\<lambda>found.
         case found of
           Some borrowed \<Rightarrow> sfail (BorrowStillActive borrowed)
         | None \<Rightarrow>
             let children = ow_children owner_record in
             sbind (case ow_parent owner_record of
                 None \<Rightarrow> sret ()
               | Some parent \<Rightarrow> owner_mut parent (\<lambda>w. w\<lparr>ow_children :=
                   filter (\<lambda>c. c \<noteq> owner) (ow_children w)\<rparr>)) (\<lambda>_.
             sbind (owner_mut owner (\<lambda>w. w\<lparr>ow_status := OwnerDropped\<rparr>)) (\<lambda>_.
             sbind (owner_mut owner (\<lambda>w. w\<lparr>ow_parent := None\<rparr>)) (\<lambda>_.
             sbind (set_parents None children) (\<lambda>_.
             sbind (cleanup_each (drop_owner n) (rev children) None) (\<lambda>first_error.
             sbind (smodify (\<lambda>s. s\<lparr>lr_allocations :=
                 al_remove (ow_allocation owner_record) (lr_allocations s)\<rparr>)) (\<lambda>_.
             sbind (remove_from_scopes owner) (\<lambda>_.
             sbind (sget outstanding_cleanup_obligations) (\<lambda>obligations.
             sbind (get_owner owner) (\<lambda>w.
             sbind (record_op
                 \<lparr>lo_operation = (if children \<noteq> [] then ''recursive_destroy'' else ''drop''),
                  lo_allocation_effect = Some ''release'',
                  lo_ownership_transfer = Some (''discharges:'' @ show_nat owner), lo_borrow_extent = None,
                  lo_cleanup_obligations = obligations, lo_resource_authority = None,
                  lo_source_provenance = ow_source_provenance w\<rparr>) (\<lambda>_.
             report first_error)))))))))))) s"

definition drop_value :: "owner_id \<Rightarrow> unit lifecycle_m" where
  "drop_value owner s = drop_owner (depth_bound s) owner s"

fun show_exit_reason :: "exit_reason \<Rightarrow> string" where
  "show_exit_reason NormalReturn = ''NormalReturn''"
| "show_exit_reason EarlyReturn = ''EarlyReturn''"
| "show_exit_reason ErrorReturn = ''ErrorReturn''"
| "show_exit_reason PanicUnwind = ''PanicUnwind''"
| "show_exit_reason Cancellation = ''Cancellation''"

fun entry_borrowed :: "lifecycle_runtime \<Rightarrow> scope_entry \<Rightarrow> owner_id option option" where
  "entry_borrowed s (OwnerEntry i) = first_borrowed_in_subtree (depth_bound s) s i"
| "entry_borrowed s (ResourceEntry i) = Some None"

fun drop_entry :: "scope_entry \<Rightarrow> unit lifecycle_m" where
  "drop_entry (OwnerEntry i) = drop_value i"
| "drop_entry (ResourceEntry i) = drop_resource i"

definition defer_operation :: "string \<Rightarrow> lifecycle_operation" where
  "defer_operation action =
     \<lparr>lo_operation = ''defer'', lo_allocation_effect = None, lo_ownership_transfer = None,
      lo_borrow_extent = None, lo_cleanup_obligations = 0, lo_resource_authority = Some action,
      lo_source_provenance = None\<rparr>"

definition exit_scope :: "exit_reason \<Rightarrow> unit lifecycle_m" where
  "exit_scope reason =
     sbind (sget lr_scopes) (\<lambda>scopes.
     if scopes = [] then sfail ScopeUnderflow
     else
     let scope = last scopes in
     sbind (fuelled (\<lambda>s. first_some (entry_borrowed s) (sc_entries scope))) (\<lambda>found.
     case found of
       Some borrowed \<Rightarrow> sfail (BorrowStillActive borrowed)
     | None \<Rightarrow>
         sbind (smodify (\<lambda>s. s\<lparr>lr_scopes := butlast scopes\<rparr>)) (\<lambda>_.
         sbind (smodify (\<lambda>s. s\<lparr>lr_operations :=
             lr_operations s @ map defer_operation (rev (sc_deferred scope))\<rparr>)) (\<lambda>_.
         sbind (cleanup_each drop_entry (rev (sc_entries scope)) None) (\<lambda>first_error.
         sbind (sget outstanding_cleanup_obligations) (\<lambda>obligations.
         sbind (record_op
             \<lparr>lo_operation = ''scope-exit'', lo_allocation_effect = None,
              lo_ownership_transfer = Some (show_exit_reason reason), lo_borrow_extent = None,
              lo_cleanup_obligations = obligations, lo_resource_authority = None,
              lo_source_provenance = None\<rparr>) (\<lambda>_.
         report first_error)))))))"

definition inspect :: "lifecycle_runtime \<Rightarrow> lifecycle_inspection" where
  "inspect s =
     \<lparr>li_allocations = sort_key ai_owner (map (\<lambda>(i, w).
        \<lparr>ai_owner = i,
         ai_layout = (case map_of (lr_allocations s) (ow_allocation w) of
            None \<Rightarrow> 0 | Some a \<Rightarrow> length (al_bytes a)),
         ai_active = (ow_status w = OwnerActive),
         ai_copyable = (case map_of (lr_allocations s) (ow_allocation w) of
            None \<Rightarrow> False | Some a \<Rightarrow> al_copyable a),
         ai_children = ow_children w,
         ai_outstanding_cleanup_obligation = (ow_status w = OwnerActive)\<rparr>) (lr_owners s)),
      li_resources = sort_key ri_resource (map (\<lambda>(i, r).
        \<lparr>ri_resource = i, ri_capability = rs_capability r,
         ri_active = (rs_status r = ResourceActive),
         ri_outstanding_cleanup_obligation = (rs_status r = ResourceActive)\<rparr>) (lr_resources s)),
      li_operations = lr_operations s\<rparr>"

end
