(* ===== verification/Lifecycle_Forest.thy ===== *)
theory Lifecycle_Forest
  imports Runtime_Lifecycle
begin

text \<open>
  The ownership forest of the lifecycle runtime: the child relation between active owners,
  subtrees as an inductive predicate, and what the recursive walks compute on them.
\<close>

section \<open>The child relation\<close>

type_synonym owner_map = "owner_id \<rightharpoonup> owner"

definition active :: "owner_map \<Rightarrow> owner_id \<Rightarrow> bool" where
  "active own i \<longleftrightarrow> (\<exists>w. own i = Some w \<and> ow_status w = OwnerActive)"

definition child_rel :: "owner_map \<Rightarrow> (owner_id \<times> owner_id) set" where
  "child_rel own = {(p, c). \<exists>w. own p = Some w \<and> ow_status w = OwnerActive \<and> c \<in> set (ow_children w)}"

text \<open>Active owners form a forest: parent and child links agree, siblings are distinct, and no
  owner is its own ancestor.\<close>

definition forest_inv :: "owner_map \<Rightarrow> bool" where
  "forest_inv own \<longleftrightarrow>
     (\<forall>i w p. own i = Some w \<longrightarrow> ow_status w = OwnerActive \<longrightarrow> ow_parent w = Some p \<longrightarrow> (p, i) \<in> child_rel own)
     \<and> (\<forall>p c. (p, c) \<in> child_rel own \<longrightarrow>
          (\<exists>w. own c = Some w \<and> ow_status w = OwnerActive \<and> ow_parent w = Some p))
     \<and> (\<forall>i w. own i = Some w \<longrightarrow> ow_status w = OwnerActive \<longrightarrow> distinct (ow_children w))
     \<and> acyclic (child_rel own)"

definition subtree :: "owner_map \<Rightarrow> owner_id \<Rightarrow> owner_id set" where
  "subtree own i = {d. (i, d) \<in> (child_rel own)\<^sup>*}"

lemma forest_inv_parent:
  assumes "forest_inv own" "(p, c) \<in> child_rel own"
  shows "\<exists>w. own c = Some w \<and> ow_status w = OwnerActive \<and> ow_parent w = Some p"
  using assms unfolding forest_inv_def by blast

lemma child_rel_unique:
  assumes "forest_inv own"
  shows "single_valued ((child_rel own)\<inverse>)"
proof (rule single_valuedI)
  fix c p q assume "(c, p) \<in> (child_rel own)\<inverse>" "(c, q) \<in> (child_rel own)\<inverse>"
  then show "p = q"
    using forest_inv_parent [OF assms, of p c] forest_inv_parent [OF assms, of q c] by auto
qed

lemma child_rel_active: "(p, c) \<in> child_rel own \<Longrightarrow> active own p"
  by (auto simp: child_rel_def active_def)

lemma child_active: "forest_inv own \<Longrightarrow> (p, c) \<in> child_rel own \<Longrightarrow> active own c"
  using forest_inv_parent by (fastforce simp: active_def)

lemma subtree_active:
  assumes "forest_inv own" "active own i" "d \<in> subtree own i"
  shows "active own d"
proof -
  have "(i, d) \<in> (child_rel own)\<^sup>*" using assms(3) by (simp add: subtree_def)
  then show ?thesis by cases (use assms(1,2) child_active in auto)
qed

lemma subtree_refl [simp]: "i \<in> subtree own i"
  by (simp add: subtree_def)

lemma finite_child_rel:
  assumes "finite (dom own)"
  shows "finite (child_rel own)"
proof -
  have "child_rel own \<subseteq> (\<Union>p \<in> dom own. {p} \<times> set (ow_children (the (own p))))"
    by (auto simp: child_rel_def)
  then show ?thesis by (rule finite_subset) (simp add: assms)
qed

lemma wf_child_rel: "finite (dom own) \<Longrightarrow> forest_inv own \<Longrightarrow> wf ((child_rel own)\<inverse>)"
  by (intro finite_acyclic_wf_converse finite_child_rel) (simp_all add: forest_inv_def)

text \<open>Two subtrees with a common node are nested.\<close>

lemma subtree_overlap:
  assumes "forest_inv own" "d \<in> subtree own a" "d \<in> subtree own b"
  shows "b \<in> subtree own a \<or> a \<in> subtree own b"
proof -
  have "(d, a) \<in> ((child_rel own)\<inverse>)\<^sup>*" "(d, b) \<in> ((child_rel own)\<inverse>)\<^sup>*"
    using assms(2,3) by (auto simp: subtree_def rtrancl_converse)
  then have "(a, b) \<in> ((child_rel own)\<inverse>)\<^sup>* \<or> (b, a) \<in> ((child_rel own)\<inverse>)\<^sup>*"
    using child_rel_unique [OF assms(1)] by (intro single_valued_confluent)
  then show ?thesis by (auto simp: subtree_def rtrancl_converse)
qed

lemma subtree_unfold:
  assumes "own i = Some w" "ow_status w = OwnerActive"
  shows "subtree own i = insert i (\<Union>c \<in> set (ow_children w). subtree own c)"
proof -
  have "(i, c) \<in> child_rel own \<longleftrightarrow> c \<in> set (ow_children w)" for c
    using assms by (auto simp: child_rel_def)
  then show ?thesis
    by (auto simp: subtree_def elim: converse_rtranclE intro: converse_rtrancl_into_rtrancl)
qed

lemma not_own_descendant:
  assumes "forest_inv own" "(p, c) \<in> child_rel own"
  shows "p \<notin> subtree own c"
  using assms rtrancl_into_trancl2 [OF assms(2), of p]
  by (auto simp: subtree_def forest_inv_def acyclic_def)

section \<open>Subtrees as lists of nodes\<close>

text \<open>\<open>forest own roots D\<close>: the subtrees of the roots consist of active owners, overlap nowhere,
  and together are \<open>D\<close>.\<close>

inductive forest :: "owner_map \<Rightarrow> owner_id list \<Rightarrow> owner_id set \<Rightarrow> bool" for own where
  forest_Nil: "forest own [] {}"
| forest_Cons: "own i = Some w \<Longrightarrow> ow_status w = OwnerActive \<Longrightarrow> forest own (ow_children w) D \<Longrightarrow>
    forest own is E \<Longrightarrow> i \<notin> D \<Longrightarrow> i \<notin> E \<Longrightarrow> D \<inter> E = {} \<Longrightarrow> forest own (i # is) (insert i (D \<union> E))"

inductive_cases forest_ConsE: "forest own (i # is) D"

inductive_simps forest_Nil_iff [simp]: "forest own [] D"

lemma forest_finite: "forest own is D \<Longrightarrow> finite D"
  by (induction rule: forest.induct) auto

lemma forest_roots: "forest own is D \<Longrightarrow> set is \<subseteq> D"
  by (induction rule: forest.induct) auto

lemma forest_active: "forest own is D \<Longrightarrow> i \<in> D \<Longrightarrow> active own i"
  by (induction rule: forest.induct) (auto simp: active_def)

lemma forest_dom: "forest own is D \<Longrightarrow> D \<subseteq> dom own"
  using forest_active by (fastforce simp: active_def)

lemma forest_cong:
  assumes "forest own is D"
    and "\<And>i w. i \<in> D \<Longrightarrow> own i = Some w \<Longrightarrow>
      \<exists>w'. own' i = Some w' \<and> ow_status w' = ow_status w \<and> ow_children w' = ow_children w"
  shows "forest own' is D"
  using assms
proof (induction rule: forest.induct)
  case forest_Nil
  show ?case by simp
next
  case (forest_Cons i w D "is" E)
  obtain w' where w': "own' i = Some w'" "ow_status w' = ow_status w" "ow_children w' = ow_children w"
    using forest_Cons.prems forest_Cons.hyps(1) by blast
  have "forest own' (ow_children w') D"
    unfolding w'(3) by (rule forest_Cons.IH) (use forest_Cons.prems in blast)
  moreover have "forest own' is E"
    by (rule forest_Cons.IH) (use forest_Cons.prems in blast)
  ultimately show ?case
    using w' forest_Cons.hyps by (intro forest.forest_Cons [of own' i w']) simp_all
qed

lemma forest_append:
  "forest own is D \<Longrightarrow> forest own js E \<Longrightarrow> D \<inter> E = {} \<Longrightarrow> forest own (is @ js) (D \<union> E)"
proof (induction rule: forest.induct)
  case forest_Nil
  then show ?case by simp
next
  case (forest_Cons i w D "is" D')
  have "forest own (i # is @ js) (insert i (D \<union> (D' \<union> E)))"
    using forest_Cons by (intro forest.forest_Cons) auto
  then show ?case by (simp add: Un_assoc)
qed

lemma forest_rev: "forest own is D \<Longrightarrow> forest own (rev is) D"
proof (induction rule: forest.induct)
  case forest_Nil
  then show ?case by simp
next
  case (forest_Cons i w D "is" E)
  have "forest own [i] (insert i D)"
    using forest.forest_Cons [OF forest_Cons.hyps(1-3) forest.forest_Nil] forest_Cons.hyps by simp
  then have "forest own (rev is @ [i]) (E \<union> insert i D)"
    using forest_Cons by (intro forest_append) auto
  then show ?case by (simp add: Un_commute)
qed

text \<open>Incomparable active owners span a forest.\<close>

definition incomparable :: "owner_map \<Rightarrow> owner_id set \<Rightarrow> bool" where
  "incomparable own A \<longleftrightarrow> (\<forall>i \<in> A. \<forall>j \<in> A. j \<in> subtree own i \<longrightarrow> i = j)"

lemma incomparable_disjoint:
  assumes "forest_inv own" "incomparable own A" "i \<in> A" "j \<in> A" "i \<noteq> j"
  shows "subtree own i \<inter> subtree own j = {}"
proof (rule ccontr)
  assume "subtree own i \<inter> subtree own j \<noteq> {}"
  then have "j \<in> subtree own i \<or> i \<in> subtree own j" using subtree_overlap [OF assms(1)] by blast
  then show False using assms(2-) by (auto simp: incomparable_def)
qed

lemma forest_list:
  assumes inv: "forest_inv own"
    and "\<forall>i \<in> set is. forest own [i] (subtree own i)" "distinct is" "incomparable own (set is)"
  shows "forest own is (\<Union>i \<in> set is. subtree own i)"
  using assms(2-)
proof (induction "is")
  case (Cons i "is")
  have "subtree own i \<inter> (\<Union>j \<in> set is. subtree own j) = {}"
    using incomparable_disjoint [OF inv Cons.prems(3), of i] Cons.prems(2) by auto
  moreover have "forest own is (\<Union>j \<in> set is. subtree own j)"
    by (rule Cons.IH) (use Cons.prems in \<open>auto simp: incomparable_def\<close>)
  ultimately show ?case
    using forest_append [of own "[i]" "subtree own i" "is"] Cons.prems(1) by simp
qed simp

lemma siblings_incomparable:
  assumes inv: "forest_inv own" and w: "own i = Some w" "ow_status w = OwnerActive"
  shows "incomparable own (set (ow_children w))"
  unfolding incomparable_def
proof (intro ballI impI, rule ccontr)
  fix c d assume c: "c \<in> set (ow_children w)" and d: "d \<in> set (ow_children w)"
    and sub: "d \<in> subtree own c" and "c \<noteq> d"
  have ic: "(i, c) \<in> child_rel own" and id: "(i, d) \<in> child_rel own"
    using w c d by (auto simp: child_rel_def)
  from sub \<open>c \<noteq> d\<close> obtain p where p: "(c, p) \<in> (child_rel own)\<^sup>*" "(p, d) \<in> child_rel own"
    by (auto simp: subtree_def elim: rtranclE)
  have "p = i" using forest_inv_parent [OF inv p(2)] forest_inv_parent [OF inv id] by auto
  with p(1) not_own_descendant [OF inv ic] show False by (simp add: subtree_def)
qed

lemma forest_single:
  assumes inv: "forest_inv own" and fin: "finite (dom own)"
  shows "active own i \<longrightarrow> forest own [i] (subtree own i)"
  using wf_child_rel [OF fin inv]
proof (induction i rule: wf_induct_rule)
  case (less i)
  show ?case
  proof
    assume "active own i"
    then obtain w where w: "own i = Some w" "ow_status w = OwnerActive" by (auto simp: active_def)
    have child: "(i, c) \<in> child_rel own" if "c \<in> set (ow_children w)" for c
      using that w by (auto simp: child_rel_def)
    have "forest own [c] (subtree own c)" if "c \<in> set (ow_children w)" for c
      using less child [OF that] forest_inv_parent [OF inv child [OF that]] by (auto simp: active_def)
    then have "forest own (ow_children w) (\<Union>c \<in> set (ow_children w). subtree own c)"
      using inv w siblings_incomparable [OF inv w]
      by (intro forest_list) (auto simp: forest_inv_def)
    moreover have "i \<notin> (\<Union>c \<in> set (ow_children w). subtree own c)"
      using not_own_descendant [OF inv child] by blast
    ultimately show "forest own [i] (subtree own i)"
      using forest.forest_Cons [of own i w _ "[]" "{}"] w by (simp add: subtree_unfold [of own i w])
  qed
qed

lemma forest_subtrees:
  assumes "forest_inv own" "finite (dom own)" "distinct is" "\<forall>i \<in> set is. active own i"
    "incomparable own (set is)"
  shows "forest own is (\<Union>i \<in> set is. subtree own i)"
  using assms forest_single by (intro forest_list) auto

lemma subtree_finite: "forest_inv own \<Longrightarrow> finite (dom own) \<Longrightarrow> active own i \<Longrightarrow> finite (subtree own i)"
  using forest_single forest_finite by blast

section \<open>The recursive walks\<close>

abbreviation owners :: "lifecycle_runtime \<Rightarrow> owner_map" where
  "owners s \<equiv> map_of (lr_owners s)"

definition unborrowed :: "owner_map \<Rightarrow> owner_id set \<Rightarrow> bool" where
  "unborrowed own D \<longleftrightarrow> (\<forall>i \<in> D. \<forall>w. own i = Some w \<longrightarrow> ow_borrows w = [])"

lemma unborrowed_Un [simp]: "unborrowed own (D \<union> E) \<longleftrightarrow> unborrowed own D \<and> unborrowed own E"
  by (auto simp: unborrowed_def)

text \<open>The search finds a borrowed owner exactly when there is one, and the bound is enough.\<close>

lemma first_borrowed_forest:
  assumes "forest (owners s) is D" "card D \<le> n"
  shows "\<exists>r. first_some (first_borrowed_in_subtree n s) is = Some r
    \<and> (r = None \<longleftrightarrow> unborrowed (owners s) D)
    \<and> (\<forall>b. r = Some b \<longrightarrow> b \<in> D \<and> (\<exists>w. owners s b = Some w \<and> ow_borrows w \<noteq> []))"
  using assms
proof (induction arbitrary: n rule: forest.induct)
  case forest_Nil
  then show ?case by (simp add: unborrowed_def)
next
  case (forest_Cons i w D "is" E)
  have fin: "finite D" "finite E" using forest_Cons.hyps forest_finite by blast+
  then have "Suc (card (D \<union> E)) \<le> n"
    using forest_Cons.prems forest_Cons.hyps by simp
  then obtain m where n: "n = Suc m" "card D \<le> m" "card E \<le> n"
    using fin card_mono [of "D \<union> E" D] card_mono [of "D \<union> E" E] by (cases n) auto
  obtain r where r: "first_some (first_borrowed_in_subtree m s) (ow_children w) = Some r"
      "r = None \<longleftrightarrow> unborrowed (owners s) D"
      "\<forall>b. r = Some b \<longrightarrow> b \<in> D \<and> (\<exists>w. owners s b = Some w \<and> ow_borrows w \<noteq> [])"
    using forest_Cons.IH(1) [OF n(2)] by blast
  obtain q where q: "first_some (first_borrowed_in_subtree n s) is = Some q"
      "q = None \<longleftrightarrow> unborrowed (owners s) E"
      "\<forall>b. q = Some b \<longrightarrow> b \<in> E \<and> (\<exists>w. owners s b = Some w \<and> ow_borrows w \<noteq> [])"
    using forest_Cons.IH(2) [OF n(3)] by blast
  have ins: "unborrowed (owners s) (insert i (D \<union> E)) \<longleftrightarrow>
      ow_borrows w = [] \<and> unborrowed (owners s) D \<and> unborrowed (owners s) E"
    using forest_Cons.hyps(1) by (auto simp: unborrowed_def)
  have head: "first_borrowed_in_subtree n s i = (if ow_borrows w \<noteq> [] then Some (Some i) else Some r)"
    using r(1) forest_Cons.hyps(1) n(1) by simp
  show ?case
    unfolding ins using r(2,3) q forest_Cons.hyps(1)
    by (cases r; cases "ow_borrows w = []") (auto simp: head)
qed

end
