(* ===== verification/Lifecycle_Cleanup.thy ===== *)
theory Lifecycle_Cleanup
  imports Lifecycle_Forest
begin

text \<open>
  What the cleanup operations do to the state. Dropping an unborrowed subtree marks its owners,
  releases their allocations and takes them out of the scopes; closing resources marks them;
  everything else stays. The closed form composes, so that a cleanup loop is the union of its
  steps.
\<close>

section \<open>The closed form of a cleanup\<close>

definition drop_mark :: "owner \<Rightarrow> owner" where
  "drop_mark w = w\<lparr>ow_status := OwnerDropped, ow_parent := None\<rparr>"

lemma drop_mark_simps [simp]:
  "drop_mark (drop_mark w) = drop_mark w"
  "drop_mark (w\<lparr>ow_parent := p\<rparr>) = drop_mark w"
  "ow_allocation (drop_mark w) = ow_allocation w"
  "ow_borrows (drop_mark w) = ow_borrows w"
  "ow_children (drop_mark w) = ow_children w"
  "ow_status (drop_mark w) = OwnerDropped"
  "ow_parent (drop_mark w) = None"
  by (simp_all add: drop_mark_def)

definition close_mark :: "resource \<Rightarrow> resource" where
  "close_mark r = (if rs_status r = ResourceActive then r\<lparr>rs_status := ResourceClosed\<rparr> else r)"

definition held_by :: "owner_map \<Rightarrow> owner_id set \<Rightarrow> nat set" where
  "held_by own D = {a. \<exists>i \<in> D. \<exists>w. own i = Some w \<and> ow_allocation w = a}"

definition strip_entries :: "owner_id set \<Rightarrow> scope \<Rightarrow> scope" where
  "strip_entries D sc = sc\<lparr>sc_entries := filter (\<lambda>e. e \<notin> OwnerEntry ` D) (sc_entries sc)\<rparr>"

definition released :: "owner_id set \<Rightarrow> resource_id set \<Rightarrow> lifecycle_runtime \<Rightarrow> lifecycle_runtime \<Rightarrow> bool" where
  "released D C s s' \<longleftrightarrow>
     lr_owners s' = al_mapk (\<lambda>i w. if i \<in> D then drop_mark w else w) (lr_owners s)
     \<and> lr_allocations s' = al_keep (\<lambda>a. a \<notin> held_by (owners s) D) (lr_allocations s)
     \<and> lr_scopes s' = map (strip_entries D) (lr_scopes s)
     \<and> lr_resources s' = al_mapk (\<lambda>i r. if i \<in> C then close_mark r else r) (lr_resources s)
     \<and> lr_next_id s' = lr_next_id s \<and> lr_allocation_limit s' = lr_allocation_limit s
     \<and> lr_borrows s' = lr_borrows s"

lemma strip_strip: "strip_entries D (strip_entries E sc) = strip_entries (E \<union> D) sc"
  by (simp add: strip_entries_def) (rule arg_cong [where f = "\<lambda>f. sc\<lparr>sc_entries := f\<rparr>"], rule filter_cong, auto)

lemma strip_empty [simp]: "strip_entries {} sc = sc"
  by (simp add: strip_entries_def)

lemma filter_entries_strip: "filter_entries i = strip_entries {i}"
  by (simp add: fun_eq_iff filter_entries_def strip_entries_def)

lemma close_mark_idem [simp]: "close_mark (close_mark r) = close_mark r"
  by (simp add: close_mark_def)

lemma held_by_empty [simp]: "held_by own {} = {}"
  by (simp add: held_by_def)

lemma released_same:
  "lr_owners s' = lr_owners s \<Longrightarrow> lr_allocations s' = lr_allocations s \<Longrightarrow> lr_scopes s' = lr_scopes s \<Longrightarrow>
   lr_resources s' = lr_resources s \<Longrightarrow> lr_next_id s' = lr_next_id s \<Longrightarrow>
   lr_allocation_limit s' = lr_allocation_limit s \<Longrightarrow> lr_borrows s' = lr_borrows s \<Longrightarrow> released {} {} s s'"
  by (simp add: released_def map_idI)

lemma held_by_released:
  assumes "released D C s s'"
  shows "held_by (owners s') E = held_by (owners s) E"
proof -
  have "(\<exists>w. owners s' i = Some w \<and> ow_allocation w = a) \<longleftrightarrow> (\<exists>w. owners s i = Some w \<and> ow_allocation w = a)" for i a
    using assms by (cases "owners s i") (auto simp: released_def)
  then show ?thesis unfolding held_by_def by simp
qed

lemma released_trans:
  assumes "released D C s s1" "released E B s1 s2"
  shows "released (D \<union> E) (C \<union> B) s s2"
proof -
  have "held_by (owners s) (D \<union> E) = held_by (owners s) D \<union> held_by (owners s) E"
    by (auto simp: held_by_def)
  moreover have "lr_owners s2 = al_mapk (\<lambda>i w. if i \<in> D \<union> E then drop_mark w else w) (lr_owners s)"
    using assms by (simp add: released_def al_mapk_mapk) (rule al_mapk_eqI, simp)
  moreover have "lr_resources s2 = al_mapk (\<lambda>i r. if i \<in> C \<union> B then close_mark r else r) (lr_resources s)"
    using assms by (simp add: released_def al_mapk_mapk) (rule al_mapk_eqI, simp)
  ultimately show ?thesis
    using assms held_by_released [OF assms(1)]
    by (simp add: released_def al_keep_keep strip_strip conj_commute)
qed

lemma released_owner_outside: "released D C s s' \<Longrightarrow> i \<notin> D \<Longrightarrow> owners s' i = owners s i"
  by (simp add: released_def option.map_ident)

lemma forest_released:
  assumes "released D C s s'" "forest (owners s) is E" "D \<inter> E = {}"
  shows "forest (owners s') is E"
proof (rule forest_cong [OF assms(2)])
  fix i w assume "i \<in> E" "owners s i = Some w"
  moreover from this have "owners s' i = owners s i"
    using assms(3) by (intro released_owner_outside [OF assms(1)]) blast
  ultimately show "\<exists>w'. owners s' i = Some w' \<and> ow_status w' = ow_status w \<and> ow_children w' = ow_children w"
    by simp
qed

section \<open>Dropping a subtree\<close>

lemma set_parents_eq:
  assumes "set cs \<subseteq> dom (owners s)"
  shows "set_parents p cs s = (Done (), s\<lparr>lr_owners :=
    al_mapk (\<lambda>i w. if i \<in> set cs then w\<lparr>ow_parent := p\<rparr> else w) (lr_owners s)\<rparr>)"
  using assms
proof (induction cs arbitrary: s)
  case Nil
  show ?case by (simp add: sret_def)
next
  case (Cons c cs)
  let ?s = "s\<lparr>lr_owners := al_modify c (\<lambda>w. w\<lparr>ow_parent := p\<rparr>) (lr_owners s)\<rparr>"
  have "set_parents p (c # cs) s = set_parents p cs ?s"
    using Cons.prems by (auto simp: sbind_def owner_mut_def get_owner_def sget_def smodify_def sret_def)
  also have "\<dots> = (Done (), ?s\<lparr>lr_owners :=
      al_mapk (\<lambda>i w. if i \<in> set cs then w\<lparr>ow_parent := p\<rparr> else w) (lr_owners ?s)\<rparr>)"
    using Cons.prems by (intro Cons.IH) auto
  also have "al_mapk (\<lambda>i w. if i \<in> set cs then w\<lparr>ow_parent := p\<rparr> else w) (lr_owners ?s)
      = al_mapk (\<lambda>i w. if i \<in> set (c # cs) then w\<lparr>ow_parent := p\<rparr> else w) (lr_owners s)"
    by (simp add: al_modify_mapk al_mapk_mapk) (rule al_mapk_eqI, simp)
  finally show ?case by simp
qed

text \<open>A loop over roots without parents, given what one step does.\<close>

lemma cleanup_each_released:
  assumes step: "\<And>i s D. forest (owners s) [i] D \<Longrightarrow> unborrowed (owners s) D \<Longrightarrow> card D \<le> n \<Longrightarrow>
      (\<forall>w. owners s i = Some w \<longrightarrow> ow_parent w = None) \<Longrightarrow>
      \<exists>s'. f i s = (Done (), s') \<and> released D {} s s'"
    and "forest (owners s) is E" "unborrowed (owners s) E" "card E \<le> n"
    and "\<forall>i \<in> set is. \<forall>w. owners s i = Some w \<longrightarrow> ow_parent w = None"
  shows "\<exists>s'. cleanup_each f is None s = (Done None, s') \<and> released E {} s s'"
  using assms(2-)
proof (induction "is" arbitrary: s E)
  case Nil
  then show ?case by (auto simp: sret_def intro: released_same)
next
  case (Cons i "is")
  from Cons.prems(1) obtain w A B where E: "E = insert i (A \<union> B)" "owners s i = Some w" "ow_status w = OwnerActive"
      "forest (owners s) (ow_children w) A" "forest (owners s) is B" "i \<notin> A" "i \<notin> B" "A \<inter> B = {}"
    by (auto elim: forest_ConsE)
  have fin: "finite A" "finite B" using E forest_finite by blast+
  have one: "forest (owners s) [i] (insert i A)"
    using forest_Cons [of "owners s" i w A "[]" "{}"] E by simp
  have "card (insert i A) \<le> card E" "card B \<le> card E"
    using fin by (auto simp only: E(1) finite_insert finite_Un intro!: card_mono)
  then have card: "card (insert i A) \<le> n" "card B \<le> n" using Cons.prems(3) by simp_all
  obtain s1 where s1: "f i s = (Done (), s1)" "released (insert i A) {} s s1"
    using step [OF one _ card(1)] Cons.prems(2,4) by (auto simp: E(1) unborrowed_def)
  have out: "owners s1 j = owners s j" if "j \<in> B" for j
    using that E(7,8) by (intro released_owner_outside [OF s1(2)]) auto
  have rest: "forest (owners s1) is B"
    using E(7,8) by (intro forest_released [OF s1(2) E(5)]) auto
  have "\<exists>s'. cleanup_each f is None s1 = (Done None, s') \<and> released B {} s1 s'"
  proof (rule Cons.IH [OF rest _ card(2)])
    show "unborrowed (owners s1) B" using Cons.prems(2) out by (auto simp: E(1) unborrowed_def)
    show "\<forall>j \<in> set is. \<forall>w. owners s1 j = Some w \<longrightarrow> ow_parent w = None"
      using Cons.prems(4) out forest_roots [OF E(5)] by auto
  qed
  then show ?case
    using s1 released_trans [OF s1(2)] by (fastforce simp: E(1))
qed

text \<open>Taking an owner out of its parent's children.\<close>

definition unlink :: "owner_id \<Rightarrow> lifecycle_runtime \<Rightarrow> lifecycle_runtime" where
  "unlink i s =
     (case owners s i of
        None \<Rightarrow> s
      | Some w \<Rightarrow>
          (case ow_parent w of
             None \<Rightarrow> s
           | Some p \<Rightarrow> s\<lparr>lr_owners := al_modify p (\<lambda>v. v\<lparr>ow_children := filter (\<lambda>c. c \<noteq> i) (ow_children v)\<rparr>)
               (lr_owners s)\<rparr>))"

lemma forest_card: "forest (owners s) is D \<Longrightarrow> card D < depth_bound s"
proof -
  assume "forest (owners s) is D"
  then have "card D \<le> card (dom (owners s))"
    by (intro card_mono finite_dom_map_of forest_dom)
  also have "\<dots> \<le> length (lr_owners s)"
    by (metis dom_map_of_conv_image_fst card_image_le finite_set card_length le_trans)
  finally show ?thesis by (simp add: depth_bound_def)
qed

text \<open>The state in which the children are dropped: the owner is marked, its children are roots.\<close>

definition orphan :: "owner_id \<Rightarrow> owner_id list \<Rightarrow> owner_id \<Rightarrow> owner \<Rightarrow> owner" where
  "orphan i cs j w =
     (let w' = (if j = i then drop_mark w else w) in
      if j \<in> set cs then w'\<lparr>ow_parent := None\<rparr> else w')"

definition orphaned :: "owner_id \<Rightarrow> owner_id list \<Rightarrow> lifecycle_runtime \<Rightarrow> lifecycle_runtime" where
  "orphaned i cs s = s\<lparr>lr_owners := al_mapk (orphan i cs) (lr_owners s)\<rparr>"

lemma drop_owner_prefix:
  assumes w: "owners s i = Some w" "ow_status w = OwnerActive"
    and found: "first_borrowed_in_subtree (depth_bound s) s i = Some None"
    and parent: "\<forall>p. ow_parent w = Some p \<longrightarrow> p \<in> dom (owners s) \<and> p \<noteq> i"
    and children: "set (ow_children w) \<subseteq> dom (owners s)"
    and loop: "cleanup_each (drop_owner n) (rev (ow_children w)) None
      (orphaned i (ow_children w) (unlink i s)) = (Done None, s1)"
    and w1: "owners s1 i = Some w1"
  shows "\<exists>ops. drop_owner (Suc n) i s = (Done (), s1\<lparr>
    lr_allocations := al_remove (ow_allocation w) (lr_allocations s1),
    lr_scopes := map (filter_entries i) (lr_scopes s1), lr_operations := ops\<rparr>)"
proof -
  let ?u = "unlink i s"
  have u: "owners ?u i = Some w" "dom (owners ?u) = dom (owners s)"
    using w parent by (auto simp: unlink_def split: option.splits)
  have kids: "\<forall>c \<in> set (ow_children w). \<exists>v. owners ?u c = Some v"
    using children u(2) by blast
  have o: "set_parents None (ow_children w) (?u\<lparr>lr_owners := al_modify i (\<lambda>w. w\<lparr>ow_parent := None\<rparr>)
        (al_modify i (\<lambda>w. w\<lparr>ow_status := OwnerDropped\<rparr>) (lr_owners ?u))\<rparr>)
      = (Done (), orphaned i (ow_children w) ?u)"
    using kids u
    by (subst set_parents_eq)
      (auto simp: orphaned_def al_modify_mapk al_mapk_mapk orphan_def drop_mark_def Let_def
        intro!: arg_cong [where f = "\<lambda>m. ?u\<lparr>lr_owners := m\<rparr>"] al_mapk_eqI)
  have unl: "(case ow_parent w of None \<Rightarrow> sret () | Some parent \<Rightarrow>
      owner_mut parent (\<lambda>w. w\<lparr>ow_children := filter (\<lambda>c. c \<noteq> i) (ow_children w)\<rparr>)) s = (Done (), ?u)"
    using w parent
    by (auto simp: unlink_def owner_mut_def get_owner_def sbind_def sget_def smodify_def sret_def split: option.splits)
  have marks: "owner_mut i (\<lambda>w. w\<lparr>ow_status := OwnerDropped\<rparr>) ?u
      = (Done (), ?u\<lparr>lr_owners := al_modify i (\<lambda>w. w\<lparr>ow_status := OwnerDropped\<rparr>) (lr_owners ?u)\<rparr>)"
    "owner_mut i (\<lambda>w. w\<lparr>ow_parent := None\<rparr>)
        (?u\<lparr>lr_owners := al_modify i (\<lambda>w. w\<lparr>ow_status := OwnerDropped\<rparr>) (lr_owners ?u)\<rparr>)
      = (Done (), ?u\<lparr>lr_owners := al_modify i (\<lambda>w. w\<lparr>ow_parent := None\<rparr>)
          (al_modify i (\<lambda>w. w\<lparr>ow_status := OwnerDropped\<rparr>) (lr_owners ?u))\<rparr>)"
    using u by (simp_all add: owner_mut_def get_owner_def sbind_def sget_def smodify_def sret_def)
  have g: "get_owner i s = (Done w, s)"
    using w by (simp add: get_owner_def sbind_def sget_def sret_def)
  show ?thesis
    using w w1
    by (simp add: sbind_def g fuelled_def found unl marks o loop Let_def smodify_def remove_from_scopes_def
        sget_def get_owner_def record_op_def report_def sret_def)
      (intro conjI impI exI, rule refl, rule refl)
qed

lemma orphaned_outside:
  "j \<noteq> i \<Longrightarrow> owners (orphaned i cs s) j = map_option (\<lambda>w. if j \<in> set cs then w\<lparr>ow_parent := None\<rparr> else w) (owners s j)"
  by (cases "owners s j") (simp_all add: orphaned_def orphan_def)

lemma unlink_other: "j \<noteq> i \<Longrightarrow> (\<forall>w. owners s i = Some w \<longrightarrow> ow_parent w \<noteq> Some j) \<Longrightarrow> owners (unlink i s) j = owners s j"
  by (auto simp: unlink_def split: option.splits)

lemma unlink_fields [simp]:
  "lr_allocations (unlink i s) = lr_allocations s" "lr_scopes (unlink i s) = lr_scopes s"
  "lr_resources (unlink i s) = lr_resources s" "lr_next_id (unlink i s) = lr_next_id s"
  "lr_allocation_limit (unlink i s) = lr_allocation_limit s" "lr_borrows (unlink i s) = lr_borrows s"
  by (auto simp: unlink_def split: option.splits)

lemma orphaned_fields [simp]:
  "lr_allocations (orphaned i cs s) = lr_allocations s" "lr_scopes (orphaned i cs s) = lr_scopes s"
  "lr_resources (orphaned i cs s) = lr_resources s" "lr_next_id (orphaned i cs s) = lr_next_id s"
  "lr_allocation_limit (orphaned i cs s) = lr_allocation_limit s" "lr_borrows (orphaned i cs s) = lr_borrows s"
  by (simp_all add: orphaned_def)

lemma held_by_orphaned: "held_by (owners (orphaned i cs s)) E = held_by (owners s) E"
proof -
  have "(\<exists>w. owners (orphaned i cs s) j = Some w \<and> ow_allocation w = a)
      \<longleftrightarrow> (\<exists>w. owners s j = Some w \<and> ow_allocation w = a)" for j a
    by (cases "owners s j") (auto simp: orphaned_def orphan_def Let_def)
  then show ?thesis unfolding held_by_def by simp
qed

lemma released_orphaned:
  assumes rel: "released E {} (orphaned i cs u) s1" and cs: "set cs \<subseteq> E" and w: "owners u i = Some w"
  shows "released (insert i E) {} u (s1\<lparr>
    lr_allocations := al_remove (ow_allocation w) (lr_allocations s1),
    lr_scopes := map (filter_entries i) (lr_scopes s1), lr_operations := ops\<rparr>)"
proof -
  have "lr_owners s1 = al_mapk (\<lambda>j w. if j \<in> insert i E then drop_mark w else w) (lr_owners u)"
    using rel cs by (auto simp: released_def orphaned_def al_mapk_mapk orphan_def Let_def intro!: al_mapk_eqI)
  moreover have "held_by (owners u) (insert i E) = insert (ow_allocation w) (held_by (owners u) E)"
    using w by (auto simp: held_by_def)
  ultimately show ?thesis
    using rel
    by (simp add: released_def held_by_orphaned al_remove_keep al_keep_keep filter_entries_strip strip_strip)
qed

lemma drop_owner_released:
  assumes "forest (owners s) [i] D" "unborrowed (owners s) D" "card D \<le> n"
    and "\<And>w p. owners s i = Some w \<Longrightarrow> ow_parent w = Some p \<Longrightarrow> p \<in> dom (owners s) - D"
  shows "\<exists>s'. drop_owner n i s = (Done (), s') \<and> released D {} (unlink i s) s'"
  using assms
proof (induction n arbitrary: s i D)
  case 0
  then have "D = {}" using forest_finite by fastforce
  with 0 show ?case by (auto elim: forest_ConsE)
next
  case (Suc n)
  from Suc.prems(1) obtain w A where w: "owners s i = Some w" "ow_status w = OwnerActive"
      and A: "forest (owners s) (ow_children w) A" "i \<notin> A" and D: "D = insert i A"
    by (auto elim!: forest_ConsE)
  let ?u = "unlink i s" and ?cs = "ow_children w"
  let ?s0 = "orphaned i ?cs ?u"
  have parent: "\<forall>p. ow_parent w = Some p \<longrightarrow> p \<in> dom (owners s) \<and> p \<noteq> i \<and> p \<notin> A"
    using Suc.prems(4) [OF w(1)] D by auto
  have u: "owners ?u j = owners s j" if "j \<in> D" for j
  proof (cases "j = i")
    case True
    with w parent show ?thesis by (auto simp: unlink_def split: option.splits)
  next
    case False
    then show ?thesis using w parent D that by (intro unlink_other) auto
  qed
  have s0: "owners ?s0 j = map_option (\<lambda>w. if j \<in> set ?cs then w\<lparr>ow_parent := None\<rparr> else w) (owners s j)"
    if "j \<in> A" for j
    using that A(2) u by (subst orphaned_outside) (auto simp: D)
  have "\<exists>s1. cleanup_each (drop_owner n) (rev ?cs) None ?s0 = (Done None, s1) \<and> released A {} ?s0 s1"
  proof (rule cleanup_each_released [where n = n])
    fix j t B assume *: "forest (owners t) [j] B" "unborrowed (owners t) B" "card B \<le> n"
      "\<forall>w. owners t j = Some w \<longrightarrow> ow_parent w = None"
    then have "unlink j t = t" by (auto simp: unlink_def split: option.splits)
    then show "\<exists>s'. drop_owner n j t = (Done (), s') \<and> released B {} t s'"
      using Suc.IH [OF *(1-3)] *(4) by auto
  next
    show "forest (owners ?s0) (rev ?cs) A"
      by (rule forest_rev, rule forest_cong [OF A(1)]) (auto simp: s0)
    show "unborrowed (owners ?s0) A" using Suc.prems(2) by (auto simp: unborrowed_def D s0)
    show "card A \<le> n" using Suc.prems(3) A forest_finite [OF A(1)] by (simp add: D)
    show "\<forall>j \<in> set (rev ?cs). \<forall>w. owners ?s0 j = Some w \<longrightarrow> ow_parent w = None"
      using forest_roots [OF A(1)] s0 by (auto simp: subset_iff)
  qed
  then obtain s1 where s1: "cleanup_each (drop_owner n) (rev ?cs) None ?s0 = (Done None, s1)"
      "released A {} ?s0 s1" by blast
  have "owners s1 i = owners ?s0 i" using A(2) by (rule released_owner_outside [OF s1(2)])
  then obtain w1 where w1: "owners s1 i = Some w1"
    using u [of i] w by (auto simp: D orphaned_def)
  have "card D < depth_bound s" by (rule forest_card [OF Suc.prems(1)])
  then have "first_borrowed_in_subtree (depth_bound s) s i = Some None"
    using first_borrowed_forest [OF Suc.prems(1), of "depth_bound s"] Suc.prems(2)
    by (auto split: option.splits)
  then obtain ops where "drop_owner (Suc n) i s = (Done (), s1\<lparr>
      lr_allocations := al_remove (ow_allocation w) (lr_allocations s1),
      lr_scopes := map (filter_entries i) (lr_scopes s1), lr_operations := ops\<rparr>)"
    using drop_owner_prefix [OF w _ _ _ s1(1) w1] parent forest_roots [OF A(1)] forest_dom [OF A(1)] by blast
  then show ?case
    using released_orphaned [OF s1(2) forest_roots [OF A(1)], of w] u [of i] w D by auto
qed

end
