(* ===== verification/Lifecycle_Invariant.thy ===== *)
theory Lifecycle_Invariant
  imports Lifecycle_Cleanup
begin

text \<open>
  The invariant of the lifecycle runtime and its preservation by every operation. An active owner
  has an allocation of its own, hangs below an active parent or stands in exactly one scope, and
  is the only holder of its borrows; an active resource stands in a scope. A failing operation
  leaves the runtime as it was.
\<close>

section \<open>The invariant\<close>

abbreviation allocations :: "lifecycle_runtime \<Rightarrow> nat \<rightharpoonup> allocation" where
  "allocations s \<equiv> map_of (lr_allocations s)"

abbreviation borrows :: "lifecycle_runtime \<Rightarrow> borrow_id \<rightharpoonup> borrow_record" where
  "borrows s \<equiv> map_of (lr_borrows s)"

abbreviation resources :: "lifecycle_runtime \<Rightarrow> resource_id \<rightharpoonup> resource" where
  "resources s \<equiv> map_of (lr_resources s)"

definition all_entries :: "scope list \<Rightarrow> scope_entry list" where
  "all_entries scopes = concat (map sc_entries scopes)"

definition ids_inv :: "lifecycle_runtime \<Rightarrow> bool" where
  "ids_inv s \<longleftrightarrow> (\<forall>i \<ge> lr_next_id s.
     owners s i = None \<and> allocations s i = None \<and> borrows s i = None \<and> resources s i = None)"

text \<open>What the invariant sees of the owners: who holds an allocation, whose borrows they are, and
  which owners are roots. An operation that keeps a view keeps what is said about it.\<close>

definition holds :: "owner_map \<Rightarrow> owner_id \<Rightarrow> nat \<Rightarrow> bool" where
  "holds own i a \<longleftrightarrow> (\<exists>w. own i = Some w \<and> ow_status w = OwnerActive \<and> ow_allocation w = a)"

definition borrows_of :: "owner_map \<Rightarrow> owner_id \<Rightarrow> borrow_id list" where
  "borrows_of own i = (case own i of None \<Rightarrow> [] | Some w \<Rightarrow> ow_borrows w)"

definition root :: "owner_map \<Rightarrow> owner_id \<Rightarrow> bool" where
  "root own i \<longleftrightarrow> (\<exists>w. own i = Some w \<and> ow_status w = OwnerActive \<and> ow_parent w = None)"

definition alloc_inv :: "(owner_id \<Rightarrow> nat \<Rightarrow> bool) \<Rightarrow> (nat \<rightharpoonup> allocation) \<Rightarrow> nat \<Rightarrow> bool" where
  "alloc_inv H allocs limit \<longleftrightarrow>
     (\<forall>a. allocs a \<noteq> None \<longleftrightarrow> (\<exists>i. H i a))
     \<and> (\<forall>i j a. H i a \<longrightarrow> H j a \<longrightarrow> i = j)
     \<and> (\<forall>a x. allocs a = Some x \<longrightarrow> length (al_bytes x) \<le> limit)
     \<and> limit \<le> isize_max"

definition borrow_inv :: "(owner_id \<Rightarrow> bool) \<Rightarrow> (owner_id \<Rightarrow> borrow_id list) \<Rightarrow> (borrow_id \<rightharpoonup> borrow_record) \<Rightarrow> bool" where
  "borrow_inv act bow bor \<longleftrightarrow>
     (\<forall>b r. bor b = Some r \<longrightarrow> act (br_owner r))
     \<and> (\<forall>i b. b \<in> set (bow i) \<longleftrightarrow> (\<exists>r. bor b = Some r \<and> br_owner r = i))
     \<and> (\<forall>b r. bor b = Some r \<longrightarrow> br_mode r = Mutable \<longrightarrow> bow (br_owner r) = [b])
     \<and> (\<forall>i. sorted_wrt (<) (bow i))"

definition scope_inv :: "(owner_id \<Rightarrow> bool) \<Rightarrow> (resource_id \<rightharpoonup> resource) \<Rightarrow> scope_entry list \<Rightarrow> bool" where
  "scope_inv rt res es \<longleftrightarrow>
     distinct es
     \<and> (\<forall>i. OwnerEntry i \<in> set es \<longleftrightarrow> rt i)
     \<and> (\<forall>r. ResourceEntry r \<in> set es \<longrightarrow> (\<exists>x. res r = Some x \<and> rs_status x \<noteq> ResourceMoved))
     \<and> (\<forall>r x. res r = Some x \<longrightarrow> rs_status x = ResourceActive \<longrightarrow> ResourceEntry r \<in> set es)"

definition maps_wf :: "lifecycle_runtime \<Rightarrow> bool" where
  "maps_wf s \<longleftrightarrow> bt_wf (lr_owners s) \<and> bt_wf (lr_allocations s) \<and> bt_wf (lr_borrows s) \<and> bt_wf (lr_resources s)"

definition lifecycle_inv :: "lifecycle_runtime \<Rightarrow> bool" where
  "lifecycle_inv s \<longleftrightarrow>
     maps_wf s \<and> ids_inv s \<and> forest_inv (owners s)
     \<and> alloc_inv (holds (owners s)) (allocations s) (lr_allocation_limit s)
     \<and> borrow_inv (active (owners s)) (borrows_of (owners s)) (borrows s)
     \<and> scope_inv (root (owners s)) (resources s) (all_entries (lr_scopes s))"

lemma lifecycle_invI:
  "maps_wf s \<Longrightarrow> ids_inv s \<Longrightarrow> forest_inv (owners s) \<Longrightarrow>
   alloc_inv (holds (owners s)) (allocations s) (lr_allocation_limit s) \<Longrightarrow> borrow_inv (active (owners s)) (borrows_of (owners s)) (borrows s) \<Longrightarrow>
   scope_inv (root (owners s)) (resources s) (all_entries (lr_scopes s)) \<Longrightarrow> lifecycle_inv s"
  by (simp add: lifecycle_inv_def)

lemma lifecycle_invD:
  assumes "lifecycle_inv s"
  shows "maps_wf s" "ids_inv s" "forest_inv (owners s)"
    "alloc_inv (holds (owners s)) (allocations s) (lr_allocation_limit s)" "borrow_inv (active (owners s)) (borrows_of (owners s)) (borrows s)"
    "scope_inv (root (owners s)) (resources s) (all_entries (lr_scopes s))"
  using assms by (simp_all add: lifecycle_inv_def)

text \<open>The log of operations is not constrained.\<close>

lemma lifecycle_inv_log [simp]: "lifecycle_inv (s\<lparr>lr_operations := ops\<rparr>) \<longleftrightarrow> lifecycle_inv s"
  by (simp add: lifecycle_inv_def maps_wf_def ids_inv_def)

lemma active_upd: "active (own(i \<mapsto> w)) j \<longleftrightarrow> (if j = i then ow_status w = OwnerActive else active own j)"
  by (simp add: active_def)

lemma holds_upd: "holds (own(i \<mapsto> w)) j a \<longleftrightarrow>
    (if j = i then ow_status w = OwnerActive \<and> ow_allocation w = a else holds own j a)"
  by (simp add: holds_def)

lemma borrows_of_upd: "borrows_of (own(i \<mapsto> w)) j = (if j = i then ow_borrows w else borrows_of own j)"
  by (simp add: borrows_of_def)

lemma root_upd: "root (own(i \<mapsto> w)) j \<longleftrightarrow>
    (if j = i then ow_status w = OwnerActive \<and> ow_parent w = None else root own j)"
  by (simp add: root_def)

lemmas views_upd = active_upd holds_upd borrows_of_upd root_upd

lemma views_None:
  assumes "own i = None"
  shows "\<not> active own i" "\<not> holds own i a" "borrows_of own i = []" "\<not> root own i"
  using assms by (simp_all add: active_def holds_def borrows_of_def root_def)

section \<open>Weakest preconditions of the helpers\<close>

lemma wp_next_id [wp_simps]:
  "wp next_id Q E s \<longleftrightarrow> lr_next_id s \<noteq> u64_max \<and> Q (lr_next_id s) (s\<lparr>lr_next_id := lr_next_id s + 1\<rparr>)"
  by (auto simp: next_id_def wp_simps)

lemma wp_record_op [wp_simps]: "wp (record_op op) Q E s = Q () (s\<lparr>lr_operations := lr_operations s @ [op]\<rparr>)"
  by (simp add: record_op_def wp_simps)

lemma wp_get_owner [wp_simps]:
  "wp (get_owner i) Q E s = (case owners s i of None \<Rightarrow> E (UnknownOwner i) s | Some w \<Rightarrow> Q w s)"
  by (simp add: get_owner_def wp_simps split: option.split)

lemma wp_owner_mut [wp_simps]:
  "wp (owner_mut i f) Q E s = (case owners s i of
      None \<Rightarrow> E (UnknownOwner i) s | Some w \<Rightarrow> Q () (s\<lparr>lr_owners := al_modify i f (lr_owners s)\<rparr>))"
  by (simp add: owner_mut_def wp_simps split: option.split)

lemma wp_require_active_owner [wp_simps]:
  "wp (require_active_owner i) Q E s = (case owners s i of
      None \<Rightarrow> E (UnknownOwner i) s
    | Some w \<Rightarrow> (case ow_status w of
          OwnerActive \<Rightarrow> Q () s | OwnerMoved \<Rightarrow> E (UseAfterMove i) s | OwnerDropped \<Rightarrow> E (UseAfterDrop i) s))"
  by (simp add: require_active_owner_def wp_simps split: option.split owner_status.split)

lemma wp_require_no_borrows [wp_simps]:
  "wp (require_no_borrows i) Q E s = (case owners s i of
      None \<Rightarrow> E (UnknownOwner i) s
    | Some w \<Rightarrow> if ow_borrows w = [] then Q () s else E (BorrowStillActive i) s)"
  by (simp add: require_no_borrows_def wp_simps split: option.split)

lemma wp_get_resource [wp_simps]:
  "wp (get_resource i) Q E s = (case resources s i of None \<Rightarrow> E (UnknownResource i) s | Some r \<Rightarrow> Q r s)"
  by (simp add: get_resource_def wp_simps split: option.split)

lemma wp_resource_mut [wp_simps]:
  "wp (resource_mut i f) Q E s = (case resources s i of
      None \<Rightarrow> E (UnknownResource i) s
    | Some r \<Rightarrow> Q () (s\<lparr>lr_resources := al_modify i f (lr_resources s)\<rparr>))"
  by (simp add: resource_mut_def wp_simps split: option.split)

lemma wp_require_active_resource [wp_simps]:
  "wp (require_active_resource i) Q E s = (case resources s i of
      None \<Rightarrow> E (UnknownResource i) s
    | Some r \<Rightarrow> if rs_status r = ResourceActive then Q () s else E (ResourceUseAfterClose i) s)"
  by (simp add: require_active_resource_def wp_simps split: option.split)

lemma wp_ensure_capacity [wp_simps]:
  "wp (ensure_capacity n) Q E s = (if n > lr_allocation_limit s
     then E (AllocationFailure n (lr_allocation_limit s)) s else Q () s)"
  by (simp add: ensure_capacity_def wp_simps)

lemma wp_require_scope [wp_simps]:
  "wp require_scope Q E s = (if lr_scopes s = [] then E NoActiveScope s else Q () s)"
  by (simp add: require_scope_def wp_simps)

definition pushed :: "scope_entry \<Rightarrow> scope list \<Rightarrow> scope list" where
  "pushed e scs = butlast scs @ [(last scs)\<lparr>sc_entries := sc_entries (last scs) @ [e]\<rparr>]"

lemma wp_scope_push [wp_simps]:
  "wp (scope_push e) Q E s = (if lr_scopes s = [] then E NoActiveScope s
     else Q () (s\<lparr>lr_scopes := pushed e (lr_scopes s)\<rparr>))"
  by (simp add: scope_push_def wp_simps pushed_def)

lemma wp_remove_from_scopes [wp_simps]:
  "wp (remove_from_scopes i) Q E s = Q () (s\<lparr>lr_scopes := map (strip_entries {i}) (lr_scopes s)\<rparr>)"
  by (simp add: remove_from_scopes_def wp_simps filter_entries_strip)

lemma wp_fuelled [wp_simps]: "wp (fuelled f) Q E s \<longleftrightarrow> (\<exists>a. f s = Some a \<and> Q a s)"
  by (auto simp: fuelled_def wp_def split: option.splits)

text \<open>Entries under the updates of the scopes.\<close>

lemma all_entries_snoc: "scs \<noteq> [] \<Longrightarrow> all_entries scs = all_entries (butlast scs) @ sc_entries (last scs)"
  by (induction scs) (auto simp: all_entries_def)

lemma all_entries_append [simp]: "all_entries (xs @ ys) = all_entries xs @ all_entries ys"
  by (simp add: all_entries_def)

lemma all_entries_single [simp]: "all_entries [sc] = sc_entries sc" "all_entries [] = []"
  by (simp_all add: all_entries_def)

lemma all_entries_pushed: "scs \<noteq> [] \<Longrightarrow> all_entries (pushed e scs) = all_entries scs @ [e]"
  by (simp add: pushed_def all_entries_snoc [of scs])

lemma all_entries_strip: "all_entries (map (strip_entries D) scs) = filter (\<lambda>e. e \<notin> OwnerEntry ` D) (all_entries scs)"
  by (simp add: all_entries_def filter_concat comp_def strip_entries_def)

lemma all_entries_replace:
  "all_entries (map (replace_entry old new) scs) = map (\<lambda>e. if e = old then new else e) (all_entries scs)"
  by (simp add: all_entries_def map_concat comp_def replace_entry_def)

end
