(* ===== verification/Lifecycle_Operations.thy ===== *)
theory Lifecycle_Operations
  imports Lifecycle_Invariant
begin

text \<open>
  Every operation of the lifecycle runtime keeps the invariant, and one that fails changes nothing.
\<close>

definition ids_left :: "lifecycle_runtime \<Rightarrow> bool" where
  "ids_left s \<longleftrightarrow> lr_next_id s + 2 \<le> u64_max"

definition keeps :: "'a lifecycle_m \<Rightarrow> bool" where
  "keeps op \<longleftrightarrow> (\<forall>s. lifecycle_inv s \<longrightarrow> ids_left s \<longrightarrow> wp op (\<lambda>_. lifecycle_inv) (\<lambda>_ s'. s' = s) s)"

lemma keepsI:
  "(\<And>s. lifecycle_inv s \<Longrightarrow> ids_left s \<Longrightarrow> wp op (\<lambda>_. lifecycle_inv) (\<lambda>_ s'. s' = s) s) \<Longrightarrow> keeps op"
  by (simp add: keeps_def)

lemma ids_left_next: "ids_left s \<Longrightarrow> lr_next_id s \<noteq> u64_max \<and> Suc (lr_next_id s) \<noteq> u64_max"
  by (auto simp: ids_left_def)

section \<open>Scopes\<close>

lemma keeps_enter_scope: "keeps enter_scope"
  by (rule keepsI) (simp add: enter_scope_def wp_simps lifecycle_inv_def maps_wf_def ids_inv_def)

lemma keeps_defer_action: "keeps (defer_action a)"
proof (rule keepsI)
  fix s assume inv: "lifecycle_inv s"
  have "all_entries (butlast scs @ [(last scs)\<lparr>sc_deferred := d\<rparr>]) = all_entries scs" if "scs \<noteq> []" for scs d
    by (simp add: all_entries_snoc [OF that])
  with inv show "wp (defer_action a) (\<lambda>_. lifecycle_inv) (\<lambda>_ s'. s' = s) s"
    by (simp add: defer_action_def wp_simps lifecycle_inv_def maps_wf_def ids_inv_def)
qed

section \<open>Allocations\<close>

text \<open>Adding a parentless owner of a fresh allocation.\<close>

definition with_owner :: "owner_id \<Rightarrow> nat \<Rightarrow> allocation \<Rightarrow> string option \<Rightarrow> lifecycle_runtime \<Rightarrow> lifecycle_runtime" where
  "with_owner i a x prov s = s\<lparr>
     lr_next_id := Suc i,
     lr_allocations := bt_insert a x (lr_allocations s),
     lr_owners := bt_insert i
       \<lparr>ow_allocation = a, ow_status = OwnerActive, ow_parent = None, ow_children = [],
        ow_borrows = [], ow_source_provenance = prov\<rparr> (lr_owners s),
     lr_scopes := pushed (OwnerEntry i) (lr_scopes s)\<rparr>"

lemma fresh_no_child:
  assumes "forest_inv own" "own i = None" "own p = Some w" "ow_status w = OwnerActive"
  shows "i \<notin> set (ow_children w)"
  using assms(2-) forest_inv_parent [OF assms(1), of p i] by (auto simp: child_rel_def)

lemma child_rel_insert_leaf:
  assumes "own i = None" "ow_children w = []"
  shows "child_rel (own(i \<mapsto> w)) = child_rel own"
  using assms by (auto simp: child_rel_def split: if_splits)

lemma forest_inv_insert_leaf:
  assumes inv: "forest_inv own" and "own i = None" "ow_children w = []" "ow_parent w = None"
  shows "forest_inv (own(i \<mapsto> w))"
proof -
  have "c \<noteq> i" if "(p, c) \<in> child_rel own" for p c
    using forest_inv_parent [OF inv that] assms(2) by auto
  then show ?thesis
    using inv assms(3,4) unfolding forest_inv_def child_rel_insert_leaf [of own i w, OF assms(2,3)]
    by (auto split: if_splits)
qed

lemma lifecycle_inv_with_owner:
  assumes inv: "lifecycle_inv s" and scopes: "lr_scopes s \<noteq> []"
    and a: "a = lr_next_id s" and i: "i = Suc a" and x: "length (al_bytes x) \<le> lr_allocation_limit s"
  shows "lifecycle_inv (with_owner i a x prov s)" (is "lifecycle_inv ?s")
proof (rule lifecycle_invI)
  note d = lifecycle_invD [OF inv]
  have wf: "bt_wf (lr_owners s)" "bt_wf (lr_allocations s)" using d(1) by (simp_all add: maps_wf_def)
  have fresh: "owners s i = None" "allocations s a = None"
    using d(2) by (simp_all add: ids_inv_def a i)
  let ?w = "\<lparr>ow_allocation = a, ow_status = OwnerActive, ow_parent = None, ow_children = [],
        ow_borrows = [], ow_source_provenance = prov\<rparr>"
  have own: "owners ?s = (owners s)(i \<mapsto> ?w)" and alloc: "allocations ?s = (allocations s)(a \<mapsto> x)"
    and rest: "borrows ?s = borrows s" "resources ?s = resources s" "lr_allocation_limit ?s = lr_allocation_limit s"
    using wf by (simp_all add: with_owner_def bt.get_insert)
  show "maps_wf ?s"
    using d(1) by (simp add: maps_wf_def with_owner_def bt.wf_insert)
  show "ids_inv ?s"
    using d(2) unfolding ids_inv_def own alloc rest by (simp add: with_owner_def a i)
  show "forest_inv (owners ?s)"
    unfolding own by (rule forest_inv_insert_leaf) (simp_all add: d(3) fresh)
  have "\<not> holds (owners s) j a" for j using d(4) fresh(2) unfolding alloc_inv_def by metis
  then show "alloc_inv (holds (owners ?s)) (allocations ?s) (lr_allocation_limit ?s)"
    using d(4) x views_None [of "owners s" i] fresh(1) unfolding own alloc rest alloc_inv_def holds_upd
    by (auto, metis)
  show "borrow_inv (active (owners ?s)) (borrows_of (owners ?s)) (borrows ?s)"
    using d(5) views_None [of "owners s" i] fresh(1) unfolding own rest borrow_inv_def views_upd by auto
  show "scope_inv (root (owners ?s)) (resources ?s) (all_entries (lr_scopes ?s))"
    using d(6) views_None [of "owners s" i] fresh(1) scopes unfolding own rest scope_inv_def views_upd
    by (auto simp: with_owner_def all_entries_pushed)
qed

lemma wp_allocate_with_source:
  assumes inv: "lifecycle_inv s" and ids: "ids_left s"
    and post: "\<And>s'. lifecycle_inv s' \<Longrightarrow>
      s' = (with_owner (Suc (lr_next_id s)) (lr_next_id s) \<lparr>al_bytes = replicate layout 0, al_copyable = c\<rparr> prov s)
        \<lparr>lr_operations := lr_operations s'\<rparr> \<Longrightarrow>
      lr_scopes s \<noteq> [] \<Longrightarrow> layout \<le> lr_allocation_limit s \<Longrightarrow> Q (Suc (lr_next_id s)) s'"
  shows "wp (allocate_with_source layout c prov) Q (\<lambda>_ s'. s' = s) s"
proof (cases "lr_scopes s = [] \<or> layout > lr_allocation_limit s")
  case True
  then show ?thesis by (auto simp: allocate_with_source_def wp_simps)
next
  case False
  let ?a = "lr_next_id s" and ?x = "\<lparr>al_bytes = replicate layout (0 :: byte), al_copyable = c\<rparr>"
  have "lr_allocation_limit s \<le> isize_max" using lifecycle_invD(4) [OF inv] by (simp add: alloc_inv_def)
  moreover have "Q (Suc ?a) ((with_owner (Suc ?a) ?a ?x prov s)\<lparr>lr_operations := ops\<rparr>)" for ops
    using False lifecycle_inv_with_owner [OF inv _ refl refl, of ?x prov] by (intro post) simp_all
  ultimately show ?thesis
    using False ids_left_next [OF ids]
    by (simp add: allocate_with_source_def wp_simps with_owner_def)
qed

lemma keeps_allocate: "keeps (allocate_with_source layout c prov)"
  by (rule keepsI) (rule wp_allocate_with_source)

text \<open>Changing the bytes of an allocation within the limit.\<close>

lemma lifecycle_inv_bytes:
  assumes inv: "lifecycle_inv s" and len: "\<And>x. allocations s a = Some x \<Longrightarrow> length (al_bytes (f x)) \<le> lr_allocation_limit s"
  shows "lifecycle_inv (s\<lparr>lr_allocations := al_modify a f (lr_allocations s)\<rparr>)" (is "lifecycle_inv ?s")
proof -
  note d = lifecycle_invD [OF inv]
  have alloc: "allocations ?s b = (if b = a then map_option f (allocations s a) else allocations s b)" for b
    by simp
  have "alloc_inv (holds (owners s)) (allocations ?s) (lr_allocation_limit s)"
    using d(4) len unfolding alloc_inv_def alloc by (auto split: if_splits)
  then show ?thesis
    using d by (intro lifecycle_invI) (simp_all add: maps_wf_def ids_inv_def)
qed

lemma active_allocation:
  assumes "lifecycle_inv s" "owners s i = Some w" "ow_status w = OwnerActive"
  shows "\<exists>x. allocations s (ow_allocation w) = Some x \<and> length (al_bytes x) \<le> lr_allocation_limit s
    \<and> lr_allocation_limit s \<le> isize_max"
proof -
  have "holds (owners s) i (ow_allocation w)" using assms(2,3) by (simp add: holds_def)
  then show ?thesis
    using lifecycle_invD(4) [OF assms(1)] unfolding alloc_inv_def by (metis not_None_eq)
qed

text \<open>An operation on an owner goes on only with an active one, which has an allocation.\<close>

lemma wp_active_bind:
  assumes inv: "lifecycle_inv s"
    and ok: "\<And>w x. owners s i = Some w \<Longrightarrow> ow_status w = OwnerActive \<Longrightarrow>
      allocations s (ow_allocation w) = Some x \<Longrightarrow> length (al_bytes x) \<le> lr_allocation_limit s \<Longrightarrow>
      lr_allocation_limit s \<le> isize_max \<Longrightarrow> wp (f ()) Q E s"
    and err: "\<And>e. E e s"
  shows "wp (sbind (require_active_owner i) f) Q E s"
proof (cases "active (owners s) i")
  case True
  then obtain w where w: "owners s i = Some w" "ow_status w = OwnerActive" by (auto simp: active_def)
  with active_allocation [OF inv w] ok [OF w] show ?thesis by (auto simp: wp_simps)
next
  case False
  then show ?thesis
    using err by (auto simp: wp_simps active_def split: option.splits owner_status.splits)
qed

lemma keeps_resize: "keeps (resize i layout)"
proof (rule keepsI)
  fix s assume inv: "lifecycle_inv s"
  have bytes: "lifecycle_inv (s\<lparr>lr_allocations := al_modify a (\<lambda>x. x\<lparr>al_bytes := vec_resize layout (al_bytes x)\<rparr>)
        (lr_allocations s)\<rparr>)" if "layout \<le> lr_allocation_limit s" for a
    using that by (intro lifecycle_inv_bytes [OF inv]) (simp add: vec_resize_def)
  show "wp (resize i layout) (\<lambda>_. lifecycle_inv) (\<lambda>_ s'. s' = s) s"
    unfolding resize_def
  proof (rule wp_active_bind [OF inv], goal_cases)
    case (1 w x)
    with bytes show ?case by (simp add: wp_simps)
  qed simp
qed

lemma saturating_add_exact:
  "usize_saturating_add a b \<le> n \<Longrightarrow> n \<le> isize_max \<Longrightarrow> usize_saturating_add a b = a + b"
  by (auto simp: usize_saturating_add_def usize_max_def isize_max_def min_def split: if_splits)

lemma keeps_write: "keeps (write_bytes i offset bytes)"
proof (rule keepsI)
  fix s assume inv: "lifecycle_inv s"
  have bytes: "lifecycle_inv (s\<lparr>lr_allocations := al_modify a
          (\<lambda>x. x\<lparr>al_bytes := take offset (al_bytes x) @ bytes @ drop (offset + length bytes) (al_bytes x)\<rparr>)
        (lr_allocations s)\<rparr>)" if "allocations s a = Some x" "offset + length bytes \<le> length (al_bytes x)"
        "length (al_bytes x) \<le> lr_allocation_limit s" for a x
    using that by (intro lifecycle_inv_bytes [OF inv]) simp
  show "wp (write_bytes i offset bytes) (\<lambda>_. lifecycle_inv) (\<lambda>_ s'. s' = s) s"
    unfolding write_bytes_def
  proof (rule wp_active_bind [OF inv], goal_cases)
    case (1 w x)
    show ?case
    proof (cases "usize_saturating_add offset (length bytes) \<le> length (al_bytes x)")
      case True
      with 1 saturating_add_exact [OF True] bytes [OF 1(3)] show ?thesis by (simp add: wp_simps)
    next
      case False
      with 1 show ?thesis by (simp add: wp_simps)
    qed
  qed simp
qed

lemma keeps_read: "keeps (read_bytes i offset len)"
proof (rule keepsI)
  fix s assume inv: "lifecycle_inv s"
  then show "wp (read_bytes i offset len) (\<lambda>_. lifecycle_inv) (\<lambda>_ s'. s' = s) s"
    unfolding read_bytes_def by (intro wp_active_bind) (simp_all add: wp_simps Let_def)
qed

lemma keeps_copy: "keeps (copy_value i)"
proof (rule keepsI)
  fix s assume inv: "lifecycle_inv s"
  then show "wp (copy_value i) (\<lambda>_. lifecycle_inv) (\<lambda>_ s'. s' = s) s"
    unfolding copy_value_def by (intro wp_active_bind) (simp_all add: wp_simps)
qed

lemma keeps_clone: "keeps (clone_value i)"
proof (rule keepsI)
  fix s assume inv: "lifecycle_inv s" and ids: "ids_left s"
  note wf = lifecycle_invD(1) [OF inv, unfolded maps_wf_def]
  have fresh: "owners s (Suc (lr_next_id s)) = None" using lifecycle_invD(2) [OF inv] by (simp add: ids_inv_def)
  show "wp (clone_value i) (\<lambda>_. lifecycle_inv) (\<lambda>_ s'. s' = s) s"
    unfolding clone_value_def
  proof (rule wp_active_bind [OF inv], goal_cases)
    case (1 w x)
    let ?body = "\<lambda>cloned. sbind (get_owner cloned) (\<lambda>c.
       sbind (sget (\<lambda>s. allocations s (ow_allocation c))) (\<lambda>found'.
       sbind (sexpect found') (\<lambda>target.
       if length (al_bytes target) \<noteq> length (al_bytes x) then spanic
       else
       sbind (smodify (\<lambda>s. s\<lparr>lr_allocations := al_modify (ow_allocation c)
           (\<lambda>a. a\<lparr>al_bytes := al_bytes x\<rparr>) (lr_allocations s)\<rparr>)) (\<lambda>_.
       sbind (get_owner i) (\<lambda>w.
       sbind (record_op
           \<lparr>lo_operation = ''clone'', lo_allocation_effect = Some ''clone'',
            lo_ownership_transfer = Some (''distinct:'' @ show_nat cloned), lo_borrow_extent = None,
            lo_cleanup_obligations = 2, lo_resource_authority = None,
            lo_source_provenance = ow_source_provenance w\<rparr>) (\<lambda>_.
       sret cloned))))))"
    have "wp (sbind (allocate_with_source (length (al_bytes x)) (al_copyable x) (ow_source_provenance w)) ?body)
        (\<lambda>_. lifecycle_inv) (\<lambda>_ s'. s' = s) s"
      unfolding wp_sbind
    proof (rule wp_allocate_with_source [OF inv ids], goal_cases)
      case (1 s')
      let ?n = "lr_next_id s"
      have own: "owners s' (Suc ?n) = Some \<lparr>ow_allocation = ?n, ow_status = OwnerActive, ow_parent = None,
          ow_children = [], ow_borrows = [], ow_source_provenance = ow_source_provenance w\<rparr>"
        and alloc: "allocations s' ?n = Some \<lparr>al_bytes = replicate (length (al_bytes x)) 0, al_copyable = al_copyable x\<rparr>"
        and old: "owners s' i = Some w" and lim: "lr_allocation_limit s' = lr_allocation_limit s"
        using \<open>owners s i = Some w\<close> fresh wf
        by (subst 1(2), auto simp: with_owner_def bt.get_insert)+
      have "lifecycle_inv (s'\<lparr>lr_allocations := al_modify ?n (\<lambda>a. a\<lparr>al_bytes := al_bytes x\<rparr>) (lr_allocations s')\<rparr>)"
        using \<open>length (al_bytes x) \<le> _\<close> by (intro lifecycle_inv_bytes [OF 1(1)]) (simp add: lim)
      then show ?case using own alloc old by (simp add: wp_simps)
    qed
    with 1 show ?case by (simp add: wp_simps)
  qed simp
qed

end
