(* ===== verification/Lifecycle_Ownership.thy ===== *)
theory Lifecycle_Ownership
  imports Lifecycle_Operations
begin

text \<open>
  The operations on ownership (attaching, moving, borrowing) and on resources keep the invariant.
\<close>

section \<open>Updates that keep the shape of the forest\<close>

definition shape :: "owner_map \<Rightarrow> owner_id \<Rightarrow> (owner_status \<times> owner_id option \<times> owner_id list) option" where
  "shape own i = map_option (\<lambda>w. (ow_status w, ow_parent w, ow_children w)) (own i)"

lemma shape_Some:
  "shape own i = Some (t, p, cs) \<longleftrightarrow> (\<exists>w. own i = Some w \<and> ow_status w = t \<and> ow_parent w = p \<and> ow_children w = cs)"
  by (auto simp: shape_def)

lemma child_rel_shape: "(p, c) \<in> child_rel own \<longleftrightarrow> (\<exists>q cs. shape own p = Some (OwnerActive, q, cs) \<and> c \<in> set cs)"
  by (auto simp: child_rel_def shape_Some)

lemma active_shape: "active own i \<longleftrightarrow> (\<exists>q cs. shape own i = Some (OwnerActive, q, cs))"
  by (auto simp: active_def shape_Some)

lemma root_shape: "root own i \<longleftrightarrow> (\<exists>cs. shape own i = Some (OwnerActive, None, cs))"
  by (auto simp: root_def shape_Some)

lemma forest_inv_shape:
  "forest_inv own \<longleftrightarrow>
     (\<forall>i p cs. shape own i = Some (OwnerActive, Some p, cs) \<longrightarrow> (p, i) \<in> child_rel own)
     \<and> (\<forall>p c. (p, c) \<in> child_rel own \<longrightarrow> (\<exists>cs. shape own c = Some (OwnerActive, Some p, cs)))
     \<and> (\<forall>i p cs. shape own i = Some (OwnerActive, p, cs) \<longrightarrow> distinct cs)
     \<and> acyclic (child_rel own)"
  unfolding forest_inv_def shape_Some by (intro conj_cong; blast)

lemma forest_parent_iff:
  assumes inv: "forest_inv own" and sh: "shape own j = Some (OwnerActive, q, cs)"
  shows "(p, j) \<in> child_rel own \<longleftrightarrow> q = Some p"
proof
  assume "(p, j) \<in> child_rel own"
  then obtain cs' where "shape own j = Some (OwnerActive, Some p, cs')"
    using inv unfolding forest_inv_shape by blast
  with sh show "q = Some p" by simp
next
  assume "q = Some p"
  with inv sh show "(p, j) \<in> child_rel own" unfolding forest_inv_shape by blast
qed

lemma same_shape:
  assumes "shape own' = shape own"
  shows "forest_inv own' = forest_inv own" "active own' = active own" "root own' = root own"
proof -
  have rel: "child_rel own' = child_rel own" using assms by (auto simp: child_rel_shape)
  show "forest_inv own' = forest_inv own" unfolding forest_inv_shape rel assms ..
  show "active own' = active own" "root own' = root own"
    using assms by (simp_all add: fun_eq_iff active_shape root_shape)
qed

lemma shape_upd: "shape (own(i \<mapsto> w)) = (shape own)(i \<mapsto> (ow_status w, ow_parent w, ow_children w))"
  by (auto simp: shape_def fun_eq_iff)

section \<open>Borrowing\<close>

lemma existing_borrows:
  assumes "borrow_inv act (borrows_of own) bor" "own i = Some w"
  shows "List.map_filter bor (ow_borrows w) = [] \<longleftrightarrow> ow_borrows w = []"
    and "b \<in> set (List.map_filter bor (ow_borrows w)) \<longleftrightarrow> (\<exists>k. bor k = Some b \<and> br_owner b = i)"
proof -
  have "borrows_of own i = ow_borrows w" using assms(2) by (simp add: borrows_of_def)
  then have *: "k \<in> set (ow_borrows w) \<longleftrightarrow> (\<exists>r. bor k = Some r \<and> br_owner r = i)" for k
    using assms(1) unfolding borrow_inv_def by metis
  have "set (List.map_filter bor (ow_borrows w)) = {r. \<exists>k \<in> set (ow_borrows w). bor k = Some r}"
    by (auto simp: map_filter_def) force+
  with * show "b \<in> set (List.map_filter bor (ow_borrows w)) \<longleftrightarrow> (\<exists>k. bor k = Some b \<and> br_owner b = i)" by auto
  show "List.map_filter bor (ow_borrows w) = [] \<longleftrightarrow> ow_borrows w = []"
  proof (cases "ow_borrows w")
    case (Cons k ks)
    then obtain r where "bor k = Some r" using * [of k] by auto
    with Cons show ?thesis by (simp add: map_filter_simps)
  qed (simp add: map_filter_simps)
qed

lemma borrow_inv_listed: "borrow_inv act bow bor \<Longrightarrow> bor b = Some r \<Longrightarrow> b \<in> set (bow (br_owner r))"
  by (auto simp: borrow_inv_def)

lemma borrow_inv_active:
  "borrow_inv act bow bor \<Longrightarrow> (\<And>b r. bor b = Some r \<Longrightarrow> act (br_owner r) \<Longrightarrow> act' (br_owner r)) \<Longrightarrow>
    borrow_inv act' bow bor"
  by (simp add: borrow_inv_def)

lemma borrow_inv_begin:
  assumes inv: "borrow_inv act bow bor" and fresh: "bor b = None" and "act i"
    and excl: "m = Mutable \<or> (\<exists>k r. bor k = Some r \<and> br_owner r = i \<and> br_mode r = Mutable) \<Longrightarrow> bow i = []"
  shows "borrow_inv act (bow(i := bset_insert b (bow i))) (bor(b \<mapsto> \<lparr>br_owner = i, br_mode = m\<rparr>))"
proof -
  have iff: "k \<in> set (bow j) \<longleftrightarrow> (\<exists>r. bor k = Some r \<and> br_owner r = j)" for k j
    using inv by (simp add: borrow_inv_def)
  have other: "bow (br_owner r) = [k] \<and> br_owner r \<noteq> i" if "bor k = Some r" "br_mode r = Mutable" for k r
  proof -
    have "bow (br_owner r) = [k]" using inv that by (simp add: borrow_inv_def)
    moreover have "bow i = []" if "br_owner r = i"
      using excl \<open>bor k = Some r\<close> \<open>br_mode r = Mutable\<close> that by blast
    ultimately show ?thesis by auto
  qed
  have "bow i = []" if "m = Mutable" using excl that by blast
  with other show ?thesis
    using inv assms(2,3) iff by (auto simp: borrow_inv_def sorted_bset_insert)
qed

lemma borrow_inv_end:
  assumes inv: "borrow_inv act bow bor" and b: "bor b = Some rec"
  shows "borrow_inv act (bow(br_owner rec := filter (\<lambda>x. x \<noteq> b) (bow (br_owner rec)))) (bor(b := None))"
proof -
  have iff: "k \<in> set (bow j) \<longleftrightarrow> (\<exists>r. bor k = Some r \<and> br_owner r = j)" for k j
    using inv by (simp add: borrow_inv_def)
  have "b \<noteq> k \<and> bow (br_owner r) = [k] \<longrightarrow> br_owner r \<noteq> br_owner rec" if "bor k = Some r" for k r
    using iff [of b "br_owner rec"] b by auto
  then show ?thesis
    using inv iff b by (auto simp: borrow_inv_def sorted_wrt_filter)
qed

text \<open>Replacing the borrows of an owner.\<close>

lemma lifecycle_inv_borrows:
  assumes inv: "lifecycle_inv s" and w: "owners s i = Some w"
    and bor: "borrow_inv (active (owners s)) ((borrows_of (owners s))(i := f (ow_borrows w))) (map_of bs)"
    and wf: "bt_wf bs" and ids: "\<forall>b \<ge> n. map_of bs b = None" "lr_next_id s \<le> n"
  shows "lifecycle_inv (s\<lparr>lr_next_id := n, lr_borrows := bs,
    lr_owners := al_modify i (\<lambda>w. w\<lparr>ow_borrows := f (ow_borrows w)\<rparr>) (lr_owners s)\<rparr>)" (is "lifecycle_inv ?s")
proof -
  note d = lifecycle_invD [OF inv]
  have own: "owners ?s = (owners s)(i \<mapsto> w\<lparr>ow_borrows := f (ow_borrows w)\<rparr>)"
    using w by (simp add: fun_eq_iff)
  have "shape (owners ?s) = shape (owners s)"
    unfolding own using w by (auto simp: shape_def fun_eq_iff)
  note sh = same_shape [OF this]
  have "holds (owners ?s) = holds (owners s)" "borrows_of (owners ?s) = (borrows_of (owners s))(i := f (ow_borrows w))"
    unfolding own using w by (auto simp: fun_eq_iff holds_def borrows_of_def)
  note views = sh this
  have "owners ?s j = None" if "n \<le> j" for j
    using d(2) ids(2) that w unfolding own by (auto simp: ids_inv_def)
  then have "ids_inv ?s"
    using d(2) ids unfolding ids_inv_def by (auto simp del: map_of_modify)
  moreover have "maps_wf ?s" using d(1) wf by (simp add: maps_wf_def)
  ultimately show ?thesis
    by (intro lifecycle_invI) (simp_all only: views, use d bor in simp_all)
qed

lemma keeps_borrow: "keeps (borrow i m)"
proof (rule keepsI)
  fix s assume inv: "lifecycle_inv s" and ids: "ids_left s"
  note d = lifecycle_invD [OF inv]
  let ?b = "lr_next_id s"
  have fresh: "borrows s ?b = None" using d(2) by (simp add: ids_inv_def)
  have wf: "bt_wf (lr_borrows s)" using d(1) by (simp add: maps_wf_def)
  show "wp (borrow i m) (\<lambda>_. lifecycle_inv) (\<lambda>_ s'. s' = s) s"
    unfolding borrow_def
  proof (rule wp_active_bind [OF inv], goal_cases)
    case (1 w x)
    note ex = existing_borrows [OF d(5) 1(1)]
    have bow: "borrows_of (owners s) i = ow_borrows w" using 1(1) by (simp add: borrows_of_def)
    have "lifecycle_inv (s\<lparr>lr_next_id := Suc ?b, lr_borrows := bt_insert ?b \<lparr>br_owner = i, br_mode = m\<rparr> (lr_borrows s),
        lr_owners := al_modify i (\<lambda>w. w\<lparr>ow_borrows := bset_insert ?b (ow_borrows w)\<rparr>) (lr_owners s)\<rparr>)"
      if free: "\<not> ((m = Mutable \<or> list_ex (\<lambda>b. br_mode b = Mutable) (List.map_filter (borrows s) (ow_borrows w)))
          \<and> List.map_filter (borrows s) (ow_borrows w) \<noteq> [])"
    proof (rule lifecycle_inv_borrows [OF inv 1(1)])
      have "active (owners s) i" using 1 by (simp add: active_def)
      moreover have "borrows_of (owners s) i = []"
        if "m = Mutable \<or> (\<exists>k r. borrows s k = Some r \<and> br_owner r = i \<and> br_mode r = Mutable)"
        using that free ex unfolding bow list_ex_iff by blast
      ultimately show "borrow_inv (active (owners s)) ((borrows_of (owners s))(i := bset_insert ?b (ow_borrows w)))
          (map_of (bt_insert ?b \<lparr>br_owner = i, br_mode = m\<rparr> (lr_borrows s)))"
        using borrow_inv_begin [OF d(5) fresh, of i m] by (simp add: bt.get_insert [OF wf] bow)
    qed (use d(2) wf in \<open>auto simp: bt.wf_insert bt.get_insert ids_inv_def\<close>)
    then show ?case using 1 ids_left_next [OF ids] by (auto simp: wp_simps)
  qed simp
qed

lemma keeps_end_borrow: "keeps (end_borrow b)"
proof (rule keepsI)
  fix s assume inv: "lifecycle_inv s"
  note d = lifecycle_invD [OF inv]
  show "wp (end_borrow b) (\<lambda>_. lifecycle_inv) (\<lambda>_ s'. s' = s) s"
  proof (cases "borrows s b")
    case (Some rec)
    then obtain w where w: "owners s (br_owner rec) = Some w"
      using d(5) unfolding borrow_inv_def active_def by blast
    then have bow: "borrows_of (owners s) (br_owner rec) = ow_borrows w" by (simp add: borrows_of_def)
    have "lifecycle_inv (s\<lparr>lr_next_id := lr_next_id s, lr_borrows := al_remove b (lr_borrows s),
        lr_owners := al_modify (br_owner rec) (\<lambda>w. w\<lparr>ow_borrows := filter (\<lambda>x. x \<noteq> b) (ow_borrows w)\<rparr>)
          (lr_owners s)\<rparr>)"
      using borrow_inv_end [OF d(5) Some] d(1,2)
      by (intro lifecycle_inv_borrows [OF inv w]) (auto simp: bow maps_wf_def ids_inv_def bt_wf_remove)
    then show ?thesis using Some w by (simp add: end_borrow_def wp_simps)
  qed (simp add: end_borrow_def wp_simps)
qed

section \<open>Attaching\<close>

text \<open>The walk to the root decides ancestry within its bound.\<close>

definition ancestors :: "owner_map \<Rightarrow> owner_id \<Rightarrow> owner_id set" where
  "ancestors own i = {a. i \<in> subtree own a}"

lemma ancestors_step:
  assumes "forest_inv own" "(p, i) \<in> child_rel own"
  shows "ancestors own i = insert i (ancestors own p)" and "i \<notin> ancestors own p"
proof -
  have "(a, i) \<in> (child_rel own)\<^sup>* \<longleftrightarrow> a = i \<or> (a, p) \<in> (child_rel own)\<^sup>*" for a
  proof
    assume "(a, i) \<in> (child_rel own)\<^sup>*"
    then show "a = i \<or> (a, p) \<in> (child_rel own)\<^sup>*"
    proof cases
      case (step q)
      then have "q = p"
        using forest_inv_parent [OF assms(1) assms(2)] forest_inv_parent [OF assms(1) step(2)] by auto
      with step show ?thesis by simp
    qed simp
  next
    assume "a = i \<or> (a, p) \<in> (child_rel own)\<^sup>*"
    then show "(a, i) \<in> (child_rel own)\<^sup>*" using assms(2) by (auto intro: rtrancl_into_rtrancl)
  qed
  then show "ancestors own i = insert i (ancestors own p)" by (auto simp: ancestors_def subtree_def)
  show "i \<notin> ancestors own p"
    using not_own_descendant [OF assms] by (simp add: ancestors_def)
qed

lemma ancestors_root:
  assumes "forest_inv own" "root own i"
  shows "ancestors own i = {i}"
proof -
  have "(p, i) \<notin> child_rel own" for p
    using forest_inv_parent [OF assms(1), of p i] assms(2) by (auto simp: root_def)
  then show ?thesis by (auto simp: ancestors_def subtree_def elim: rtranclE)
qed

lemma has_ancestor_iff:
  assumes inv: "forest_inv (owners s)"
  shows "active (owners s) i \<Longrightarrow> card (ancestors (owners s) i) \<le> n \<Longrightarrow> finite (ancestors (owners s) i) \<Longrightarrow>
    has_ancestor n s i c = Some (i \<in> subtree (owners s) c)"
proof (induction n arbitrary: i)
  case 0
  moreover have "i \<in> ancestors (owners s) i" by (simp add: ancestors_def)
  ultimately show ?case by auto
next
  case (Suc n)
  then obtain w where w: "owners s i = Some w" "ow_status w = OwnerActive" by (auto simp: active_def)
  show ?case
  proof (cases "ow_parent w")
    case None
    then have "ancestors (owners s) i = {i}" using w by (intro ancestors_root [OF inv]) (simp add: root_def)
    then show ?thesis using w None by (auto simp: ancestors_def)
  next
    case (Some p)
    then have rel: "(p, i) \<in> child_rel (owners s)" using inv w by (auto simp: forest_inv_def)
    note anc = ancestors_step [OF inv rel]
    have "has_ancestor n s p c = Some (p \<in> subtree (owners s) c)"
      by (rule Suc.IH) (use Suc.prems anc child_rel_active [OF rel] in auto)
    then show ?thesis using w Some anc by (auto simp: ancestors_def)
  qed
qed

lemma ancestors_bounded:
  assumes "forest_inv (owners s)" "active (owners s) i"
  shows "finite (ancestors (owners s) i)" "card (ancestors (owners s) i) \<le> depth_bound s"
proof -
  have "ancestors (owners s) i \<subseteq> dom (owners s)"
    using assms(2) by (auto simp: ancestors_def subtree_def active_def child_rel_def elim: converse_rtranclE)
  then have sub: "ancestors (owners s) i \<subseteq> fst ` set (lr_owners s)" by (simp add: dom_map_of_conv_image_fst)
  then show "finite (ancestors (owners s) i)" by (rule finite_subset) simp
  have "card (ancestors (owners s) i) \<le> card (fst ` set (lr_owners s))" by (intro card_mono sub) simp
  also have "\<dots> \<le> length (lr_owners s)" by (metis card_image_le card_length finite_set le_trans)
  finally show "card (ancestors (owners s) i) \<le> depth_bound s" by (simp add: depth_bound_def)
qed

lemma child_rel_attach:
  assumes "own c = Some v" "own p = Some w" "ow_status w = OwnerActive" "p \<noteq> c"
  shows "child_rel (own(c \<mapsto> v\<lparr>ow_parent := Some p\<rparr>, p \<mapsto> w\<lparr>ow_children := ow_children w @ [c]\<rparr>))
    = insert (p, c) (child_rel own)"
  using assms by (auto simp: child_rel_def split: if_splits)

lemma forest_inv_attach:
  assumes inv: "forest_inv own" and v: "own c = Some v" "ow_status v = OwnerActive" "ow_parent v = None"
    and w: "own p = Some w" "ow_status w = OwnerActive" and "p \<noteq> c" and free: "p \<notin> subtree own c"
  shows "forest_inv (own(c \<mapsto> v\<lparr>ow_parent := Some p\<rparr>, p \<mapsto> w\<lparr>ow_children := ow_children w @ [c]\<rparr>))"
    (is "forest_inv ?own")
proof -
  note rel = child_rel_attach [OF v(1) w \<open>p \<noteq> c\<close>]
  have orphan: "(q, c) \<notin> child_rel own" for q
    using forest_inv_parent [OF inv, of q c] v by auto
  then have "c \<notin> set (ow_children w)" using w by (auto simp: child_rel_def)
  have sh: "shape ?own = (shape own)(c \<mapsto> (OwnerActive, Some p, ow_children v),
      p \<mapsto> (OwnerActive, ow_parent w, ow_children w @ [c]))"
    using v w by (simp add: shape_upd)
  have old: "shape own c = Some (OwnerActive, None, ow_children v)" "shape own p = Some (OwnerActive, ow_parent w, ow_children w)"
    using v w by (simp_all add: shape_def)
  have up: "ow_parent w = Some q" if "(q, p) \<in> child_rel own" for q
    using forest_inv_parent [OF inv that] w by auto
  have parents: "(q, i) \<in> child_rel own" if "shape own i = Some (OwnerActive, Some q, cs)" for i q cs
    using inv that unfolding forest_inv_shape by blast
  have kids: "\<exists>cs. shape own d = Some (OwnerActive, Some q, cs)" if "(q, d) \<in> child_rel own" for q d
    using inv that unfolding forest_inv_shape by blast
  show ?thesis
    unfolding forest_inv_shape rel
  proof (intro conjI allI impI)
    fix i q cs assume "shape ?own i = Some (OwnerActive, Some q, cs)"
    then show "(q, i) \<in> insert (p, c) (child_rel own)"
      using old(2) parents [of p q] parents [of i q] unfolding sh by (auto split: if_splits)
  next
    fix q d assume "(q, d) \<in> insert (p, c) (child_rel own)"
    then show "\<exists>cs. shape ?own d = Some (OwnerActive, Some q, cs)"
      using kids [of q d] up [of q] orphan \<open>p \<noteq> c\<close> unfolding sh by auto
  next
    fix i q cs assume "shape ?own i = Some (OwnerActive, q, cs)"
    then show "distinct cs"
      using inv old \<open>c \<notin> set (ow_children w)\<close> unfolding forest_inv_shape sh by (auto split: if_splits)
  next
    show "acyclic (insert (p, c) (child_rel own))"
      using inv free by (simp add: forest_inv_def subtree_def)
  qed
qed

text \<open>The state after a successful attachment.\<close>

definition attached :: "owner_id \<Rightarrow> owner_id \<Rightarrow> lifecycle_runtime \<Rightarrow> lifecycle_runtime" where
  "attached p c s = s\<lparr>lr_scopes := map (strip_entries {c}) (lr_scopes s),
     lr_owners := al_modify p (\<lambda>w. w\<lparr>ow_children := ow_children w @ [c]\<rparr>)
       (al_modify c (\<lambda>w. w\<lparr>ow_parent := Some p\<rparr>) (lr_owners s))\<rparr>"

lemma lifecycle_inv_attached:
  assumes inv: "lifecycle_inv s" and v: "owners s c = Some v" "ow_status v = OwnerActive" "ow_parent v = None"
    and w: "owners s p = Some w" "ow_status w = OwnerActive" and "p \<noteq> c" and free: "p \<notin> subtree (owners s) c"
  shows "lifecycle_inv (attached p c s)" (is "lifecycle_inv ?s")
proof (rule lifecycle_invI)
  note d = lifecycle_invD [OF inv]
  have own: "owners ?s = (owners s)(c \<mapsto> v\<lparr>ow_parent := Some p\<rparr>, p \<mapsto> w\<lparr>ow_children := ow_children w @ [c]\<rparr>)"
    using v w \<open>p \<noteq> c\<close> by (auto simp: attached_def fun_eq_iff)
  have rest: "allocations ?s = allocations s" "borrows ?s = borrows s" "resources ?s = resources s"
    "lr_allocation_limit ?s = lr_allocation_limit s" "lr_next_id ?s = lr_next_id s"
    by (simp_all add: attached_def)
  have views: "active (owners ?s) = active (owners s)" "holds (owners ?s) = holds (owners s)"
    "borrows_of (owners ?s) = borrows_of (owners s)" "root (owners ?s) j \<longleftrightarrow> root (owners s) j \<and> j \<noteq> c" for j
    unfolding own using v w \<open>p \<noteq> c\<close>
    by (auto simp: fun_eq_iff active_def holds_def borrows_of_def root_def)
  show "maps_wf ?s" using d(1) by (simp add: maps_wf_def attached_def)
  show "ids_inv ?s" using d(2) v w unfolding ids_inv_def own rest by auto
  show "forest_inv (owners ?s)" unfolding own by (rule forest_inv_attach [OF d(3) v w \<open>p \<noteq> c\<close> free])
  show "alloc_inv (holds (owners ?s)) (allocations ?s) (lr_allocation_limit ?s)" unfolding rest views by (rule d(4))
  show "borrow_inv (active (owners ?s)) (borrows_of (owners ?s)) (borrows ?s)" unfolding rest views by (rule d(5))
  show "scope_inv (root (owners ?s)) (resources ?s) (all_entries (lr_scopes ?s))"
    using d(6) unfolding scope_inv_def views rest by (auto simp: attached_def all_entries_strip)
qed

lemma keeps_attach: "keeps (attach_child p c)"
proof (rule keepsI)
  fix s assume inv: "lifecycle_inv s"
  note d = lifecycle_invD [OF inv]
  show "wp (attach_child p c) (\<lambda>_. lifecycle_inv) (\<lambda>_ s'. s' = s) s"
    unfolding attach_child_def
  proof (rule wp_active_bind [OF inv], rule wp_active_bind [OF inv], goal_cases)
    case (1 w x v y)
    have act: "active (owners s) p" using 1 by (simp add: active_def)
    have "has_ancestor (depth_bound s) s p c = Some (p \<in> subtree (owners s) c)"
      using has_ancestor_iff [OF d(3) act] ancestors_bounded [OF d(3) act] by blast
    moreover have "lifecycle_inv (attached p c s)" if "ow_parent v = None" "p \<noteq> c" "p \<notin> subtree (owners s) c"
      using lifecycle_inv_attached [OF inv _ _ that(1) _ _ that(2,3)] 1 by blast
    ultimately show ?case
      using 1 by (auto simp: wp_simps attached_def)
  qed simp_all
qed

section \<open>Moving\<close>

text \<open>A move renames a node of the forest: \<open>m\<close> takes the place of \<open>src\<close>.\<close>

lemma acyclic_hom:
  assumes "acyclic R" and "\<And>x y. (x, y) \<in> S \<Longrightarrow> (f x, f y) \<in> R"
  shows "acyclic S"
proof (rule acyclicI, rule allI, rule notI)
  fix x assume "(x, x) \<in> S\<^sup>+"
  have "(f a, f b) \<in> R\<^sup>+" if "(a, b) \<in> S\<^sup>+" for a b
    using that by (induction rule: trancl_induct) (auto dest: assms(2) intro: trancl_into_trancl)
  with \<open>(x, x) \<in> S\<^sup>+\<close> show False using assms(1) by (auto simp: acyclic_def)
qed

definition renamed :: "owner_id \<Rightarrow> owner_id \<Rightarrow> owner_id \<Rightarrow> owner_id" where
  "renamed a b j = (if j = a then b else j)"

lemma forest_inv_rename:
  assumes inv: "forest_inv own" and fresh: "own m = None" and "src \<noteq> m" and dead: "\<not> active own' src"
    and new: "\<And>j q cs. j \<noteq> src \<Longrightarrow> shape own (renamed m src j) = Some (OwnerActive, q, cs) \<Longrightarrow>
      \<exists>cs'. shape own' j = Some (OwnerActive, map_option (renamed src m) q, cs')
        \<and> set cs' = renamed src m ` set cs \<and> distinct cs'"
    and old: "\<And>j. active own' j \<Longrightarrow> active own (renamed m src j)"
  shows "forest_inv own'"
proof -
  let ?f = "renamed m src" and ?g = "renamed src m"
  have gf: "?g (?f j) = j" if "j \<noteq> src" for j using that by (simp add: renamed_def)
  have fg: "?f (?g z) = z" if "active own z" for z
    using that fresh by (auto simp: renamed_def active_def)
  have g: "?g z \<noteq> src" for z using \<open>src \<noteq> m\<close> by (simp add: renamed_def)
  have rel: "(x, y) \<in> child_rel own' \<longleftrightarrow> x \<noteq> src \<and> (\<exists>z. (?f x, z) \<in> child_rel own \<and> y = ?g z)" for x y
  proof
    assume *: "(x, y) \<in> child_rel own'"
    then have "active own' x" by (rule child_rel_active)
    then have "x \<noteq> src" using dead by auto
    from old [OF \<open>active own' x\<close>] obtain q cs where sh: "shape own (?f x) = Some (OwnerActive, q, cs)"
      by (auto simp: active_shape)
    from new [OF \<open>x \<noteq> src\<close> sh] * have "y \<in> ?g ` set cs" by (auto simp: child_rel_shape)
    with sh \<open>x \<noteq> src\<close> show "x \<noteq> src \<and> (\<exists>z. (?f x, z) \<in> child_rel own \<and> y = ?g z)"
      by (auto simp: child_rel_shape)
  next
    assume "x \<noteq> src \<and> (\<exists>z. (?f x, z) \<in> child_rel own \<and> y = ?g z)"
    then obtain z q cs where "x \<noteq> src" "shape own (?f x) = Some (OwnerActive, q, cs)" "z \<in> set cs" "y = ?g z"
      by (auto simp: child_rel_shape)
    then show "(x, y) \<in> child_rel own'" using new [of x q cs] by (auto simp: child_rel_shape)
  qed
  show ?thesis
    unfolding forest_inv_shape
  proof (intro conjI allI impI)
    fix i p cs assume *: "shape own' i = Some (OwnerActive, Some p, cs)"
    then have "active own' i" by (auto simp: active_shape)
    then have "i \<noteq> src" using dead by auto
    from old [OF \<open>active own' i\<close>] obtain q ds where sh: "shape own (?f i) = Some (OwnerActive, q, ds)"
      by (auto simp: active_shape)
    from new [OF \<open>i \<noteq> src\<close> sh] * obtain r where r: "q = Some r" "p = ?g r" by (cases q) auto
    then have "(r, ?f i) \<in> child_rel own" using inv sh unfolding forest_inv_shape by blast
    then show "(p, i) \<in> child_rel own'"
      using fg [OF child_rel_active] gf [OF \<open>i \<noteq> src\<close>] g unfolding rel r(2) by metis
  next
    fix p c assume "(p, c) \<in> child_rel own'"
    then obtain z where z: "p \<noteq> src" "(?f p, z) \<in> child_rel own" "c = ?g z" by (auto simp: rel)
    then obtain cs where "shape own z = Some (OwnerActive, Some (?f p), cs)"
      using inv unfolding forest_inv_shape by blast
    then show "\<exists>cs. shape own' c = Some (OwnerActive, Some p, cs)"
      using new [of c "Some (?f p)" cs] fg [OF child_active [OF inv z(2)]] gf [OF z(1)] g [of z] z(3) by auto
  next
    fix i p cs assume *: "shape own' i = Some (OwnerActive, p, cs)"
    then have "active own' i" by (auto simp: active_shape)
    then have "i \<noteq> src" using dead by auto
    from old [OF \<open>active own' i\<close>] obtain q ds where "shape own (?f i) = Some (OwnerActive, q, ds)"
      by (auto simp: active_shape)
    from new [OF \<open>i \<noteq> src\<close> this] * show "distinct cs" by auto
  next
    have "(?f x, ?f y) \<in> child_rel own" if "(x, y) \<in> child_rel own'" for x y
      using that fg [OF child_active [OF inv]] by (auto simp: rel)
    then show "acyclic (child_rel own')" using inv by (auto simp: forest_inv_def intro: acyclic_hom)
  qed
qed

text \<open>The state after a successful move of \<open>src\<close>, whose record is \<open>w\<close>, to \<open>m\<close>.\<close>

definition moved_owner :: "owner_id \<Rightarrow> owner_id \<Rightarrow> owner \<Rightarrow> owner_id \<Rightarrow> owner \<Rightarrow> owner" where
  "moved_owner src m w j v =
     (if j = src then v\<lparr>ow_status := OwnerMoved\<rparr>
      else if ow_parent w = Some j then v\<lparr>ow_children := filter (\<lambda>c. c \<noteq> src) (ow_children v) @ [m]\<rparr>
      else if j \<in> set (ow_children w) then v\<lparr>ow_parent := Some m\<rparr>
      else v)"

definition moved_owners :: "owner_id \<Rightarrow> owner_id \<Rightarrow> owner \<Rightarrow> owner_map \<Rightarrow> owner_map" where
  "moved_owners src m w own j =
     (if j = m then Some (w\<lparr>ow_borrows := []\<rparr>) else map_option (moved_owner src m w j) (own j))"

lemma moved_owner_fields:
  "ow_status (moved_owner src m w j v) = (if j = src then OwnerMoved else ow_status v)"
  "ow_allocation (moved_owner src m w j v) = ow_allocation v"
  "ow_borrows (moved_owner src m w j v) = ow_borrows v"
  "ow_parent (moved_owner src m w j v) =
     (if j \<noteq> src \<and> ow_parent w \<noteq> Some j \<and> j \<in> set (ow_children w) then Some m else ow_parent v)"
  by (simp_all add: moved_owner_def)

lemma moved_owners_forest:
  assumes inv: "forest_inv own" and w: "own src = Some w" "ow_status w = OwnerActive" and fresh: "own m = None"
  shows "forest_inv (moved_owners src m w own)"
proof (rule forest_inv_rename [OF inv fresh])
  have children: "(src, c) \<in> child_rel own \<longleftrightarrow> c \<in> set (ow_children w)" for c
    using w by (auto simp: child_rel_def)
  have parent: "(p, src) \<in> child_rel own \<longleftrightarrow> ow_parent w = Some p" for p
    using w by (intro forest_parent_iff [OF inv]) (simp add: shape_def)
  have loop: "src \<notin> set (ow_children w)" "ow_parent w \<noteq> Some src"
    using children [of src] parent [of src] not_own_descendant [OF inv, of src src] by auto
  have cross: "c \<notin> set (ow_children w)" if "ow_parent w = Some c" for c
  proof
    assume "c \<in> set (ow_children w)"
    then have "src \<notin> subtree own c" using children [of c] not_own_descendant [OF inv] by blast
    then show False using parent [of c] that by (auto simp: subtree_def)
  qed
  have other: "src \<notin> set cs" if "shape own j = Some (OwnerActive, q, cs)" "ow_parent w \<noteq> Some j" for j q cs
    using that parent [of j] by (auto simp: child_rel_shape)
  have nofresh: "m \<notin> set cs" if "shape own j = Some (OwnerActive, q, cs)" for j q cs
    using that forest_inv_parent [OF inv, of j m] fresh by (auto simp: child_rel_shape)
  have ren: "renamed src m ` A = A" if "src \<notin> A" for A
    using that by (force simp: renamed_def)
  have ren': "renamed src m ` A = insert m (A - {src})" if "src \<in> A" for A
    using that by (force simp: renamed_def)
  show "src \<noteq> m" using w fresh by auto
  show "\<not> active (moved_owners src m w own) src"
    using w fresh by (auto simp: active_def moved_owners_def moved_owner_def)
  show "active own (renamed m src j)" if "active (moved_owners src m w own) j" for j
    using that w by (auto simp: active_def moved_owners_def moved_owner_def renamed_def split: if_splits)
  show "\<exists>cs'. shape (moved_owners src m w own) j = Some (OwnerActive, map_option (renamed src m) q, cs')
        \<and> set cs' = renamed src m ` set cs \<and> distinct cs'"
    if j: "j \<noteq> src" and sh: "shape own (renamed m src j) = Some (OwnerActive, q, cs)" for j q cs
  proof -
    have dist: "distinct cs" using inv sh unfolding forest_inv_shape by blast
    consider "j = m" | "j \<noteq> m" "ow_parent w = Some j" | "j \<noteq> m" "ow_parent w \<noteq> Some j" by blast
    then show ?thesis
    proof cases
      case 1
      then have "cs = ow_children w" "q = ow_parent w" using sh w by (auto simp: shape_def renamed_def)
      moreover have "map_option (renamed src m) (ow_parent w) = ow_parent w"
        using loop by (cases "ow_parent w") (auto simp: renamed_def)
      ultimately show ?thesis
        using 1 w dist ren loop by (auto simp: shape_def moved_owners_def)
    next
      case 2
      then have sh': "shape own j = Some (OwnerActive, q, cs)" using sh by (simp add: renamed_def)
      then have "src \<in> set cs" using parent [of j] 2 by (auto simp: child_rel_shape)
      moreover have "q \<noteq> Some src"
        using cross [OF 2(2)] children [of j] inv sh' unfolding forest_inv_shape by blast
      then have "map_option (renamed src m) q = q" by (cases q) (auto simp: renamed_def)
      ultimately show ?thesis
        using 2 j sh' dist ren' nofresh [OF sh']
        by (auto simp: shape_def moved_owners_def moved_owner_def)
    next
      case 3
      then have sh': "shape own j = Some (OwnerActive, q, cs)" using sh by (simp add: renamed_def)
      have "q = Some src \<longleftrightarrow> j \<in> set (ow_children w)"
        using children [of j] forest_parent_iff [OF inv sh', of src] by simp
      then have "map_option (renamed src m) q = (if j \<in> set (ow_children w) then Some m else q)"
        by (cases q) (auto simp: renamed_def)
      then show ?thesis
        using 3 j sh' dist ren [OF other [OF sh' 3(2)]]
        by (auto simp: shape_def moved_owners_def moved_owner_def)
    qed
  qed
qed

lemma set_replace: "set (map (\<lambda>e. if e = a then b else e) es) = (if a \<in> set es then insert b (set es - {a}) else set es)"
  by (induction es) auto

lemma distinct_replace: "distinct es \<Longrightarrow> b \<notin> set es \<Longrightarrow> distinct (map (\<lambda>e. if e = a then b else e) es)"
  by (auto simp: distinct_map inj_on_def)

lemma alloc_inv_rename:
  assumes inv: "alloc_inv H allocs limit" and fresh: "\<And>a. \<not> H m a"
    and H': "\<And>j a. H' j a \<longleftrightarrow> (if j = m then H src a else j \<noteq> src \<and> H j a)"
  shows "alloc_inv H' allocs limit"
proof -
  have "(\<exists>i. H' i a) \<longleftrightarrow> (\<exists>i. H i a)" for a
  proof
    assume "\<exists>i. H i a"
    then obtain i where "H i a" by blast
    then show "\<exists>i. H' i a"
      using fresh [of a] by (intro exI [of _ "if i = src then m else i"]) (auto simp: H')
  qed (auto simp: H' split: if_splits)
  moreover have "i = j" if "H' i a" "H' j a" for i j a
    using that inv unfolding H' alloc_inv_def by (metis (full_types))
  ultimately show ?thesis using inv unfolding alloc_inv_def by simp
qed

lemma scope_inv_replace_owner:
  assumes "scope_inv rt res es" "OwnerEntry m \<notin> set es"
    and "\<And>j. rt' j \<longleftrightarrow> (if j = m then rt src else j \<noteq> src \<and> rt j)"
  shows "scope_inv rt' res (map (\<lambda>e. if e = OwnerEntry src then OwnerEntry m else e) es)"
  using assms unfolding scope_inv_def set_replace by (auto simp: distinct_replace)

lemma lifecycle_inv_moved:
  assumes inv: "lifecycle_inv s" and w: "owners s src = Some w" "ow_status w = OwnerActive" "ow_borrows w = []"
    and m: "m = lr_next_id s" and own: "owners s' = moved_owners src m w (owners s)" and wf: "bt_wf (lr_owners s')"
    and rest: "lr_allocations s' = lr_allocations s" "lr_borrows s' = lr_borrows s" "lr_resources s' = lr_resources s"
      "lr_allocation_limit s' = lr_allocation_limit s" "lr_next_id s' = Suc m"
      "lr_scopes s' = map (replace_entry (OwnerEntry src) (OwnerEntry m)) (lr_scopes s)"
  shows "lifecycle_inv s'"
proof (rule lifecycle_invI)
  note d = lifecycle_invD [OF inv]
  have fresh: "owners s m = None" and "src \<noteq> m" using d(2) w by (auto simp: ids_inv_def m)
  have parent: "ow_parent w \<noteq> Some src" and child: "src \<notin> set (ow_children w)"
    using forest_parent_iff [OF d(3), of src "ow_parent w" "ow_children w" src] w not_own_descendant [OF d(3), of src src]
    by (auto simp: shape_def child_rel_def)
  have moved: "owners s' j = (if j = m then Some (w\<lparr>ow_borrows := []\<rparr>) else map_option (moved_owner src m w j) (owners s j))" for j
    by (simp add: own moved_owners_def)
  have act: "active (owners s') j \<longleftrightarrow> j = m \<or> j \<noteq> src \<and> active (owners s) j" for j
    using w(2) by (cases "owners s j") (simp_all add: active_def moved moved_owner_fields)
  have hold: "holds (owners s') j a \<longleftrightarrow> (if j = m then holds (owners s) src a else j \<noteq> src \<and> holds (owners s) j a)" for j a
    using w by (cases "owners s j") (simp_all add: holds_def moved moved_owner_fields)
  have bow: "borrows_of (owners s') = borrows_of (owners s)"
  proof
    show "borrows_of (owners s') j = borrows_of (owners s) j" for j
      using fresh by (cases "owners s j") (auto simp: borrows_of_def moved moved_owner_fields)
  qed
  have up: "ow_parent v \<noteq> None" if "owners s j = Some v" "j \<in> set (ow_children w)" for j v
    using forest_inv_parent [OF d(3), of src j] w that by (auto simp: child_rel_def)
  have root: "root (owners s') j \<longleftrightarrow> (if j = m then root (owners s) src else j \<noteq> src \<and> root (owners s) j)" for j
    using w up [of j] by (cases "owners s j") (auto simp: root_def moved moved_owner_fields)
  show "maps_wf s'" using d(1) wf by (simp add: maps_wf_def rest)
  show "ids_inv s'" using d(2) by (simp add: ids_inv_def rest moved m)
  show "forest_inv (owners s')" unfolding own by (rule moved_owners_forest [OF d(3) w(1,2) fresh])
  show "alloc_inv (holds (owners s')) (allocations s') (lr_allocation_limit s')"
    unfolding rest by (rule alloc_inv_rename [OF d(4) views_None(2) [of "owners s" m, OF fresh] hold])
  have "borrows_of (owners s) src = []" using w by (simp add: borrows_of_def)
  then have "br_owner r \<noteq> src" if "borrows s b = Some r" for b r
    using borrow_inv_listed [OF d(5) that] by auto
  then show "borrow_inv (active (owners s')) (borrows_of (owners s')) (borrows s')"
    unfolding rest bow by (intro borrow_inv_active [OF d(5)]) (auto simp: act)
  have "OwnerEntry m \<notin> set (all_entries (lr_scopes s))"
    using d(6) views_None(4) [of "owners s" m, OF fresh] by (simp add: scope_inv_def)
  then show "scope_inv (root (owners s')) (resources s') (all_entries (lr_scopes s'))"
    unfolding rest all_entries_replace by (rule scope_inv_replace_owner [OF d(6)]) (rule root)
qed

lemma wp_set_parents:
  assumes "\<forall>c \<in> set cs. c \<in> set (al_keys (lr_owners s))"
  shows "wp (set_parents p cs) Q E s = Q () (s\<lparr>lr_owners :=
    al_mapk (\<lambda>i w. if i \<in> set cs then w\<lparr>ow_parent := p\<rparr> else w) (lr_owners s)\<rparr>)"
proof -
  have "set cs \<subseteq> dom (owners s)" using assms by (auto simp: set_al_keys)
  then show ?thesis by (simp add: wp_def set_parents_eq)
qed

text \<open>The updates of \<open>move_value\<close>, in the order of the code.\<close>

definition move_links :: "owner_id \<Rightarrow> owner_id \<Rightarrow> owner \<Rightarrow> (owner_id, owner) btree_map \<Rightarrow> (owner_id, owner) btree_map" where
  "move_links src m w os =
     al_modify src (\<lambda>w. w\<lparr>ow_status := OwnerMoved\<rparr>)
      (al_mapk (\<lambda>i v. if i \<in> set (ow_children w) then v\<lparr>ow_parent := Some m\<rparr> else v)
        (case ow_parent w of
           None \<Rightarrow> os
         | Some p \<Rightarrow> al_modify p (\<lambda>w. w\<lparr>ow_children := filter (\<lambda>c. c \<noteq> src) (ow_children w) @ [m]\<rparr>) os))"

lemma move_links_owners:
  assumes wf: "bt_wf os" and w: "map_of os src = Some w" "ow_status w = OwnerActive" and fresh: "map_of os m = None"
    and inv: "forest_inv (map_of os)"
  shows "map_of (move_links src m w (bt_insert m
    \<lparr>ow_allocation = ow_allocation w, ow_status = OwnerActive, ow_parent = ow_parent w, ow_children = ow_children w,
     ow_borrows = [], ow_source_provenance = ow_source_provenance w\<rparr> os)) = moved_owners src m w (map_of os)"
    (is "map_of (move_links src m w (bt_insert m ?new os)) = _")
proof
  fix j
  have sh: "shape (map_of os) src = Some (OwnerActive, ow_parent w, ow_children w)" using w by (simp add: shape_def)
  have kid: "(src, c) \<in> child_rel (map_of os)" if "c \<in> set (ow_children w)" for c
    using that sh by (auto simp: child_rel_shape)
  have par: "(p, src) \<in> child_rel (map_of os)" if "ow_parent w = Some p" for p
    using forest_parent_iff [OF inv sh] that by blast
  have "src \<notin> subtree (map_of os) c" if "c \<in> set (ow_children w)" for c
    by (rule not_own_descendant [OF inv kid [OF that]])
  then have cross: "ow_parent w \<noteq> Some c \<and> c \<noteq> src" if "c \<in> set (ow_children w)" for c
    using that par [of c] by (auto simp: subtree_def)
  have "ow_parent w \<noteq> Some src" using not_own_descendant [OF inv par, of src] by auto
  moreover have "m \<notin> set (ow_children w)" "ow_parent w \<noteq> Some m"
    using kid [of m] forest_inv_parent [OF inv, of src m] par [of m] child_rel_active [of m src "map_of os"] fresh
    by (auto simp: active_def)
  moreover have "?new = w\<lparr>ow_borrows := []\<rparr>" "src \<noteq> m" using w fresh by auto
  ultimately show "map_of (move_links src m w (bt_insert m ?new os)) j = moved_owners src m w (map_of os) j"
    using cross [of j] w
    by (cases "ow_parent w"; cases "map_of os j")
      (auto simp: move_links_def moved_owners_def moved_owner_def bt.get_insert [OF wf])
qed

lemma wp_move_value:
  assumes inv: "lifecycle_inv s" and ids: "ids_left s"
  shows "wp (move_value src) (\<lambda>m s'. lifecycle_inv s' \<and> lr_allocations s' = lr_allocations s
      \<and> (\<exists>w. owners s src = Some w \<and> ow_status w = OwnerActive \<and> m = lr_next_id s
        \<and> owners s' = moved_owners src m w (owners s))) (\<lambda>_ s'. s' = s) s"
proof -
  note d = lifecycle_invD [OF inv]
  let ?m = "lr_next_id s"
  have wf: "bt_wf (lr_owners s)" using d(1) by (simp add: maps_wf_def)
  have fresh: "owners s ?m = None" using d(2) by (simp add: ids_inv_def)
  show ?thesis
    unfolding move_value_def
  proof (rule wp_active_bind [OF inv], goal_cases)
    case (1 w x)
    have kids: "\<forall>c \<in> set (ow_children w). c \<in> set (al_keys (lr_owners s))"
      using forest_inv_parent [OF d(3), of src] 1 by (fastforce simp: child_rel_def al_keys_iff)
    have up: "\<exists>v. owners s p = Some v" if "ow_parent w = Some p" for p
      using d(3) 1 that unfolding forest_inv_def child_rel_def by blast
    let ?new = "\<lparr>ow_allocation = ow_allocation w, ow_status = OwnerActive, ow_parent = ow_parent w,
        ow_children = ow_children w, ow_borrows = [], ow_source_provenance = ow_source_provenance w\<rparr>"
    let ?s = "s\<lparr>lr_next_id := Suc ?m,
        lr_scopes := map (replace_entry (OwnerEntry src) (OwnerEntry ?m)) (lr_scopes s),
        lr_owners := move_links src ?m w (bt_insert ?m ?new (lr_owners s))\<rparr>"
    have "bt_wf (lr_owners ?s)"
      using wf by (auto simp: move_links_def bt.wf_insert split: option.splits)
    moreover have own: "owners ?s = moved_owners src ?m w (owners s)"
      using move_links_owners [OF wf 1(1,2) fresh d(3)] by simp
    ultimately have "ow_borrows w = [] \<Longrightarrow> lifecycle_inv ?s"
      by (intro lifecycle_inv_moved [OF inv 1(1,2) _ refl]) simp_all
    then show ?case
      using 1 kids up ids_left_next [OF ids] wf own
      by (cases "ow_parent w") (auto simp: wp_simps wp_set_parents bt.get_insert set_keys_bt_insert move_links_def)
  qed simp
qed

lemma keeps_move: "keeps (move_value src)"
  by (rule keepsI) (rule wp_conseq [OF wp_move_value], simp_all)

end
