(* ===== verification/Lifecycle_Exit.thy ===== *)
theory Lifecycle_Exit
  imports Lifecycle_Ownership
begin

text \<open>
  Resources, dropping and leaving a scope: the operations that discharge obligations keep the
  invariant, and leaving a scope discharges all of its obligations or none.
\<close>

section \<open>Resources\<close>

lemma lifecycle_inv_resources:
  assumes inv: "lifecycle_inv s" and wf: "bt_wf rs" and ids: "\<forall>i \<ge> n. map_of rs i = None" "lr_next_id s \<le> n"
    and sc: "scope_inv (root (owners s)) (map_of rs) (all_entries scs)"
  shows "lifecycle_inv (s\<lparr>lr_next_id := n, lr_resources := rs, lr_scopes := scs\<rparr>)"
  using lifecycle_invD [OF inv] wf ids sc
  by (intro lifecycle_invI) (auto simp: maps_wf_def ids_inv_def)

lemma keeps_open_resource: "keeps (open_resource cap prov)"
proof (rule keepsI)
  fix s assume inv: "lifecycle_inv s" and ids: "ids_left s"
  note d = lifecycle_invD [OF inv]
  let ?r = "lr_next_id s" and ?x = "\<lparr>rs_status = ResourceActive, rs_capability = cap, rs_source_provenance = prov\<rparr>"
  have wf: "bt_wf (lr_resources s)" using d(1) by (simp add: maps_wf_def)
  have fresh: "resources s ?r = None" using d(2) by (simp add: ids_inv_def)
  have new: "ResourceEntry ?r \<notin> set (all_entries (lr_scopes s))"
    using d(6) fresh by (auto simp: scope_inv_def)
  have "lifecycle_inv (s\<lparr>lr_next_id := Suc ?r, lr_resources := bt_insert ?r ?x (lr_resources s),
      lr_scopes := pushed (ResourceEntry ?r) (lr_scopes s)\<rparr>)" if "lr_scopes s \<noteq> []"
  proof (rule lifecycle_inv_resources [OF inv])
    show "scope_inv (root (owners s)) (map_of (bt_insert ?r ?x (lr_resources s)))
        (all_entries (pushed (ResourceEntry ?r) (lr_scopes s)))"
      using d(6) new that fresh by (auto simp: scope_inv_def all_entries_pushed bt.get_insert [OF wf])
  qed (use d(2) wf in \<open>auto simp: bt.wf_insert bt.get_insert ids_inv_def\<close>)
  then show "wp (open_resource cap prov) (\<lambda>_. lifecycle_inv) (\<lambda>_ s'. s' = s) s"
    using ids_left_next [OF ids] by (simp add: open_resource_def wp_simps)
qed

lemma scope_inv_replace_resource:
  assumes inv: "scope_inv rt res es" and fresh: "ResourceEntry m \<notin> set es" "res m = None"
    and src: "res src = Some x" "rs_status x = ResourceActive"
    and y: "rs_status y = ResourceActive" and z: "rs_status z = ResourceMoved"
  shows "scope_inv rt (res(m \<mapsto> y, src \<mapsto> z))
    (map (\<lambda>e. if e = ResourceEntry src then ResourceEntry m else e) es)"
proof -
  have "ResourceEntry src \<in> set es" using inv src by (simp add: scope_inv_def)
  then have es: "set (map (\<lambda>e. if e = ResourceEntry src then ResourceEntry m else e) es)
      = insert (ResourceEntry m) (set es - {ResourceEntry src})" unfolding set_replace by simp
  have "src \<noteq> m" using fresh src by auto
  then show ?thesis
    using inv fresh y z unfolding scope_inv_def es by (auto simp: distinct_replace)
qed

lemma keeps_move_resource: "keeps (move_resource src)"
proof (rule keepsI)
  fix s assume inv: "lifecycle_inv s" and ids: "ids_left s"
  note d = lifecycle_invD [OF inv]
  let ?m = "lr_next_id s"
  have wf: "bt_wf (lr_resources s)" using d(1) by (simp add: maps_wf_def)
  have fresh: "resources s ?m = None" using d(2) by (simp add: ids_inv_def)
  have new: "ResourceEntry ?m \<notin> set (all_entries (lr_scopes s))"
    using d(6) fresh by (auto simp: scope_inv_def)
  show "wp (move_resource src) (\<lambda>_. lifecycle_inv) (\<lambda>_ s'. s' = s) s"
  proof (cases "resources s src")
    case (Some x)
    then have "src \<noteq> ?m" using fresh by auto
    let ?y = "\<lparr>rs_status = ResourceActive, rs_capability = rs_capability x,
      rs_source_provenance = rs_source_provenance x\<rparr>"
    let ?rs = "al_modify src (\<lambda>r. r\<lparr>rs_status := ResourceMoved\<rparr>) (bt_insert ?m ?y (lr_resources s))"
    have map: "map_of ?rs = (resources s)(?m \<mapsto> ?y, src \<mapsto> x\<lparr>rs_status := ResourceMoved\<rparr>)"
      using Some \<open>src \<noteq> ?m\<close> by (auto simp: bt.get_insert [OF wf] fun_eq_iff)
    have "lifecycle_inv (s\<lparr>lr_next_id := Suc ?m, lr_resources := ?rs,
        lr_scopes := map (replace_entry (ResourceEntry src) (ResourceEntry ?m)) (lr_scopes s)\<rparr>)"
      if "rs_status x = ResourceActive"
    proof (rule lifecycle_inv_resources [OF inv])
      show "scope_inv (root (owners s)) (map_of ?rs)
          (all_entries (map (replace_entry (ResourceEntry src) (ResourceEntry ?m)) (lr_scopes s)))"
        unfolding map all_entries_replace
        by (rule scope_inv_replace_resource [OF d(6) new fresh Some that]) simp_all
      show "\<forall>i \<ge> Suc ?m. map_of ?rs i = None"
        using d(2) Some \<open>src \<noteq> ?m\<close> unfolding map ids_inv_def by auto
    qed (use wf in \<open>auto simp: bt.wf_insert\<close>)
    then have *: "rs_status x = ResourceActive \<Longrightarrow> lifecycle_inv (s\<lparr>lr_next_id := Suc ?m,
        lr_scopes := map (replace_entry (ResourceEntry src) (ResourceEntry ?m)) (lr_scopes s), lr_resources := ?rs\<rparr>)"
      by (simp add: lifecycle_inv_def maps_wf_def ids_inv_def)
    show ?thesis
      using Some * \<open>src \<noteq> ?m\<close> ids_left_next [OF ids] by (simp add: move_resource_def wp_simps bt.get_insert [OF wf])
  qed (simp add: move_resource_def wp_simps)
qed

lemma keeps_use_resource: "keeps (use_resource r)"
  by (rule keepsI) (auto simp: use_resource_def wp_simps split: option.split)

text \<open>Closing resources.\<close>

lemma close_mark_status: "rs_status (close_mark r) \<noteq> ResourceActive" "rs_status (close_mark r) = ResourceMoved \<longleftrightarrow> rs_status r = ResourceMoved"
  by (simp_all add: close_mark_def)

lemma al_mapk_cong:
  assumes "bt_wf m" "\<And>k v. map_of m k = Some v \<Longrightarrow> f k v = g k v"
  shows "al_mapk f m = al_mapk g m"
proof -
  have "map_of m k = Some v" if "(k, v) \<in> set m" for k v
    using that assms(1) by (auto simp: bt_wf_def al_keys_def strict_sorted_iff intro: map_of_is_SomeI)
  then show ?thesis using assms(2) by (auto simp: al_mapk_def)
qed

lemma drop_resource_released:
  assumes wf: "bt_wf (lr_resources s)" and r: "resources s i = Some r" "rs_status r \<noteq> ResourceMoved"
  shows "\<exists>s'. drop_resource i s = (Done (), s') \<and> released {} {i} s s'"
proof -
  have upd: "al_modify i (\<lambda>r. r\<lparr>rs_status := ResourceClosed\<rparr>) (lr_resources s)
      = al_mapk (\<lambda>j r. if j \<in> {i} then close_mark r else r) (lr_resources s)" if "rs_status r = ResourceActive"
    unfolding al_modify_mapk using r that by (intro al_mapk_cong wf) (auto simp: close_mark_def)
  have same: "lr_resources s = al_mapk (\<lambda>j r. if j \<in> {i} then close_mark r else r) (lr_resources s)"
    if "rs_status r = ResourceClosed"
  proof -
    have "al_mapk (\<lambda>j r. r) (lr_resources s) = al_mapk (\<lambda>j r. if j \<in> {i} then close_mark r else r) (lr_resources s)"
      using r that by (intro al_mapk_cong wf) (auto simp: close_mark_def)
    then show ?thesis by simp
  qed
  show ?thesis
    using r upd same
    by (cases "rs_status r")
      (auto simp: drop_resource_def close_resource_def get_resource_def resource_mut_def record_op_def
        sbind_def sget_def smodify_def sret_def released_def map_idI)
qed

section \<open>Pruning the forest\<close>

definition prune :: "owner_id set \<Rightarrow> owner_id \<Rightarrow> owner \<Rightarrow> owner" where
  "prune D j w =
     (if j \<in> D then drop_mark w
      else if ow_status w = OwnerActive then w\<lparr>ow_children := filter (\<lambda>c. c \<notin> D) (ow_children w)\<rparr>
      else w)"

definition prunable :: "owner_map \<Rightarrow> owner_id set \<Rightarrow> bool" where
  "prunable own D \<longleftrightarrow> (\<forall>x y. x \<in> D \<longrightarrow> (x, y) \<in> child_rel own \<longrightarrow> y \<in> D)
     \<and> (\<forall>x \<in> D. active own x) \<and> unborrowed own D"

lemma views_prune:
  assumes own': "\<And>j. own' j = map_option (prune D j) (own j)"
  shows "active own' j \<longleftrightarrow> j \<notin> D \<and> active own j"
    "holds own' j a \<longleftrightarrow> j \<notin> D \<and> holds own j a"
    "borrows_of own' j = borrows_of own j"
    "root own' j \<longleftrightarrow> j \<notin> D \<and> root own j"
    "(j, c) \<in> child_rel own' \<longleftrightarrow> j \<notin> D \<and> c \<notin> D \<and> (j, c) \<in> child_rel own"
  by (cases "own j"; simp add: active_def holds_def borrows_of_def root_def child_rel_def own' prune_def; fastforce)+

lemma forest_inv_prune:
  assumes inv: "forest_inv own" and D: "prunable own D"
    and own': "\<And>j. own' j = map_option (prune D j) (own j)"
  shows "forest_inv own'"
  unfolding forest_inv_def
proof (intro conjI allI impI)
  note v = views_prune [OF own']
  {
    fix i w p assume *: "own' i = Some w" "ow_status w = OwnerActive" "ow_parent w = Some p"
    then have "i \<notin> D" by (auto simp: own' prune_def)
    moreover have "(p, i) \<in> child_rel own"
      using inv * \<open>i \<notin> D\<close> unfolding forest_inv_def by (auto simp: own' prune_def split: if_splits)
    ultimately show "(p, i) \<in> child_rel own'" using D by (auto simp: v prunable_def)
  }
  {
    fix p c assume *: "(p, c) \<in> child_rel own'"
    then obtain w where "own c = Some w" "ow_status w = OwnerActive" "ow_parent w = Some p"
      using inv unfolding v forest_inv_def by blast
    then show "\<exists>w. own' c = Some w \<and> ow_status w = OwnerActive \<and> ow_parent w = Some p"
      using * by (simp add: own' v prune_def)
  }
  {
    fix i w assume "own' i = Some w" "ow_status w = OwnerActive"
    then show "distinct (ow_children w)"
      using inv unfolding forest_inv_def by (auto simp: own' prune_def split: if_splits)
  }
  have "acyclic (child_rel own)" using inv by (simp add: forest_inv_def)
  then show "acyclic (child_rel own')" by (rule acyclic_subset) (auto simp: v)
qed

lemma alloc_inv_prune:
  assumes inv: "alloc_inv H allocs limit" and H': "\<And>j a. H' j a \<longleftrightarrow> j \<notin> D \<and> H j a"
    and allocs': "\<And>a. allocs' a = (if \<exists>j \<in> D. H j a then None else allocs a)"
  shows "alloc_inv H' allocs' limit"
  using inv unfolding alloc_inv_def H' allocs' by (auto split: if_splits)

lemma borrow_inv_prune:
  assumes inv: "borrow_inv act bow bor" and act': "\<And>j. act' j \<longleftrightarrow> j \<notin> D \<and> act j"
    and unb: "\<And>j. j \<in> D \<Longrightarrow> bow j = []"
  shows "borrow_inv act' bow bor"
proof -
  have "br_owner r \<notin> D" if "bor b = Some r" for b r
    using that inv unb [of "br_owner r"] unfolding borrow_inv_def by force
  then show ?thesis using inv unfolding borrow_inv_def act' by blast
qed

lemma scope_inv_prune:
  assumes inv: "scope_inv rt res (es @ gone)" and rt': "\<And>j. rt' j \<longleftrightarrow> j \<notin> D \<and> rt j"
    and res': "\<And>j. res' j = map_option (\<lambda>r. if j \<in> C then close_mark r else r) (res j)"
    and gone: "\<And>j. OwnerEntry j \<in> set gone \<Longrightarrow> j \<in> D" "\<And>r. ResourceEntry r \<in> set gone \<Longrightarrow> r \<in> C"
  shows "scope_inv rt' res' (filter (\<lambda>e. e \<notin> OwnerEntry ` D) es)"
  unfolding scope_inv_def
proof (intro conjI allI impI)
  note i = inv [unfolded scope_inv_def]
  show "distinct (filter (\<lambda>e. e \<notin> OwnerEntry ` D) es)" using i by simp
  show "OwnerEntry j \<in> set (filter (\<lambda>e. e \<notin> OwnerEntry ` D) es) \<longleftrightarrow> rt' j" for j
    using i gone(1) [of j] unfolding rt' by auto
  show "\<exists>x. res' r = Some x \<and> rs_status x \<noteq> ResourceMoved"
    if "ResourceEntry r \<in> set (filter (\<lambda>e. e \<notin> OwnerEntry ` D) es)" for r
  proof -
    obtain x where "res r = Some x" "rs_status x \<noteq> ResourceMoved" using i \<open>ResourceEntry r \<in> _\<close> by auto
    then show ?thesis by (simp add: res' close_mark_status)
  qed
  show "ResourceEntry r \<in> set (filter (\<lambda>e. e \<notin> OwnerEntry ` D) es)"
    if "res' r = Some x" "rs_status x = ResourceActive" for r x
  proof -
    from that have "r \<notin> C" by (cases "res r") (auto simp: res' close_mark_status)
    moreover from this that have "res r = Some x" by (cases "res r") (auto simp: res')
    ultimately have "r \<notin> C" "res r = Some x" .
    then have "ResourceEntry r \<in> set (es @ gone)" using i that(2) by blast
    then show ?thesis using gone(2) [of r] \<open>r \<notin> C\<close> by auto
  qed
qed

lemma held_by_holds: "\<forall>x \<in> D. active own x \<Longrightarrow> a \<in> held_by own D \<longleftrightarrow> (\<exists>j \<in> D. holds own j a)"
  by (fastforce simp: held_by_def holds_def active_def)

lemma lifecycle_inv_pruned:
  assumes inv: "lifecycle_inv s" and D: "prunable (owners s) D" and wf: "maps_wf s'"
    and own': "\<And>j. owners s' j = map_option (prune D j) (owners s j)"
    and allocs': "\<And>a. allocations s' a = (if a \<in> held_by (owners s) D then None else allocations s a)"
    and res': "\<And>j. resources s' j = map_option (\<lambda>r. if j \<in> C then close_mark r else r) (resources s j)"
    and rest: "lr_borrows s' = lr_borrows s" "lr_allocation_limit s' = lr_allocation_limit s" "lr_next_id s' = lr_next_id s"
    and es: "all_entries (lr_scopes s) = es @ gone" "all_entries (lr_scopes s') = filter (\<lambda>e. e \<notin> OwnerEntry ` D) es"
    and gone: "\<And>j. OwnerEntry j \<in> set gone \<Longrightarrow> j \<in> D" "\<And>r. ResourceEntry r \<in> set gone \<Longrightarrow> r \<in> C"
  shows "lifecycle_inv s'"
proof (rule lifecycle_invI [OF wf])
  note d = lifecycle_invD [OF inv] and v = views_prune [OF own']
  show "ids_inv s'" using d(2) unfolding ids_inv_def own' allocs' res' rest by simp
  show "forest_inv (owners s')" by (rule forest_inv_prune [OF d(3) D own'])
  show "alloc_inv (holds (owners s')) (allocations s') (lr_allocation_limit s')"
    unfolding rest using D held_by_holds [of D "owners s"]
    by (intro alloc_inv_prune [OF d(4) v(2)]) (simp add: allocs' prunable_def)
  have b: "borrows_of (owners s') = borrows_of (owners s)" by (simp add: fun_eq_iff v)
  show "borrow_inv (active (owners s')) (borrows_of (owners s')) (borrows s')"
    unfolding b rest
    by (rule borrow_inv_prune [OF d(5) v(1)])
      (use D in \<open>auto simp: prunable_def unborrowed_def borrows_of_def split: option.split\<close>)
  show "scope_inv (root (owners s')) (resources s') (all_entries (lr_scopes s'))"
    unfolding es(2) using d(6) unfolding es(1) by (rule scope_inv_prune [OF _ v(4) res' gone])
qed

section \<open>Dropping a value\<close>

lemma released_maps_wf: "released D C s s' \<Longrightarrow> maps_wf s \<Longrightarrow> maps_wf s'"
  by (simp add: released_def maps_wf_def bt_wf_keep)

lemma prune_outside:
  assumes "own j = Some w" "j \<notin> D" "\<And>c. (j, c) \<in> child_rel own \<Longrightarrow> c \<notin> D"
  shows "prune D j w = w"
proof (cases "ow_status w = OwnerActive")
  case True
  then have "filter (\<lambda>c. c \<notin> D) (ow_children w) = ow_children w"
    using assms by (auto simp: filter_id_conv child_rel_def)
  with assms(2) True show ?thesis by (simp add: prune_def)
qed (use assms(2) in \<open>simp add: prune_def\<close>)

lemma prunable_subtrees:
  assumes "forest_inv own" "\<forall>i \<in> R. active own i" "unborrowed own (\<Union>i \<in> R. subtree own i)"
  shows "prunable own (\<Union>i \<in> R. subtree own i)"
  using assms subtree_active [OF assms(1)]
  by (auto simp: prunable_def subtree_def intro: rtrancl_into_rtrancl)

lemma enters_subtree:
  assumes inv: "forest_inv own" and edge: "(x, y) \<in> child_rel own" "x \<notin> subtree own i" "y \<in> subtree own i"
  shows "y = i"
proof (rule ccontr)
  assume "y \<noteq> i"
  then obtain z where "(i, z) \<in> (child_rel own)\<^sup>*" "(z, y) \<in> child_rel own"
    using edge(3) by (auto simp: subtree_def elim: rtranclE)
  moreover from this edge(1) have "z = x"
    using child_rel_unique [OF inv] by (auto dest: single_valuedD)
  ultimately show False using edge(2) by (simp add: subtree_def)
qed

lemma unlink_prune:
  assumes inv: "forest_inv (owners s)" and i: "active (owners s) i" and j: "j \<notin> subtree (owners s) i"
  shows "owners (unlink i s) j = map_option (prune (subtree (owners s) i) j) (owners s j)"
proof (cases "(j, i) \<in> child_rel (owners s)")
  case True
  then obtain w v where w: "owners s i = Some w" "ow_parent w = Some j" "owners s j = Some v" "ow_status v = OwnerActive"
    using forest_inv_parent [OF inv True] by (auto simp: child_rel_def)
  have "c \<in> subtree (owners s) i \<longleftrightarrow> c = i" if "c \<in> set (ow_children v)" for c
    using that w j enters_subtree [OF inv, of j c i] by (auto simp: child_rel_def)
  then have "filter (\<lambda>c. c \<noteq> i) (ow_children v) = filter (\<lambda>c. c \<notin> subtree (owners s) i) (ow_children v)"
    by (intro filter_cong) auto
  then show ?thesis using w j by (simp add: unlink_def prune_def)
next
  case False
  have "j \<noteq> i" using j by auto
  moreover have "ow_parent w \<noteq> Some j" if "owners s i = Some w" for w
    using False inv i that unfolding forest_inv_def active_def by fastforce
  ultimately have "owners (unlink i s) j = owners s j" by (intro unlink_other) auto
  moreover have "c \<notin> subtree (owners s) i" if "(j, c) \<in> child_rel (owners s)" for c
    using that False j enters_subtree [OF inv that j] by auto
  ultimately show ?thesis
    using prune_outside [of "owners s" j] j by (cases "owners s j") auto
qed

lemma unlink_inside:
  assumes inv: "forest_inv (owners s)" and i: "active (owners s) i" and j: "j \<in> subtree (owners s) i"
  shows "owners (unlink i s) j = owners s j"
proof -
  have "ow_parent w \<noteq> Some j" if "owners s i = Some w" for w
  proof
    assume "ow_parent w = Some j"
    then have "(j, i) \<in> child_rel (owners s)"
      using inv i that unfolding forest_inv_def active_def by fastforce
    then show False using not_own_descendant [OF inv] j by blast
  qed
  then show ?thesis by (cases "j = i") (auto simp: unlink_def split: option.splits)
qed

lemma held_by_unlink: "held_by (owners (unlink i s)) D = held_by (owners s) D"
proof -
  have "(\<exists>w. owners (unlink i s) j = Some w \<and> ow_allocation w = a) \<longleftrightarrow> (\<exists>w. owners s j = Some w \<and> ow_allocation w = a)" for j a
    by (auto simp: unlink_def split: option.splits if_splits)
  then show ?thesis unfolding held_by_def by simp
qed

lemma lifecycle_inv_dropped:
  assumes inv: "lifecycle_inv s" and i: "active (owners s) i"
    and unb: "unborrowed (owners s) (subtree (owners s) i)"
    and rel: "released (subtree (owners s) i) {} (unlink i s) s'"
  shows "lifecycle_inv s'"
proof -
  let ?D = "subtree (owners s) i"
  note d = lifecycle_invD [OF inv]
  have wf: "maps_wf (unlink i s)"
    using d(1) by (auto simp: maps_wf_def unlink_def split: option.splits)
  have own: "owners s' j = map_option (prune ?D j) (owners s j)" for j
    using rel unlink_prune [OF d(3) i, of j] unlink_inside [OF d(3) i, of j]
    by (cases "j \<in> ?D") (auto simp: released_def prune_def option.map_ident intro!: option.map_cong)
  have prn: "prunable (owners s) ?D" using prunable_subtrees [OF d(3), of "{i}"] i unb by simp
  show ?thesis
    by (rule lifecycle_inv_pruned [OF inv prn released_maps_wf [OF rel wf] own, where C = "{}" and gone = "[]"])
      (use rel in \<open>auto simp: released_def held_by_unlink map_of_keep all_entries_strip option.map_ident\<close>)
qed

lemma depth_bound_Suc: "\<exists>n. depth_bound s = Suc n"
  by (simp add: depth_bound_def)

lemma drop_value_rejects:
  "owners s i = None \<Longrightarrow> drop_value i s = (Fail (UnknownOwner i), s)"
  "owners s i = Some w \<Longrightarrow> ow_status w = OwnerMoved \<Longrightarrow> drop_value i s = (Fail (UseAfterMove i), s)"
  "owners s i = Some w \<Longrightarrow> ow_status w = OwnerDropped \<Longrightarrow> drop_value i s = (Fail (DoubleFree i), s)"
  using depth_bound_Suc [of s]
  by (auto simp: drop_value_def get_owner_def sbind_def sget_def sret_def sfail_def)

lemma search_subtree:
  assumes inv: "lifecycle_inv s" and i: "active (owners s) i"
  shows "\<exists>r. first_borrowed_in_subtree (depth_bound s) s i = Some r
    \<and> (r = None \<longleftrightarrow> unborrowed (owners s) (subtree (owners s) i))
    \<and> (\<forall>b. r = Some b \<longrightarrow> b \<in> subtree (owners s) i \<and> borrows_of (owners s) b \<noteq> [])"
proof -
  have f: "forest (owners s) [i] (subtree (owners s) i)"
    using forest_single [OF lifecycle_invD(3) [OF inv] finite_dom_map_of] i by blast
  obtain r where r: "first_some (first_borrowed_in_subtree (depth_bound s) s) [i] = Some r"
      "r = None \<longleftrightarrow> unborrowed (owners s) (subtree (owners s) i)"
      "\<forall>b. r = Some b \<longrightarrow> b \<in> subtree (owners s) i \<and> (\<exists>w. owners s b = Some w \<and> ow_borrows w \<noteq> [])"
    using first_borrowed_forest [OF f, of "depth_bound s"] forest_card [OF f] by auto
  then have "first_borrowed_in_subtree (depth_bound s) s i = Some r"
    by (auto split: option.splits)
  with r(2,3) show ?thesis by (auto simp: borrows_of_def)
qed

lemma drop_value_borrowed:
  assumes inv: "lifecycle_inv s" and i: "active (owners s) i"
    and "\<not> unborrowed (owners s) (subtree (owners s) i)"
  shows "\<exists>b \<in> subtree (owners s) i. borrows_of (owners s) b \<noteq> [] \<and> drop_value i s = (Fail (BorrowStillActive b), s)"
proof -
  obtain b where b: "first_borrowed_in_subtree (depth_bound s) s i = Some (Some b)"
      "b \<in> subtree (owners s) i" "borrows_of (owners s) b \<noteq> []"
    using search_subtree [OF inv i] assms(3) by auto
  have "drop_value i s = (Fail (BorrowStillActive b), s)"
    using i b(1) depth_bound_Suc [of s]
    by (auto simp: drop_value_def active_def get_owner_def sbind_def sget_def sret_def sfail_def fuelled_def
      simp del: first_borrowed_in_subtree.simps)
  with b(2,3) show ?thesis by blast
qed

lemma drop_value_released:
  assumes inv: "lifecycle_inv s" and i: "active (owners s) i"
    and unb: "unborrowed (owners s) (subtree (owners s) i)"
  shows "\<exists>s'. drop_value i s = (Done (), s') \<and> released (subtree (owners s) i) {} (unlink i s) s'"
  unfolding drop_value_def
proof (rule drop_owner_released [OF _ unb])
  note d = lifecycle_invD [OF inv]
  show f: "forest (owners s) [i] (subtree (owners s) i)"
    using forest_single [OF d(3) finite_dom_map_of] i by blast
  show "card (subtree (owners s) i) \<le> depth_bound s" using forest_card [OF f] by simp
  fix w p assume "owners s i = Some w" "ow_parent w = Some p"
  then have edge: "(p, i) \<in> child_rel (owners s)"
    using d(3) i unfolding forest_inv_def active_def by fastforce
  then show "p \<in> dom (owners s) - subtree (owners s) i"
    using not_own_descendant [OF d(3) edge] by (auto simp: child_rel_def)
qed

lemma keeps_drop_value: "keeps (drop_value i)"
proof (rule keepsI)
  fix s assume inv: "lifecycle_inv s"
  show "wp (drop_value i) (\<lambda>_. lifecycle_inv) (\<lambda>_ s'. s' = s) s"
  proof (cases "active (owners s) i")
    case True
    show ?thesis
    proof (cases "unborrowed (owners s) (subtree (owners s) i)")
      case unb: True
      with True show ?thesis
        using drop_value_released [OF inv True unb] lifecycle_inv_dropped [OF inv True unb] by (auto simp: wp_def)
    next
      case False
      with True show ?thesis using drop_value_borrowed [OF inv True False] by (auto simp: wp_def)
    qed
  next
    case False
    then show ?thesis
      using drop_value_rejects [of s i]
      by (cases "owners s i"; cases "ow_status (the (owners s i))") (auto simp: active_def wp_def)
  qed
qed

section \<open>Closing a resource\<close>

lemma lifecycle_inv_closed:
  assumes inv: "lifecycle_inv s" and rel: "released {} C s s'"
  shows "lifecycle_inv s'"
proof (rule lifecycle_inv_pruned [OF inv, where D = "{}" and C = C and gone = "[]"])
  note d = lifecycle_invD [OF inv]
  show "maps_wf s'" by (rule released_maps_wf [OF rel d(1)])
  show "prunable (owners s) {}" by (simp add: prunable_def unborrowed_def)
  show "owners s' j = map_option (prune {} j) (owners s j)" for j
    using rel by (cases "owners s j") (auto simp: released_def prune_def)
qed (use rel in \<open>auto simp: released_def map_idI map_of_keep\<close>)

lemma drop_resource_fails:
  "resources s i = None \<Longrightarrow> drop_resource i s = (Fail (UnknownResource i), s)"
  "resources s i = Some r \<Longrightarrow> rs_status r = ResourceMoved \<Longrightarrow> drop_resource i s = (Fail (ResourceUseAfterClose i), s)"
  by (simp_all add: drop_resource_def get_resource_def sbind_def sget_def sret_def sfail_def)

lemma keeps_drop_resource: "keeps (drop_resource i)"
proof (rule keepsI)
  fix s assume inv: "lifecycle_inv s"
  have wf: "bt_wf (lr_resources s)" using lifecycle_invD(1) [OF inv] by (simp add: maps_wf_def)
  consider "resources s i = None" | r where "resources s i = Some r" "rs_status r = ResourceMoved"
    | r where "resources s i = Some r" "rs_status r \<noteq> ResourceMoved" by (cases "resources s i") auto
  then show "wp (drop_resource i) (\<lambda>_. lifecycle_inv) (\<lambda>_ s'. s' = s) s"
  proof cases
    case 3
    then show ?thesis
      using drop_resource_released [OF wf 3] lifecycle_inv_closed [OF inv] by (auto simp: wp_def)
  qed (auto simp: drop_resource_fails wp_def)
qed

lemma close_resource_drop:
  "resources s i = Some r \<Longrightarrow> rs_status r = ResourceActive \<Longrightarrow> close_resource i s = drop_resource i s"
  by (simp add: drop_resource_def get_resource_def sbind_def sget_def sret_def)

lemma keeps_close_resource: "keeps (close_resource i)"
proof (rule keepsI)
  fix s assume inv: "lifecycle_inv s" and ids: "ids_left s"
  consider r where "resources s i = Some r" "rs_status r = ResourceActive"
    | "\<forall>r. resources s i = Some r \<longrightarrow> rs_status r \<noteq> ResourceActive" by auto
  then show "wp (close_resource i) (\<lambda>_. lifecycle_inv) (\<lambda>_ s'. s' = s) s"
  proof cases
    case 1
    then show ?thesis
      using keeps_drop_resource [of i] inv ids by (simp add: keeps_def wp_def close_resource_drop)
  next
    case 2
    then show ?thesis
      by (auto simp: close_resource_def wp_simps split: option.split resource_status.split)
  qed
qed

section \<open>Leaving a scope\<close>

fun entry_owners :: "scope_entry list \<Rightarrow> owner_id list" where
  "entry_owners [] = []"
| "entry_owners (OwnerEntry i # es) = i # entry_owners es"
| "entry_owners (ResourceEntry r # es) = entry_owners es"

lemma set_entry_owners: "i \<in> set (entry_owners es) \<longleftrightarrow> OwnerEntry i \<in> set es"
  by (induction es rule: entry_owners.induct) auto

lemma distinct_entry_owners: "distinct es \<Longrightarrow> distinct (entry_owners es)"
  by (induction es rule: entry_owners.induct) (auto simp: set_entry_owners)

lemma entry_owners_append [simp]: "entry_owners (xs @ ys) = entry_owners xs @ entry_owners ys"
  by (induction xs rule: entry_owners.induct) auto

lemma entry_owners_rev: "entry_owners (rev es) = rev (entry_owners es)"
  by (induction es rule: entry_owners.induct) auto

definition entry_resources :: "scope_entry list \<Rightarrow> resource_id set" where
  "entry_resources es = {r. ResourceEntry r \<in> set es}"

lemma search_entries:
  "first_some (entry_borrowed s) es = first_some (first_borrowed_in_subtree (depth_bound s) s) (entry_owners es)"
  by (induction es rule: entry_owners.induct) (auto split: option.split)

text \<open>One entry: an owner without parent is dropped with its subtree, a resource is closed.\<close>

lemma drop_root_released:
  assumes "forest (owners s) [i] D" "unborrowed (owners s) D" "\<forall>w. owners s i = Some w \<longrightarrow> ow_parent w = None"
  shows "\<exists>s'. drop_value i s = (Done (), s') \<and> released D {} s s'"
proof -
  have "unlink i s = s" using assms(3) by (auto simp: unlink_def split: option.splits)
  then show ?thesis
    using drop_owner_released [OF assms(1,2), of "depth_bound s"] forest_card [OF assms(1)] assms(3)
    by (auto simp: drop_value_def)
qed

definition cleanable :: "scope_entry list \<Rightarrow> owner_id set \<Rightarrow> lifecycle_runtime \<Rightarrow> bool" where
  "cleanable es D s \<longleftrightarrow> maps_wf s \<and> forest (owners s) (entry_owners es) D \<and> unborrowed (owners s) D
     \<and> (\<forall>i w. OwnerEntry i \<in> set es \<longrightarrow> owners s i = Some w \<longrightarrow> ow_parent w = None)
     \<and> (\<forall>r. ResourceEntry r \<in> set es \<longrightarrow> (\<exists>x. resources s r = Some x \<and> rs_status x \<noteq> ResourceMoved))"

lemma cleanable_released:
  assumes es: "cleanable es B s" and rel: "released A C s s1" and dis: "A \<inter> B = {}"
  shows "cleanable es B s1"
proof -
  have f: "forest (owners s) (entry_owners es) B" and unb: "unborrowed (owners s) B" and wf: "maps_wf s"
    using es by (simp_all add: cleanable_def)
  have out: "owners s1 j = owners s j" if "j \<in> B" for j
    using that dis by (intro released_owner_outside [OF rel]) auto
  have kept: "OwnerEntry j \<in> set es \<Longrightarrow> owners s1 j = owners s j" for j
    using out forest_roots [OF f] set_entry_owners by blast
  have "\<exists>x. resources s1 r = Some x \<and> rs_status x \<noteq> ResourceMoved" if r: "ResourceEntry r \<in> set es" for r
  proof -
    obtain x where "resources s r = Some x" "rs_status x \<noteq> ResourceMoved"
      using es r unfolding cleanable_def by blast
    then show ?thesis using rel by (simp add: released_def close_mark_status)
  qed
  then show ?thesis
    using es kept out unb released_maps_wf [OF rel wf] forest_released [OF rel f dis]
    by (simp add: cleanable_def unborrowed_def)
qed

lemma cleanable_owner:
  assumes "cleanable (OwnerEntry i # es) D s"
  shows "\<exists>A B s1. D = A \<union> B \<and> drop_value i s = (Done (), s1) \<and> released A {} s s1 \<and> cleanable es B s1"
proof -
  from assms obtain w A B where D: "D = insert i (A \<union> B)" "owners s i = Some w" "ow_status w = OwnerActive"
      "forest (owners s) (ow_children w) A" "forest (owners s) (entry_owners es) B" "i \<notin> A" "i \<notin> B" "A \<inter> B = {}"
    by (auto simp: cleanable_def elim: forest_ConsE)
  have one: "forest (owners s) [i] (insert i A)"
    using forest_Cons [of "owners s" i w A "[]" "{}"] D by simp
  have unb: "unborrowed (owners s) (insert i A)" "unborrowed (owners s) B"
    using assms by (auto simp: cleanable_def D(1) unborrowed_def)
  obtain s1 where s1: "drop_value i s = (Done (), s1)" "released (insert i A) {} s s1"
    using drop_root_released [OF one unb(1)] assms by (auto simp: cleanable_def)
  have "cleanable es B s" using assms D(5) unb(2) by (simp add: cleanable_def)
  then have "cleanable es B s1" by (rule cleanable_released [OF _ s1(2)]) (use D(7,8) in auto)
  with s1 show ?thesis by (intro exI [of _ "insert i A"] exI [of _ B] exI [of _ s1]) (simp add: D(1))
qed

lemma cleanable_resource:
  assumes "cleanable (ResourceEntry r # es) D s"
  shows "\<exists>s1. drop_resource r s = (Done (), s1) \<and> released {} {r} s s1 \<and> cleanable es D s1"
proof -
  obtain x where x: "resources s r = Some x" "rs_status x \<noteq> ResourceMoved"
    using assms unfolding cleanable_def by force
  have "bt_wf (lr_resources s)" using assms by (simp add: cleanable_def maps_wf_def)
  then obtain s1 where s1: "drop_resource r s = (Done (), s1)" "released {} {r} s s1"
    using drop_resource_released [OF _ x] by blast
  have "cleanable es D s" using assms by (simp add: cleanable_def)
  then have "cleanable es D s1" by (rule cleanable_released [OF _ s1(2)]) simp
  with s1 show ?thesis by blast
qed

lemma cleanup_entries:
  "cleanable es D s \<Longrightarrow>
   \<exists>s'. cleanup_each drop_entry es None s = (Done None, s') \<and> released D (entry_resources es) s s'"
proof (induction es arbitrary: s D)
  case Nil
  then have "released D (entry_resources []) s s"
    using released_same [of s s] by (simp add: entry_resources_def cleanable_def)
  then show ?case by (simp add: sret_def)
next
  case (Cons e es)
  show ?case
  proof (cases e)
    case (OwnerEntry i)
    obtain A B s1 where s1: "D = A \<union> B" "drop_value i s = (Done (), s1)" "released A {} s s1" "cleanable es B s1"
      using cleanable_owner [OF Cons.prems [unfolded OwnerEntry]] by blast
    obtain s2 where s2: "cleanup_each drop_entry es None s1 = (Done None, s2)" "released B (entry_resources es) s1 s2"
      using Cons.IH [OF s1(4)] by blast
    have "{} \<union> entry_resources es = entry_resources (e # es)"
      by (auto simp: entry_resources_def OwnerEntry)
    then have "released D (entry_resources (e # es)) s s2"
      using released_trans [OF s1(3) s2(2)] by (simp only: s1(1))
    then show ?thesis using s1(2) s2(1) by (simp add: OwnerEntry)
  next
    case (ResourceEntry r)
    obtain s1 where s1: "drop_resource r s = (Done (), s1)" "released {} {r} s s1" "cleanable es D s1"
      using cleanable_resource [OF Cons.prems [unfolded ResourceEntry]] by blast
    obtain s2 where s2: "cleanup_each drop_entry es None s1 = (Done None, s2)" "released D (entry_resources es) s1 s2"
      using Cons.IH [OF s1(3)] by blast
    have "{r} \<union> entry_resources es = entry_resources (e # es)" "{} \<union> D = D"
      by (auto simp: entry_resources_def ResourceEntry)
    then have "released D (entry_resources (e # es)) s s2"
      using released_trans [OF s1(2) s2(2)] by (simp only:)
    then show ?thesis using s1(1) s2(1) by (simp add: ResourceEntry)
  qed
qed

text \<open>The obligations of the innermost scope.\<close>

definition scope_subtrees :: "lifecycle_runtime \<Rightarrow> owner_id set" where
  "scope_subtrees s = (\<Union>i \<in> set (entry_owners (sc_entries (last (lr_scopes s)))). subtree (owners s) i)"

definition scope_resources :: "lifecycle_runtime \<Rightarrow> resource_id set" where
  "scope_resources s = entry_resources (sc_entries (last (lr_scopes s)))"

lemma roots_incomparable:
  assumes inv: "forest_inv own" and R: "\<forall>i \<in> R. root own i"
  shows "incomparable own R"
  unfolding incomparable_def
proof (intro ballI impI, rule ccontr)
  fix i j assume ij: "i \<in> R" "j \<in> R" "j \<in> subtree own i" "i \<noteq> j"
  then obtain z where "(z, j) \<in> child_rel own" by (auto simp: subtree_def elim: rtranclE)
  then show False using forest_inv_parent [OF inv] R ij(2) by (fastforce simp: root_def)
qed

lemma scope_forest:
  assumes inv: "lifecycle_inv s" and ne: "lr_scopes s \<noteq> []"
  shows "forest (owners s) (entry_owners (sc_entries (last (lr_scopes s)))) (scope_subtrees s)"
    and "\<forall>i \<in> set (entry_owners (sc_entries (last (lr_scopes s)))). root (owners s) i"
proof -
  note d = lifecycle_invD [OF inv]
  let ?es = "sc_entries (last (lr_scopes s))"
  show R: "\<forall>i \<in> set (entry_owners ?es). root (owners s) i"
    using d(6) unfolding scope_inv_def all_entries_snoc [OF ne] by (auto simp: set_entry_owners)
  have "distinct ?es" using d(6) unfolding scope_inv_def all_entries_snoc [OF ne] by simp
  then show "forest (owners s) (entry_owners ?es) (scope_subtrees s)"
    unfolding scope_subtrees_def using R
    by (intro forest_subtrees d(3) finite_dom_map_of distinct_entry_owners roots_incomparable)
      (auto simp: root_def active_def)
qed

lemma scope_cleanable:
  assumes inv: "lifecycle_inv s" and ne: "lr_scopes s \<noteq> []" and unb: "unborrowed (owners s) (scope_subtrees s)"
  shows "cleanable (rev (sc_entries (last (lr_scopes s)))) (scope_subtrees s) (s\<lparr>lr_scopes := scs, lr_operations := ops\<rparr>)"
proof -
  note d = lifecycle_invD [OF inv] and f = scope_forest [OF inv ne]
  have "maps_wf (s\<lparr>lr_scopes := scs, lr_operations := ops\<rparr>)" using d(1) by (simp add: maps_wf_def)
  moreover have "\<forall>r. ResourceEntry r \<in> set (sc_entries (last (lr_scopes s))) \<longrightarrow>
      (\<exists>x. resources s r = Some x \<and> rs_status x \<noteq> ResourceMoved)"
    using d(6) unfolding scope_inv_def all_entries_snoc [OF ne] by auto
  moreover have "ow_parent w = None" if "OwnerEntry i \<in> set (sc_entries (last (lr_scopes s)))" "owners s i = Some w" for i w
  proof -
    have "root (owners s) i" using f(2) that(1) set_entry_owners by blast
    with that(2) show ?thesis by (simp add: root_def)
  qed
  ultimately show ?thesis
    using f(1) unb unfolding cleanable_def entry_owners_rev by (auto intro: forest_rev)
qed

text \<open>Leaving a scope discharges all of its obligations, or rejects and changes nothing.\<close>

lemma exit_scope_released:
  assumes inv: "lifecycle_inv s" and ne: "lr_scopes s \<noteq> []" and unb: "unborrowed (owners s) (scope_subtrees s)"
  shows "\<exists>s'. exit_scope reason s = (Done (), s')
    \<and> released (scope_subtrees s) (scope_resources s) (s\<lparr>lr_scopes := butlast (lr_scopes s)\<rparr>) s'"
proof -
  note f = scope_forest [OF inv ne]
  let ?es = "sc_entries (last (lr_scopes s))"
  let ?s0 = "s\<lparr>lr_scopes := butlast (lr_scopes s), lr_operations :=
    lr_operations s @ map defer_operation (rev (sc_deferred (last (lr_scopes s))))\<rparr>"
  have found: "first_some (entry_borrowed s) ?es = Some None"
    using first_borrowed_forest [OF f(1), of "depth_bound s"] forest_card [OF f(1)] unb
    unfolding search_entries by auto
  obtain s1 where s1: "cleanup_each drop_entry (rev ?es) None ?s0 = (Done None, s1)"
      "released (scope_subtrees s) (entry_resources (rev ?es)) ?s0 s1"
    using cleanup_entries [OF scope_cleanable [OF inv ne unb]] by blast
  have "\<exists>ops. exit_scope reason s = (Done (), s1\<lparr>lr_operations := ops\<rparr>)"
    using ne s1(1) by (auto simp: exit_scope_def sbind_def sget_def smodify_def sret_def fuelled_def found Let_def
      record_op_def report_def)
  then show ?thesis using s1(2) by (auto simp: released_def scope_resources_def entry_resources_def)
qed

lemma exit_scope_borrowed:
  assumes inv: "lifecycle_inv s" and ne: "lr_scopes s \<noteq> []" and bor: "\<not> unborrowed (owners s) (scope_subtrees s)"
  shows "\<exists>b \<in> scope_subtrees s. borrows_of (owners s) b \<noteq> [] \<and> exit_scope reason s = (Fail (BorrowStillActive b), s)"
proof -
  note f = scope_forest [OF inv ne]
  obtain b where b: "first_some (entry_borrowed s) (sc_entries (last (lr_scopes s))) = Some (Some b)"
      "b \<in> scope_subtrees s" "borrows_of (owners s) b \<noteq> []"
    using first_borrowed_forest [OF f(1), of "depth_bound s"] forest_card [OF f(1)] bor
    unfolding search_entries borrows_of_def by fastforce
  have "exit_scope reason s = (Fail (BorrowStillActive b), s)"
    using ne b(1) by (simp add: exit_scope_def sbind_def sget_def sfail_def fuelled_def Let_def)
  with b show ?thesis by blast
qed

lemma exit_scope_underflow: "lr_scopes s = [] \<Longrightarrow> exit_scope reason s = (Fail ScopeUnderflow, s)"
  by (simp add: exit_scope_def sbind_def sget_def sfail_def)

lemma root_closed:
  assumes "forest_inv own" "\<forall>i \<in> R. root own i" "(x, y) \<in> child_rel own" "x \<notin> (\<Union>i \<in> R. subtree own i)"
  shows "y \<notin> (\<Union>i \<in> R. subtree own i)"
proof
  assume "y \<in> (\<Union>i \<in> R. subtree own i)"
  then obtain i where i: "i \<in> R" "y \<in> subtree own i" by blast
  then have "y = i" using enters_subtree [OF assms(1,3)] assms(4) by blast
  then show False using forest_inv_parent [OF assms(1,3)] assms(2) i(1) by (auto simp: root_def)
qed

lemma lifecycle_inv_exited:
  assumes inv: "lifecycle_inv s" and ne: "lr_scopes s \<noteq> []" and unb: "unborrowed (owners s) (scope_subtrees s)"
    and rel: "released (scope_subtrees s) (scope_resources s) (s\<lparr>lr_scopes := butlast (lr_scopes s)\<rparr>) s'"
  shows "lifecycle_inv s'"
proof -
  note d = lifecycle_invD [OF inv] and f = scope_forest [OF inv ne]
  let ?D = "scope_subtrees s" and ?es = "sc_entries (last (lr_scopes s))"
  have wf: "maps_wf (s\<lparr>lr_scopes := butlast (lr_scopes s)\<rparr>)" using d(1) by (simp add: maps_wf_def)
  have own: "owners s' j = map_option (prune ?D j) (owners s j)" for j
    using rel prune_outside [of "owners s" j _ ?D] root_closed [OF d(3) f(2), of j]
    by (cases "j \<in> ?D"; cases "owners s j") (auto simp: released_def prune_def scope_subtrees_def)
  have prn: "prunable (owners s) ?D"
    using f(2) unb unfolding scope_subtrees_def
    by (intro prunable_subtrees d(3)) (auto simp: root_def active_def)
  have gone: "i \<in> ?D" if "OwnerEntry i \<in> set ?es" for i
    using that unfolding scope_subtrees_def set_entry_owners [symmetric] by (auto intro: bexI [of _ i])
  show ?thesis
    by (rule lifecycle_inv_pruned [OF inv prn released_maps_wf [OF rel wf] own, where C = "scope_resources s" and gone = ?es])
      (use rel gone in \<open>auto simp: released_def map_of_keep all_entries_strip all_entries_snoc [OF ne]
        scope_resources_def entry_resources_def\<close>)
qed

lemma keeps_exit_scope: "keeps (exit_scope reason)"
proof (rule keepsI)
  fix s assume inv: "lifecycle_inv s"
  consider "lr_scopes s = []"
    | "lr_scopes s \<noteq> []" "unborrowed (owners s) (scope_subtrees s)"
    | "lr_scopes s \<noteq> []" "\<not> unborrowed (owners s) (scope_subtrees s)" by blast
  then show "wp (exit_scope reason) (\<lambda>_. lifecycle_inv) (\<lambda>_ s'. s' = s) s"
  proof cases
    case 1
    then show ?thesis by (simp add: exit_scope_underflow wp_def)
  next
    case 2
    then show ?thesis
      using exit_scope_released [OF inv 2, of reason] lifecycle_inv_exited [OF inv 2] by (auto simp: wp_def)
  next
    case 3
    then show ?thesis using exit_scope_borrowed [OF inv 3, of reason] by (auto simp: wp_def)
  qed
qed

end
