(* ===== verification/Transition_System.thy ===== *)
theory Transition_System
  imports Rust_Monad
begin

text \<open>
  Objects that are driven by calls. A run starts from an initial object and applies calls one after
  another; a failed call is a step too, since the caller keeps the object. The contract below is
  what a failure-atomic object promises of one call, and its consequences hold of every run.
\<close>

inductive reachable :: "('s \<Rightarrow> bool) \<Rightarrow> ('c \<Rightarrow> ('s, 'e, 'a) rust_m) \<Rightarrow> ('s \<Rightarrow> bool) \<Rightarrow> 's \<Rightarrow> bool"
  for init perform ok where
  reachable_init: "init s \<Longrightarrow> reachable init perform ok s"
| reachable_step: "reachable init perform ok s \<Longrightarrow> ok s \<Longrightarrow> perform c s = (r, s') \<Longrightarrow> reachable init perform ok s'"

fun run_calls :: "('c \<Rightarrow> ('s, 'e, 'a) rust_m) \<Rightarrow> ('s \<Rightarrow> bool) \<Rightarrow> 'c list \<Rightarrow> 's \<Rightarrow> 's option" where
  "run_calls perform ok [] s = Some s"
| "run_calls perform ok (c # cs) s = (if ok s then run_calls perform ok cs (snd (perform c s)) else None)"

lemma reachable_run: "reachable init perform ok s \<Longrightarrow> run_calls perform ok cs s = Some s' \<Longrightarrow> reachable init perform ok s'"
proof (induction cs arbitrary: s)
  case (Cons c cs)
  then have "ok s" "run_calls perform ok cs (snd (perform c s)) = Some s'" by (simp_all split: if_splits)
  moreover have "reachable init perform ok (snd (perform c s))"
    by (rule reachable_step [OF Cons.prems(1) \<open>ok s\<close>, of c "fst (perform c s)"]) simp
  ultimately show ?case using Cons.IH by blast
qed simp

locale atomic_calls =
  fixes init :: "'s \<Rightarrow> bool" and perform :: "'c \<Rightarrow> ('s, 'e, 'a) rust_m" and ok inv :: "'s \<Rightarrow> bool"
  assumes init_inv: "init s \<Longrightarrow> inv s"
    and call_inv: "inv s \<Longrightarrow> ok s \<Longrightarrow> wp (perform c) (\<lambda>_. inv) (\<lambda>_ s'. s' = s) s"
begin

lemma call_cases:
  assumes "inv s" "ok s"
  obtains (returns) a s' where "perform c s = (Done a, s')" "inv s'" | (fails) e where "perform c s = (Fail e, s)"
  using call_inv [OF assms, of c] by (auto simp: wp_def split: prod.splits outcome.splits)

lemma reachable_inv: "reachable init perform ok s \<Longrightarrow> inv s"
proof (induction rule: reachable.induct)
  case (reachable_init s)
  then show ?case by (rule init_inv)
next
  case (reachable_step s c r s')
  show ?case
    by (rule call_cases [OF reachable_step.IH reachable_step.hyps(2), of c]) (use reachable_step in auto)
qed

lemma reachable_call:
  assumes "reachable init perform ok s" "ok s"
  shows "(\<exists>a s'. perform c s = (Done a, s')) \<or> (\<exists>e. perform c s = (Fail e, s))"
  by (rule call_cases [OF reachable_inv [OF assms(1)] assms(2), of c]) auto

end

text \<open>
  A detailed object that follows an abstract protocol: an abstraction of its state takes the initial
  objects to start states, and a call to a sequence of protocol steps. What the protocol keeps,
  the object keeps.
\<close>

locale refined_calls =
  fixes init :: "'s \<Rightarrow> bool" and perform :: "'c \<Rightarrow> ('s, 'e, 'a) rust_m" and ok :: "'s \<Rightarrow> bool"
    and abs :: "'s \<Rightarrow> 'p" and start :: "'p \<Rightarrow> bool" and step :: "'p \<Rightarrow> 'p \<Rightarrow> bool"
  assumes init_start: "init s \<Longrightarrow> start (abs s)"
    and call_steps: "start p \<Longrightarrow> step\<^sup>*\<^sup>* p (abs s) \<Longrightarrow> ok s \<Longrightarrow> perform c s = (r, s') \<Longrightarrow> step\<^sup>*\<^sup>* (abs s) (abs s')"
begin

lemma reachable_refines: "reachable init perform ok s \<Longrightarrow> \<exists>p. start p \<and> step\<^sup>*\<^sup>* p (abs s)"
proof (induction rule: reachable.induct)
  case (reachable_init s)
  then show ?case using init_start by blast
next
  case (reachable_step s c r s')
  then show ?case using call_steps by (meson rtranclp_trans)
qed

lemma step_refines:
  assumes "reachable init perform ok s" "ok s" "perform c s = (r, s')"
  shows "step\<^sup>*\<^sup>* (abs s) (abs s')"
  using reachable_refines [OF assms(1)] call_steps assms(2,3) by blast

lemma reachable_transfer:
  assumes "\<And>p. start p \<Longrightarrow> I p" "\<And>p q. I p \<Longrightarrow> step p q \<Longrightarrow> I q" "reachable init perform ok s"
  shows "I (abs s)"
proof -
  obtain p where "start p" "step\<^sup>*\<^sup>* p (abs s)" using reachable_refines [OF assms(3)] by blast
  from this(2,1) show ?thesis by (induction rule: rtranclp_induct) (use assms(1,2) in blast)+
qed

end

end
