(* ===== verification/Lifecycle_Theorems.thy ===== *)
theory Lifecycle_Theorems
  imports Lifecycle_Exit Transition_System "HOL-Library.Code_Target_Numeral"
begin

text \<open>
  The lifecycle runtime as its clients drive it, and what every sequence of calls guarantees.
\<close>

section \<open>Calls\<close>

datatype lifecycle_call =
    EnterScope
  | Defer string
  | Allocate nat bool "string option"
  | Resize owner_id nat
  | WriteBytes owner_id nat "byte list"
  | ReadBytes owner_id nat nat
  | CopyValue owner_id
  | CloneValue owner_id
  | MoveValue owner_id
  | AttachChild owner_id owner_id
  | Borrow owner_id borrow_mode
  | EndBorrow borrow_id
  | OpenResource string "string option"
  | MoveResource resource_id
  | UseResource resource_id
  | CloseResource resource_id
  | DropResource resource_id
  | DropValue owner_id
  | ExitScope exit_reason

definition discard :: "'a lifecycle_m \<Rightarrow> unit lifecycle_m" where
  "discard m = sbind m (\<lambda>_. sret ())"

fun lifecycle_perform :: "lifecycle_call \<Rightarrow> unit lifecycle_m" where
  "lifecycle_perform EnterScope = enter_scope"
| "lifecycle_perform (Defer a) = defer_action a"
| "lifecycle_perform (Allocate n c src) = discard (allocate_with_source n c src)"
| "lifecycle_perform (Resize i n) = resize i n"
| "lifecycle_perform (WriteBytes i off bs) = write_bytes i off bs"
| "lifecycle_perform (ReadBytes i off n) = discard (read_bytes i off n)"
| "lifecycle_perform (CopyValue i) = discard (copy_value i)"
| "lifecycle_perform (CloneValue i) = discard (clone_value i)"
| "lifecycle_perform (MoveValue i) = discard (move_value i)"
| "lifecycle_perform (AttachChild p c) = attach_child p c"
| "lifecycle_perform (Borrow i m) = discard (borrow i m)"
| "lifecycle_perform (EndBorrow b) = end_borrow b"
| "lifecycle_perform (OpenResource cap src) = discard (open_resource cap src)"
| "lifecycle_perform (MoveResource r) = discard (move_resource r)"
| "lifecycle_perform (UseResource r) = use_resource r"
| "lifecycle_perform (CloseResource r) = close_resource r"
| "lifecycle_perform (DropResource r) = drop_resource r"
| "lifecycle_perform (DropValue i) = drop_value i"
| "lifecycle_perform (ExitScope reason) = exit_scope reason"

definition lifecycle_start :: "lifecycle_runtime \<Rightarrow> bool" where
  "lifecycle_start s \<longleftrightarrow> lr_allocation_limit s \<le> isize_max \<and> s = new_lifecycle_runtime (lr_allocation_limit s)"

abbreviation lifecycle_reachable :: "lifecycle_runtime \<Rightarrow> bool" where
  "lifecycle_reachable \<equiv> reachable lifecycle_start lifecycle_perform ids_left"

lemma keeps_discard: "keeps m \<Longrightarrow> keeps (discard m)"
  by (auto simp: keeps_def discard_def wp_simps elim!: wp_conseq)

lemmas keeps_calls = keeps_enter_scope keeps_defer_action keeps_allocate keeps_resize keeps_write keeps_read
  keeps_copy keeps_clone keeps_move keeps_attach keeps_borrow keeps_end_borrow keeps_open_resource
  keeps_move_resource keeps_use_resource keeps_close_resource keeps_drop_resource keeps_drop_value keeps_exit_scope

lemma keeps_perform: "keeps (lifecycle_perform c)"
  by (cases c) (simp_all add: keeps_calls keeps_discard)

lemma lifecycle_inv_start: "lifecycle_start s \<Longrightarrow> lifecycle_inv s"
proof -
  assume "lifecycle_start s"
  then obtain n where n: "s = new_lifecycle_runtime n" "n \<le> isize_max"
    by (auto simp: lifecycle_start_def)
  have "owners s = Map.empty" by (simp add: n new_lifecycle_runtime_def)
  moreover have "forest_inv Map.empty" by (simp add: forest_inv_def child_rel_def acyclic_def)
  ultimately show ?thesis
    using n(2) by (simp add: lifecycle_inv_def maps_wf_def ids_inv_def alloc_inv_def borrow_inv_def scope_inv_def
        holds_def borrows_of_def root_def all_entries_def n(1)) (simp add: new_lifecycle_runtime_def all_entries_def)
qed

interpretation lifecycle: atomic_calls lifecycle_start lifecycle_perform ids_left lifecycle_inv
  using keeps_perform by unfold_locales (auto simp: lifecycle_inv_start keeps_def)

section \<open>Unwinding\<close>

text \<open>A client that leaves all its scopes.\<close>

primrec exit_all :: "exit_reason \<Rightarrow> nat \<Rightarrow> unit lifecycle_m" where
  "exit_all reason 0 = sret ()"
| "exit_all reason (Suc n) = sbind (exit_scope reason) (\<lambda>_. exit_all reason n)"

lemma no_borrows: "borrow_inv act (borrows_of own) Map.empty \<Longrightarrow> unborrowed own D"
proof -
  assume "borrow_inv act (borrows_of own) Map.empty"
  then have "borrows_of own i = []" for i by (auto simp: borrow_inv_def)
  then have "ow_borrows w = []" if "own i = Some w" for i w
    using that by (metis borrows_of_def option.simps(5))
  then show ?thesis by (simp add: unborrowed_def)
qed

lemma exit_all_done:
  assumes "lifecycle_inv s" "lr_borrows s = []"
  shows "\<exists>s'. exit_all reason (length (lr_scopes s)) s = (Done (), s') \<and> lifecycle_inv s' \<and> lr_scopes s' = []"
  using assms
proof (induction "length (lr_scopes s)" arbitrary: s)
  case 0
  then show ?case by (simp add: sret_def)
next
  case (Suc n)
  then have ne: "lr_scopes s \<noteq> []" by auto
  have unb: "unborrowed (owners s) (scope_subtrees s)"
    using lifecycle_invD(5) [OF Suc.prems(1)] Suc.prems(2) by (intro no_borrows) simp
  obtain s1 where s1: "exit_scope reason s = (Done (), s1)"
      "released (scope_subtrees s) (scope_resources s) (s\<lparr>lr_scopes := butlast (lr_scopes s)\<rparr>) s1"
    using exit_scope_released [OF Suc.prems(1) ne unb] by blast
  have "lr_borrows s1 = []" "n = length (lr_scopes s1)"
    using s1(2) Suc.prems(2) Suc.hyps(2) by (simp_all add: released_def)
  then obtain s2 where "exit_all reason n s1 = (Done (), s2)" "lifecycle_inv s2" "lr_scopes s2 = []"
    using Suc.hyps(1) [OF _ lifecycle_inv_exited [OF Suc.prems(1) ne unb s1(2)]] by blast
  then show ?case using s1(1) by (simp add: Suc.hyps(2) [symmetric] sbind_def)
qed

text \<open>Without roots there is no active owner.\<close>

lemma no_roots:
  assumes inv: "forest_inv own" and fin: "finite (dom own)" and roots: "\<And>j. \<not> root own j"
  shows "\<not> active own i"
proof -
  have "wf (child_rel own)" using inv by (intro finite_acyclic_wf finite_child_rel fin) (simp add: forest_inv_def)
  then show ?thesis
  proof (induction i rule: wf_induct_rule)
    case (less i)
    show ?case
    proof
      assume "active own i"
      then obtain w where w: "own i = Some w" "ow_status w = OwnerActive" by (auto simp: active_def)
      show False
      proof (cases "ow_parent w")
        case None
        then show False using w roots [of i] by (auto simp: root_def)
      next
        case (Some p)
        then have "(p, i) \<in> child_rel own" using inv w unfolding forest_inv_def by blast
        then show False using less child_rel_active by blast
      qed
    qed
  qed
qed

lemma bt_wf_values: "bt_wf m \<Longrightarrow> v \<in> set (al_values m) \<Longrightarrow> \<exists>k. map_of m k = Some v"
  by (drule bt_wf_distinct) (simp add: al_values_map_of)

lemma no_scopes_no_obligations:
  assumes inv: "lifecycle_inv s" and "lr_scopes s = []"
  shows "outstanding_cleanup_obligations s = 0" "lr_allocations s = []"
proof -
  note d = lifecycle_invD [OF inv]
  have "\<not> root (owners s) j" for j using d(6) assms(2) by (simp add: scope_inv_def)
  then have idle: "\<not> active (owners s) i" for i by (rule no_roots [OF d(3) finite_dom_map_of])
  have wf: "bt_wf (lr_owners s)" "bt_wf (lr_resources s)" using d(1) by (simp_all add: maps_wf_def)
  have "ow_status w \<noteq> OwnerActive" if "w \<in> set (al_values (lr_owners s))" for w
    using idle bt_wf_values [OF wf(1) that] unfolding active_def by blast
  moreover have "rs_status r \<noteq> ResourceActive" if "r \<in> set (al_values (lr_resources s))" for r
    using d(6) assms(2) bt_wf_values [OF wf(2) that] by (auto simp: scope_inv_def)
  ultimately have "filter (\<lambda>w. ow_status w = OwnerActive) (al_values (lr_owners s)) = []"
    "filter (\<lambda>r. rs_status r = ResourceActive) (al_values (lr_resources s)) = []"
    unfolding filter_empty_conv by blast+
  then show "outstanding_cleanup_obligations s = 0" by (simp add: outstanding_cleanup_obligations_def)
  have "\<not> holds (owners s) i a" for i a using idle [of i] unfolding holds_def active_def by blast
  then have "allocations s a = None" for a using d(4) unfolding alloc_inv_def by blast
  then have "allocations s = Map.empty" by (simp add: fun_eq_iff)
  then show "lr_allocations s = []" by simp
qed

section \<open>Bytes\<close>

lemma read_bytes_at:
  assumes "owners s i = Some w" "ow_status w = OwnerActive" "allocations s (ow_allocation w) = Some x"
  shows "read_bytes i off n s =
    (let stop = usize_saturating_add off n in
     if stop > length (al_bytes x) then (Fail (AllocationFailure stop (length (al_bytes x))), s)
     else (Done (take (stop - off) (drop off (al_bytes x))), s))"
  using assms
  by (simp add: read_bytes_def require_active_owner_def get_owner_def sbind_def sget_def sret_def sfail_def sexpect_def Let_def)

lemma read_bytes_idle:
  assumes "\<not> active (owners s) i"
  shows "fst (read_bytes i off n s) = Fail (case owners s i of
      None \<Rightarrow> UnknownOwner i
    | Some w \<Rightarrow> (case ow_status w of OwnerMoved \<Rightarrow> UseAfterMove i | _ \<Rightarrow> UseAfterDrop i))"
  using assms
  by (auto simp: active_def read_bytes_def require_active_owner_def get_owner_def sbind_def sget_def sret_def sfail_def
      split: option.splits owner_status.splits)

lemma read_bytes_cong:
  assumes "owners s' i = owners s i"
    and "\<And>w. owners s i = Some w \<Longrightarrow> ow_status w = OwnerActive \<Longrightarrow>
      \<exists>x. allocations s (ow_allocation w) = Some x \<and> allocations s' (ow_allocation w) = Some x"
  shows "fst (read_bytes i off n s') = fst (read_bytes i off n s)"
proof (cases "active (owners s) i")
  case True
  then obtain w x where w: "owners s i = Some w" "ow_status w = OwnerActive"
      "allocations s (ow_allocation w) = Some x" "allocations s' (ow_allocation w) = Some x"
    using assms(2) by (auto simp: active_def)
  then show ?thesis using read_bytes_at [of s] read_bytes_at [of s'] assms(1) by (simp add: Let_def)
next
  case False
  moreover from this have "\<not> active (owners s') i" using assms(1) by (simp add: active_def)
  ultimately show ?thesis using assms(1) by (simp add: read_bytes_idle)
qed

text \<open>The state after a successful write.\<close>

definition overwrite :: "nat \<Rightarrow> byte list \<Rightarrow> byte list \<Rightarrow> byte list" where
  "overwrite off bs xs = take off xs @ bs @ drop (off + length bs) xs"

lemma length_overwrite [simp]: "off + length bs \<le> length xs \<Longrightarrow> length (overwrite off bs xs) = length xs"
  by (simp add: overwrite_def)

lemma overwrite_inside: "off + length bs \<le> length xs \<Longrightarrow> take (length bs) (drop off (overwrite off bs xs)) = bs"
  by (simp add: overwrite_def)

lemma overwrite_outside:
  assumes "off + length bs \<le> length xs" "k + n \<le> length xs" "k + n \<le> off \<or> off + length bs \<le> k"
  shows "take n (drop k (overwrite off bs xs)) = take n (drop k xs)"
  using assms by (intro nth_equalityI) (auto simp: overwrite_def nth_append)

lemma wp_write:
  assumes inv: "lifecycle_inv s"
  shows "wp (write_bytes i off bs) (\<lambda>_ s'. \<exists>w x. owners s i = Some w \<and> ow_status w = OwnerActive
      \<and> allocations s (ow_allocation w) = Some x \<and> off + length bs \<le> length (al_bytes x) \<and> length (al_bytes x) \<le> isize_max
      \<and> s' = s\<lparr>lr_allocations := al_modify (ow_allocation w) (\<lambda>x. x\<lparr>al_bytes := overwrite off bs (al_bytes x)\<rparr>)
          (lr_allocations s)\<rparr>) (\<lambda>_ s'. s' = s) s"
  unfolding write_bytes_def
proof (rule wp_active_bind [OF inv], goal_cases)
  case (1 w x)
  show ?case
  proof (cases "usize_saturating_add off (length bs) \<le> length (al_bytes x)")
    case True
    with 1 saturating_add_exact [OF True] show ?thesis by (simp add: wp_simps overwrite_def)
  qed (use 1 in \<open>simp add: wp_simps\<close>)
qed simp

lemma saturating_add_fits: "a + b \<le> isize_max \<Longrightarrow> usize_saturating_add a b = a + b"
  by (simp add: usize_saturating_add_def usize_max_def isize_max_def)

lemma distinct_allocations:
  assumes inv: "lifecycle_inv s" and "owners s i = Some w" "ow_status w = OwnerActive"
    "owners s j = Some v" "ow_status v = OwnerActive" "i \<noteq> j"
  shows "ow_allocation w \<noteq> ow_allocation v"
proof
  assume "ow_allocation w = ow_allocation v"
  then have "holds (owners s) i (ow_allocation v)" "holds (owners s) j (ow_allocation v)"
    using assms by (simp_all add: holds_def)
  then show False using lifecycle_invD(4) [OF inv] \<open>i \<noteq> j\<close> unfolding alloc_inv_def by blast
qed

lemma write_read:
  assumes inv: "lifecycle_inv s" and wr: "write_bytes i off bs s = (Done (), s')"
  shows "fst (read_bytes i off (length bs) s') = Done bs"
    and "j \<noteq> i \<or> k + n \<le> off \<or> off + length bs \<le> k \<Longrightarrow> fst (read_bytes j k n s') = fst (read_bytes j k n s)"
proof -
  obtain w x where w: "owners s i = Some w" "ow_status w = OwnerActive" "allocations s (ow_allocation w) = Some x"
      and len: "off + length bs \<le> length (al_bytes x)" "length (al_bytes x) \<le> isize_max"
      and s': "s' = s\<lparr>lr_allocations := al_modify (ow_allocation w) (\<lambda>x. x\<lparr>al_bytes := overwrite off bs (al_bytes x)\<rparr>)
          (lr_allocations s)\<rparr>"
    using wp_Done [OF wp_write [OF inv] wr] by blast
  have own: "owners s' j = owners s j" for j by (simp add: s')
  have al: "allocations s' (ow_allocation w) = Some (x\<lparr>al_bytes := overwrite off bs (al_bytes x)\<rparr>)"
    using w by (simp add: s')
  have own_i: "owners s' i = Some w" using w own by simp
  have fits: "usize_saturating_add off (length bs) = off + length bs" using len by (simp add: saturating_add_fits)
  show "fst (read_bytes i off (length bs) s') = Done bs"
    using len by (simp add: read_bytes_at [OF own_i w(2) al] fits Let_def overwrite_inside)
  assume apart: "j \<noteq> i \<or> k + n \<le> off \<or> off + length bs \<le> k"
  show "fst (read_bytes j k n s') = fst (read_bytes j k n s)"
  proof (cases "j = i")
    case True
    then show ?thesis
      using apart len overwrite_outside [OF len(1), of k n] saturating_add_exact [OF _ len(2), of k n]
      by (auto simp: read_bytes_at [OF own_i w(2) al] read_bytes_at [OF w] Let_def not_less)
  next
    case False
    show ?thesis
    proof (rule read_bytes_cong [OF own])
      fix v assume v: "owners s j = Some v" "ow_status v = OwnerActive"
      then obtain y where "allocations s (ow_allocation v) = Some y" using active_allocation [OF inv v] by blast
      then show "\<exists>x. allocations s (ow_allocation v) = Some x \<and> allocations s' (ow_allocation v) = Some x"
        using distinct_allocations [OF inv w(1,2) v] False by (auto simp: s')
    qed
  qed
qed

section \<open>Moves\<close>

lemma move_read:
  assumes inv: "lifecycle_inv s" and ids: "ids_left s" and mv: "move_value i s = (Done m, s')"
  shows "fst (read_bytes m off n s') = fst (read_bytes i off n s)"
    and "fst (read_bytes i off n s') = Fail (UseAfterMove i)" and "drop_value i s' = (Fail (UseAfterMove i), s')"
proof -
  have post: "lr_allocations s' = lr_allocations s \<and> (\<exists>w. owners s i = Some w \<and> ow_status w = OwnerActive
      \<and> m = lr_next_id s \<and> owners s' = moved_owners i m w (owners s))"
    using wp_Done [OF wp_move_value [OF inv ids] mv] by blast
  then obtain w where w: "owners s i = Some w" "ow_status w = OwnerActive" "m = lr_next_id s"
      "owners s' = moved_owners i m w (owners s)" "lr_allocations s' = lr_allocations s" by blast
  obtain x where x: "allocations s (ow_allocation w) = Some x" using active_allocation [OF inv w(1,2)] by blast
  have "i \<noteq> m" using w lifecycle_invD(2) [OF inv] by (auto simp: ids_inv_def)
  then have gone: "\<exists>v. owners s' i = Some v \<and> ow_status v = OwnerMoved"
    using w by (simp add: moved_owners_def moved_owner_fields)
  have new: "owners s' m = Some (w\<lparr>ow_borrows := []\<rparr>)" by (simp add: w(4) moved_owners_def)
  show "fst (read_bytes m off n s') = fst (read_bytes i off n s)"
    using read_bytes_at [OF w(1,2) x, of off n] read_bytes_at [OF new, of x off n] w x by (simp add: Let_def)
  show "fst (read_bytes i off n s') = Fail (UseAfterMove i)"
    using gone by (subst read_bytes_idle) (auto simp: active_def)
  show "drop_value i s' = (Fail (UseAfterMove i), s')" using gone drop_value_rejects(2) by blast
qed


section \<open>An example run\<close>

text \<open>Two scopes, an aggregate of two values and a file handle; in the second state the child of
  the aggregate is borrowed.\<close>

definition example_calls :: "lifecycle_call list" where
  "example_calls =
     [EnterScope, Allocate 4 True None, EnterScope, Allocate 2 False (Some ''main.ax:3''), AttachChild 2 4,
      WriteBytes 2 1 [7, 9], OpenResource ''fs.read'' None, Defer ''flush'']"

definition example_state :: lifecycle_runtime where
  "example_state = fold (\<lambda>c s. snd (lifecycle_perform c s)) example_calls (new_lifecycle_runtime 64)"

definition borrowed_state :: lifecycle_runtime where
  "borrowed_state = fold (\<lambda>c s. snd (lifecycle_perform c s)) (example_calls @ [Borrow 4 Mutable]) (new_lifecycle_runtime 64)"

lemma example_start: "lifecycle_start (new_lifecycle_runtime 64)"
  by code_simp

lemma example_reachable: "lifecycle_reachable example_state"
  by (rule reachable_run [OF reachable_init [of lifecycle_start, OF example_start], of _ _ example_calls]) code_simp

lemma borrowed_reachable: "lifecycle_reachable borrowed_state"
  by (rule reachable_run [OF reachable_init [of lifecycle_start, OF example_start], of _ _ "example_calls @ [Borrow 4 Mutable]"]) code_simp

section \<open>Theorems\<close>

text \<open>
  C2. Every runtime that calls can produce satisfies the invariant: active owners form a forest
  whose roots stand in exactly one scope, each active owner has an allocation of its own and no
  allocation lacks an active owner, borrows are listed at their active owner and a mutable one is
  alone there, and every active resource stands in a scope.
\<close>

theorem lifecycle_invariant: "lifecycle_reachable s \<Longrightarrow> lifecycle_inv s"
  by (rule lifecycle.reachable_inv)

theorem lifecycle_invariant_witness: "lifecycle_inv borrowed_state"
  by (rule lifecycle_invariant [OF borrowed_reachable])



text \<open>
  C9. Leaving a scope either discharges every obligation of the scope, and touches nothing else,
  or finds a borrowed owner in it, reports that owner and changes nothing. Whether it succeeds
  does not depend on the reason for leaving.
\<close>

theorem exit_scope_all_or_nothing:
  assumes "lifecycle_reachable s" "lr_scopes s \<noteq> []"
  shows "if unborrowed (owners s) (scope_subtrees s)
    then \<exists>s'. exit_scope reason s = (Done (), s')
      \<and> released (scope_subtrees s) (scope_resources s) (s\<lparr>lr_scopes := butlast (lr_scopes s)\<rparr>) s'
    else \<exists>b \<in> scope_subtrees s. borrows_of (owners s) b \<noteq> [] \<and> exit_scope reason s = (Fail (BorrowStillActive b), s)"
  using exit_scope_released [OF lifecycle.reachable_inv [OF assms(1)] assms(2)]
    exit_scope_borrowed [OF lifecycle.reachable_inv [OF assms(1)] assms(2)] by simp

theorem exit_scope_all_or_nothing_witness:
  "\<exists>s'. exit_scope PanicUnwind example_state = (Done (), s') \<and> length (lr_scopes s') = 1"
proof -
  have ok: "lr_scopes example_state \<noteq> []" "length (lr_scopes example_state) = 2"
      "fst (exit_scope PanicUnwind example_state) = Done ()" by code_simp+
  then show ?thesis
    using exit_scope_all_or_nothing [OF example_reachable ok(1), of PanicUnwind]
    by (auto simp: released_def split: if_splits)
qed

text \<open>
  C10. No leak: a client that holds no borrow can leave all its scopes, each exit succeeds, and
  afterwards no allocation is left and no cleanup obligation is outstanding.
\<close>

theorem unwinding_releases_everything:
  assumes "lifecycle_reachable s" "lr_borrows s = []"
  shows "\<exists>s'. exit_all reason (length (lr_scopes s)) s = (Done (), s') \<and> lr_scopes s' = []
    \<and> lr_allocations s' = [] \<and> outstanding_cleanup_obligations s' = 0"
  using exit_all_done [OF lifecycle.reachable_inv [OF assms(1)] assms(2), of reason] no_scopes_no_obligations by blast

theorem unwinding_releases_everything_witness:
  "\<exists>s'. exit_all Cancellation 2 example_state = (Done (), s') \<and> lr_allocations s' = []
    \<and> outstanding_cleanup_obligations example_state = 3 \<and> outstanding_cleanup_obligations s' = 0"
proof -
  have "lr_borrows example_state = []" "length (lr_scopes example_state) = 2"
      "outstanding_cleanup_obligations example_state = 3" by code_simp+
  then show ?thesis
    using unwinding_releases_everything [OF example_reachable, of Cancellation] by auto
qed

text \<open>
  C22. Dropping an active owner releases exactly its subtree and unlinks it from its parent, or
  reports a borrowed owner of the subtree and changes nothing.
\<close>

theorem drop_value_subtree:
  assumes "lifecycle_reachable s" "owners s i = Some w" "ow_status w = OwnerActive"
  shows "if unborrowed (owners s) (subtree (owners s) i)
    then \<exists>s'. drop_value i s = (Done (), s') \<and> released (subtree (owners s) i) {} (unlink i s) s'
    else \<exists>b \<in> subtree (owners s) i. borrows_of (owners s) b \<noteq> [] \<and> drop_value i s = (Fail (BorrowStillActive b), s)"
proof -
  have "active (owners s) i" using assms by (simp add: active_def)
  then show ?thesis
    using drop_value_released [OF lifecycle.reachable_inv [OF assms(1)], of i]
      drop_value_borrowed [OF lifecycle.reachable_inv [OF assms(1)], of i] by simp
qed

theorem drop_value_subtree_witness:
  "\<exists>s'. drop_value 4 example_state = (Done (), s')
    \<and> released (subtree (owners example_state) 4) {} (unlink 4 example_state) s'"
proof -
  let ?w = "\<lparr>ow_allocation = 3, ow_status = OwnerActive, ow_parent = Some 2, ow_children = [], ow_borrows = [],
    ow_source_provenance = Some ''main.ax:3''\<rparr>"
  have ok: "owners example_state 4 = Some ?w" "fst (drop_value 4 example_state) = Done ()" by code_simp+
  then show ?thesis
    using drop_value_subtree [OF example_reachable ok(1)] by (auto split: if_splits)
qed

text \<open>
  C23. After a drop, every owner of the released subtree is dead: dropping it again is a reported
  double free and reading it is a reported use after drop.
\<close>

theorem dropped_owners_are_dead:
  assumes "lifecycle_reachable s" "drop_value i s = (Done (), s')" "d \<in> subtree (owners s) i"
  shows "drop_value d s' = (Fail (DoubleFree d), s') \<and> fst (read_bytes d off n s') = Fail (UseAfterDrop d)"
proof -
  have inv: "lifecycle_inv s" by (rule lifecycle.reachable_inv [OF assms(1)])
  have "active (owners s) i"
    using assms(2) drop_value_rejects [of s i]
    by (cases "owners s i"; cases "ow_status (the (owners s i))") (auto simp: active_def)
  moreover from this have "unborrowed (owners s) (subtree (owners s) i)"
    using drop_value_borrowed [OF inv] assms(2) by fastforce
  ultimately have rel: "released (subtree (owners s) i) {} (unlink i s) s'" "active (owners s) d"
    using drop_value_released [OF inv, of i] assms(2) subtree_active [OF lifecycle_invD(3) [OF inv] _ assms(3)] by auto
  then obtain w where w: "owners s d = Some w" by (auto simp: active_def)
  have "owners (unlink i s) d = Some w"
    using unlink_inside [OF lifecycle_invD(3) [OF inv] \<open>active (owners s) i\<close> assms(3)] w by simp
  then have dead: "owners s' d = Some (drop_mark w)" using rel(1) assms(3) by (simp add: released_def)
  then show ?thesis
    using drop_value_rejects(3) [OF dead] by (simp add: read_bytes_idle active_def)
qed

theorem dropped_owners_are_dead_witness:
  "drop_value 4 (snd (drop_value 2 example_state)) = (Fail (DoubleFree 4), snd (drop_value 2 example_state))"
proof -
  have "fst (drop_value 2 example_state) = Done ()" by code_simp
  then have "drop_value 2 example_state = (Done (), snd (drop_value 2 example_state))" by (metis prod.collapse)
  moreover have kids: "map_option (\<lambda>w. (ow_status w, ow_children w)) (owners example_state 2) = Some (OwnerActive, [4])"
    by code_simp
  then have "(2, 4) \<in> child_rel (owners example_state)" by (auto simp: child_rel_def)
  then have "4 \<in> subtree (owners example_state) 2" by (auto simp: subtree_def)
  ultimately show ?thesis using dropped_owners_are_dead [OF example_reachable] by blast
qed



text \<open>
  C25. Bytes that are written are the bytes that are read, and a write changes nothing else: reads
  of other owners, and of the same owner outside the written range, return what they did before.
\<close>

theorem write_read_roundtrip:
  assumes "lifecycle_reachable s" "write_bytes i off bs s = (Done (), s')"
  shows "fst (read_bytes i off (length bs) s') = Done bs
    \<and> (j \<noteq> i \<or> k + n \<le> off \<or> off + length bs \<le> k \<longrightarrow> fst (read_bytes j k n s') = fst (read_bytes j k n s))"
  using write_read [OF lifecycle.reachable_inv [OF assms(1)] assms(2)] by blast

theorem write_read_roundtrip_witness:
  "fst (read_bytes 2 0 2 (snd (write_bytes 2 0 [1, 2] example_state))) = Done [1, 2]
    \<and> fst (read_bytes 2 2 2 (snd (write_bytes 2 0 [1, 2] example_state))) = fst (read_bytes 2 2 2 example_state)"
proof -
  have "fst (write_bytes 2 0 [1, 2] example_state) = Done ()" by code_simp
  then have "write_bytes 2 0 [1, 2] example_state = (Done (), snd (write_bytes 2 0 [1, 2] example_state))"
    by (metis prod.collapse)
  from write_read_roundtrip [OF example_reachable this, of 2 2 2] show ?thesis by (simp add: numeral_2_eq_2)
qed

text \<open>
  C26. A move hands the bytes to the new owner unchanged, and the old owner can be neither read nor
  dropped any more.
\<close>

theorem move_transfers_ownership:
  assumes "lifecycle_reachable s" "ids_left s" "move_value i s = (Done m, s')"
  shows "fst (read_bytes m off n s') = fst (read_bytes i off n s)
    \<and> fst (read_bytes i off n s') = Fail (UseAfterMove i) \<and> drop_value i s' = (Fail (UseAfterMove i), s')"
  using move_read [OF lifecycle.reachable_inv [OF assms(1)] assms(2,3)] by blast

theorem move_transfers_ownership_witness:
  "fst (read_bytes 6 1 2 (snd (move_value 2 example_state))) = Done [7, 9]"
proof -
  have ok: "fst (move_value 2 example_state) = Done 6" "ids_left example_state"
      "fst (read_bytes 2 1 2 example_state) = Done [7, 9]" by code_simp+
  then have "move_value 2 example_state = (Done 6, snd (move_value 2 example_state))" by (metis prod.collapse)
  from move_transfers_ownership [OF example_reachable ok(2) this, of 1 2] ok(3) show ?thesis by simp
qed

text \<open>
  C27. The walk of \<open>attach_child\<close> to the ancestors ends within the number of owners, and finds the
  candidate exactly when the node lies in the candidate's subtree.
\<close>

theorem has_ancestor_decides:
  assumes "lifecycle_reachable s" "owners s i = Some w" "ow_status w = OwnerActive"
  shows "has_ancestor (depth_bound s) s i c = Some (i \<in> subtree (owners s) c)"
proof -
  have inv: "forest_inv (owners s)" by (rule lifecycle_invD(3) [OF lifecycle.reachable_inv [OF assms(1)]])
  have act: "active (owners s) i" using assms(2,3) by (simp add: active_def)
  show ?thesis by (rule has_ancestor_iff [OF inv act ancestors_bounded(2,1) [OF inv act]])
qed

theorem has_ancestor_decides_witness: "4 \<in> subtree (owners example_state) 2"
proof -
  let ?w = "\<lparr>ow_allocation = 3, ow_status = OwnerActive, ow_parent = Some 2, ow_children = [], ow_borrows = [],
    ow_source_provenance = Some ''main.ax:3''\<rparr>"
  have ok: "owners example_state 4 = Some ?w" "has_ancestor (depth_bound example_state) example_state 4 2 = Some True"
    by code_simp+
  then show ?thesis using has_ancestor_decides [OF example_reachable ok(1), of 2] by simp
qed

end
