(* ===== verification/Rust_Strings.thy ===== *)
theory Rust_Strings
  imports Axiom_Prelude "HOL-Library.Sublist"
begin

text \<open>
  More of Rust's string and path library: patterns, trimming of Unicode white space in UTF-8,
  and the components of a Unix path.
\<close>

section \<open>Patterns\<close>

definition starts_with :: "string \<Rightarrow> string \<Rightarrow> bool" where
  "starts_with s p \<longleftrightarrow> take (length p) s = p"

definition ends_with :: "string \<Rightarrow> string \<Rightarrow> bool" where
  "ends_with s p \<longleftrightarrow> starts_with (rev s) (rev p)"

definition strip_prefix :: "string \<Rightarrow> string \<Rightarrow> string option" where
  "strip_prefix s p = (if starts_with s p then Some (drop (length p) s) else None)"

fun str_contains :: "string \<Rightarrow> string \<Rightarrow> bool" where
  "str_contains [] p \<longleftrightarrow> p = []"
| "str_contains (c # s) p \<longleftrightarrow> starts_with (c # s) p \<or> str_contains s p"

text \<open>\<open>split_once\<close> at the first occurrence of a character.\<close>

fun split_once :: "char \<Rightarrow> string \<Rightarrow> (string \<times> string) option" where
  "split_once c [] = None"
| "split_once c (x # xs) =
     (if x = c then Some ([], xs)
      else (case split_once c xs of None \<Rightarrow> None | Some (a, b) \<Rightarrow> Some (x # a, b)))"

lemma starts_with_iff: "starts_with s p \<longleftrightarrow> (\<exists>t. s = p @ t)"
  by (metis append_eq_conv_conj append_take_drop_id starts_with_def)

lemma starts_with_append [simp]: "starts_with (p @ t) p"
  by (simp add: starts_with_def)

lemma ends_with_iff: "ends_with s p \<longleftrightarrow> (\<exists>t. s = t @ p)"
  by (metis ends_with_def rev_append rev_rev_ident starts_with_iff)

lemma strip_prefix_Some: "strip_prefix s p = Some t \<longleftrightarrow> s = p @ t"
  by (auto simp: strip_prefix_def starts_with_iff)

lemma str_contains_iff: "str_contains s p \<longleftrightarrow> (\<exists>a b. s = a @ p @ b)"
proof (induction s)
  case Nil
  then show ?case by auto
next
  case (Cons c s)
  have "(\<exists>a b. c # s = a @ p @ b) \<longleftrightarrow> (\<exists>b. c # s = p @ b) \<or> (\<exists>a b. s = a @ p @ b)"
    by (metis append_Cons append_Nil list.exhaust list.inject)
  then show ?case using Cons by (simp add: starts_with_iff)
qed

section \<open>White space\<close>

text \<open>The UTF-8 encodings of the characters with the Unicode property White\_Space. No encoding
  is a prefix or a suffix of another, so that matching bytes is matching characters.\<close>

definition white_space :: "string list" where
  "white_space = map (map char_of)
     ([[9], [10], [11], [12], [13], [32], [194, 133], [194, 160], [225, 154, 128]]
      @ map (\<lambda>b. [226, 128, b]) ([128..<139] @ [168, 169, 175]) @ [[226, 129, 159], [227, 128, 128 :: nat]])"

definition ws_prefix :: "string \<Rightarrow> nat option" where
  "ws_prefix s = map_option length (find (starts_with s) white_space)"

lemma white_space_pos: "w \<in> set white_space \<Longrightarrow> 0 < length w"
  by (auto simp: white_space_def)

lemma ws_prefix_pos: "ws_prefix s = Some n \<Longrightarrow> 0 < n \<and> n \<le> length s"
proof -
  assume "ws_prefix s = Some n"
  then obtain w where w: "w \<in> set white_space" "starts_with s w" "n = length w"
    using find_Some_mem by (fastforce simp: ws_prefix_def)
  then show ?thesis using white_space_pos [OF w(1)] by (auto simp: starts_with_iff)
qed

function trim_start :: "string \<Rightarrow> string" where
  "trim_start s = (case ws_prefix s of None \<Rightarrow> s | Some n \<Rightarrow> trim_start (drop n s))"
  by pat_completeness auto

termination
proof (relation "measure length")
  fix s :: string and n assume "ws_prefix s = Some n"
  then have "0 < n" "n \<le> length s" using ws_prefix_pos by auto
  then show "(drop n s, s) \<in> measure length" by auto
qed simp

declare trim_start.simps [simp del]

definition ws_suffix :: "string \<Rightarrow> nat option" where
  "ws_suffix s = map_option length (find (ends_with s) white_space)"

function trim_end :: "string \<Rightarrow> string" where
  "trim_end s = (case ws_suffix s of None \<Rightarrow> s | Some n \<Rightarrow> trim_end (take (length s - n) s))"
  by pat_completeness auto

termination
proof (relation "measure length")
  fix s :: string and n assume "ws_suffix s = Some n"
  then obtain w where w: "w \<in> set white_space" "ends_with s w" "n = length w"
    using find_Some_mem by (fastforce simp: ws_suffix_def)
  then have "0 < n" "n \<le> length s" using white_space_pos [OF w(1)] by (auto simp: ends_with_iff)
  then show "(take (length s - n) s, s) \<in> measure length" by auto
qed simp

declare trim_end.simps [simp del]

definition trim :: "string \<Rightarrow> string" where
  "trim s = trim_end (trim_start s)"

section \<open>Paths\<close>

datatype path_component = RootDir | CurDir | ParentDir | NormalPart string

text \<open>\<open>Path::components\<close> on Unix: empty pieces vanish, and so does a dot that is not the first
  piece of a relative path.\<close>

fun plain_components :: "string list \<Rightarrow> path_component list" where
  "plain_components [] = []"
| "plain_components (p # ps) =
     (if p = '''' \<or> p = ''.'' then plain_components ps
      else if p = ''..'' then ParentDir # plain_components ps
      else NormalPart p # plain_components ps)"

definition is_absolute :: "string \<Rightarrow> bool" where
  "is_absolute p \<longleftrightarrow> starts_with p ''/''"

definition path_components :: "string \<Rightarrow> path_component list" where
  "path_components p =
     (if is_absolute p then RootDir # plain_components (split_on CHR ''/'' p)
      else (case split_on CHR ''/'' p of
          [] \<Rightarrow> []
        | q # qs \<Rightarrow> if q = ''.'' then CurDir # plain_components qs else plain_components (q # qs)))"

fun is_normal_part :: "path_component \<Rightarrow> bool" where
  "is_normal_part (NormalPart _) = True"
| "is_normal_part _ = False"

end
