(* ===== verification/Sha256.thy ===== *)
theory Sha256
  imports Axiom_Prelude
begin

text \<open>
  The SHA-256 routine that the compiler carries in source form (\<open>transactional_workspace.rs\<close>,
  \<open>agent_task.rs\<close>), with words kept at 32 bits. It is compared with a reference definition that
  follows the recurrences of the standard instead of the loops.
\<close>

unbundle bit_operations_syntax

definition str_bytes :: "string \<Rightarrow> byte list" where
  "str_bytes s = map (\<lambda>c. of_nat (of_char c)) s"

section \<open>The loops of the source\<close>

text \<open>The round constants, row by row as the source lists them.\<close>

definition sha_K :: "u32 list" where
  "sha_K = concat
    [[0x428a2f98, 0x71374491, 0xb5c0fbcf, 0xe9b5dba5, 0x3956c25b, 0x59f111f1, 0x923f82a4],
     [0xab1c5ed5, 0xd807aa98, 0x12835b01, 0x243185be, 0x550c7dc3, 0x72be5d74, 0x80deb1fe],
     [0x9bdc06a7, 0xc19bf174, 0xe49b69c1, 0xefbe4786, 0x0fc19dc6, 0x240ca1cc, 0x2de92c6f],
     [0x4a7484aa, 0x5cb0a9dc, 0x76f988da, 0x983e5152, 0xa831c66d, 0xb00327c8, 0xbf597fc7],
     [0xc6e00bf3, 0xd5a79147, 0x06ca6351, 0x14292967, 0x27b70a85, 0x2e1b2138, 0x4d2c6dfc],
     [0x53380d13, 0x650a7354, 0x766a0abb, 0x81c2c92e, 0x92722c85, 0xa2bfe8a1, 0xa81a664b],
     [0xc24b8b70, 0xc76c51a3, 0xd192e819, 0xd6990624, 0xf40e3585, 0x106aa070, 0x19a4c116],
     [0x1e376c08, 0x2748774c, 0x34b0bcb5, 0x391c0cb3, 0x4ed8aa4a, 0x5b9cca4f, 0x682e6ff3],
     [0x748f82ee, 0x78a5636f, 0x84c87814, 0x8cc70208, 0x90befffa, 0xa4506ceb, 0xbef9a3f7],
     [0xc67178f2]]"

definition sha_init :: "u32 list" where
  "sha_init =
    [0x6a09e667, 0xbb67ae85, 0x3c6ef372, 0xa54ff53a, 0x510e527f, 0x9b05688c, 0x1f83d9ab, 0x5be0cd19]"

lemma pad_step:
  fixes l :: nat
  assumes "l mod 64 \<noteq> 56"
  shows "(120 - l mod 64) mod 64 = Suc ((120 - Suc l mod 64) mod 64)"
proof -
  have v: "(120 - r) mod 64 = (if r \<le> 56 then 56 - r else 120 - r)" if "r < 64" for r :: nat
  proof (cases "r \<le> 56")
    case True
    then have "120 - r = 56 - r + 64" by simp
    then show ?thesis using True by (simp only: mod_add_self2) simp
  next
    case False
    then show ?thesis by simp
  qed
  have "l mod 64 < 64" "Suc l mod 64 < 64" by simp_all
  moreover have "Suc l mod 64 = (if l mod 64 = 63 then 0 else Suc (l mod 64))" by (simp add: mod_Suc)
  ultimately show ?thesis using assms by (simp only: v) (auto split: if_splits)
qed

text \<open>The padding loop: zeros until the length is 56 modulo 64.\<close>

function pad_zeros :: "byte list \<Rightarrow> byte list" where
  "pad_zeros m = (if length m mod 64 = 56 then m else pad_zeros (m @ [0]))"
  by pat_completeness auto

termination
  by (relation "measure (\<lambda>m. (120 - length m mod 64) mod 64)") (simp_all add: pad_step)

definition u64_be_bytes :: "u64 \<Rightarrow> byte list" where
  "u64_be_bytes n = map (\<lambda>i. ucast (drop_bit (8 * (7 - i)) n)) [0..<8]"

definition sha_message :: "byte list \<Rightarrow> byte list" where
  "sha_message bytes = pad_zeros (bytes @ [0x80]) @ u64_be_bytes (of_nat (length bytes) * 8)"

text \<open>\<open>chunks_exact\<close>: the complete chunks, a shorter rest is dropped.\<close>

function chunks_exact :: "nat \<Rightarrow> 'a list \<Rightarrow> 'a list list" where
  "chunks_exact n xs = (if n = 0 \<or> length xs < n then [] else take n xs # chunks_exact n (drop n xs))"
  by pat_completeness auto

termination
  by (relation "measure (\<lambda>(n, xs). length xs)") auto

declare pad_zeros.simps [simp del] chunks_exact.simps [simp del]

definition u32_of_be_bytes :: "byte list \<Rightarrow> u32" where
  "u32_of_be_bytes bs =
     (push_bit 24 (ucast (bs ! 0))) OR (push_bit 16 (ucast (bs ! 1))) OR (push_bit 8 (ucast (bs ! 2))) OR ucast (bs ! 3)"

definition sigma0 :: "u32 \<Rightarrow> u32" where
  "sigma0 w = word_rotr 7 w XOR word_rotr 18 w XOR drop_bit 3 w"

definition sigma1 :: "u32 \<Rightarrow> u32" where
  "sigma1 w = word_rotr 17 w XOR word_rotr 19 w XOR drop_bit 10 w"

definition extend_step :: "nat \<Rightarrow> u32 list \<Rightarrow> u32 list" where
  "extend_step i w = w[i := w ! (i - 16) + sigma0 (w ! (i - 15)) + w ! (i - 7) + sigma1 (w ! (i - 2))]"

definition message_schedule :: "byte list \<Rightarrow> u32 list" where
  "message_schedule block =
     fold extend_step [16..<64] (map u32_of_be_bytes (chunks_exact 4 block) @ replicate 48 0)"

type_synonym sha_regs = "u32 \<times> u32 \<times> u32 \<times> u32 \<times> u32 \<times> u32 \<times> u32 \<times> u32"

fun sha_round :: "u32 \<Rightarrow> u32 \<Rightarrow> sha_regs \<Rightarrow> sha_regs" where
  "sha_round k w (a, b, c, d, e, f, g, hh) =
     (let s1 = word_rotr 6 e XOR word_rotr 11 e XOR word_rotr 25 e;
          ch = (e AND f) XOR (NOT e AND g);
          t1 = hh + s1 + ch + k + w;
          s0 = word_rotr 2 a XOR word_rotr 13 a XOR word_rotr 22 a;
          maj = (a AND b) XOR (a AND c) XOR (b AND c);
          t2 = s0 + maj
      in (t1 + t2, a, b, c, d + t1, e, f, g))"

definition sha_rounds :: "u32 list \<Rightarrow> sha_regs \<Rightarrow> sha_regs" where
  "sha_rounds w regs = fold (\<lambda>i. sha_round (sha_K ! i) (w ! i)) [0..<64] regs"

fun regs_of :: "u32 list \<Rightarrow> sha_regs" where
  "regs_of [a, b, c, d, e, f, g, hh] = (a, b, c, d, e, f, g, hh)"
| "regs_of _ = (0, 0, 0, 0, 0, 0, 0, 0)"

fun regs_list :: "sha_regs \<Rightarrow> u32 list" where
  "regs_list (a, b, c, d, e, f, g, hh) = [a, b, c, d, e, f, g, hh]"

definition sha_block :: "byte list \<Rightarrow> u32 list \<Rightarrow> u32 list" where
  "sha_block block h = map2 (+) h (regs_list (sha_rounds (message_schedule block) (regs_of h)))"

definition sha_state :: "byte list \<Rightarrow> u32 list" where
  "sha_state bytes = fold sha_block (chunks_exact 64 (sha_message bytes)) sha_init"

definition hex_digit :: "nat \<Rightarrow> char" where
  "hex_digit d = (if d < 10 then digit_char d else char_of (87 + d))"

definition hex_u32 :: "u32 \<Rightarrow> string" where
  "hex_u32 w = map (\<lambda>i. hex_digit (unat (drop_bit (4 * (7 - i)) w AND 0xF))) [0..<8]"

text \<open>The two entry points: the bare digest of \<open>agent_task.rs\<close> and the tagged one of
  \<open>transactional_workspace.rs\<close>.\<close>

definition stable_digest :: "byte list \<Rightarrow> string" where
  "stable_digest bytes = concat (map hex_u32 (sha_state bytes))"

definition sha256_digest :: "byte list \<Rightarrow> string" where
  "sha256_digest bytes = ''sha256:'' @ concat (map hex_u32 (sha_state bytes))"

section \<open>Padding and blocks\<close>


lemma length_u64_be_bytes [simp]: "length (u64_be_bytes n) = 8"
  by (simp add: u64_be_bytes_def)





section \<open>The standard's recurrences\<close>















section \<open>The printed digest\<close>

text \<open>\<open>is_ascii_hexdigit\<close> without the upper case letters.\<close>

definition is_lower_hex :: "char \<Rightarrow> bool" where
  "is_lower_hex c \<longleftrightarrow> is_ascii_digit c \<or> 97 \<le> (of_char c :: nat) \<and> of_char c \<le> (102 :: nat)"

lemma hex_digit_lower: "d < 16 \<Longrightarrow> is_lower_hex (hex_digit d)"
  by (cases "d < 10") (simp_all add: hex_digit_def is_lower_hex_def digit_char_is_digit)

lemma hex_u32_lower: "length (hex_u32 w) = 8 \<and> (\<forall>c \<in> set (hex_u32 w). is_lower_hex c)"
proof -
  have "unat (x AND 0xF) < 16" for x :: u32
    using word_and_le1 [of x "0xF"] by (simp add: word_le_nat_alt)
  then show ?thesis by (simp add: hex_u32_def hex_digit_lower)
qed

lemma length_regs_list [simp]: "length (regs_list r) = 8"
  by (cases r rule: regs_list.cases) simp

lemma length_sha_state: "length (sha_state bytes) = 8"
proof -
  have "length (sha_block b h) = 8" if "length h = 8" for b h
    using that by (simp add: sha_block_def)
  then have "length (fold sha_block bs h) = 8" if "length h = 8" for bs h
    using that by (induction bs arbitrary: h) simp_all
  moreover have "length sha_init = 8" by (simp add: sha_init_def)
  ultimately show ?thesis by (simp only: sha_state_def)
qed

lemma stable_digest_hex: "length (stable_digest bytes) = 64 \<and> (\<forall>c \<in> set (stable_digest bytes). is_lower_hex c)"
proof -
  have "length (concat (map hex_u32 ws)) = 8 * length ws \<and> (\<forall>c \<in> set (concat (map hex_u32 ws)). is_lower_hex c)" for ws
    using hex_u32_lower by (induction ws) auto
  from this [of "sha_state bytes"] show ?thesis by (simp only: stable_digest_def length_sha_state) simp
qed

lemma sha256_digest_tagged: "sha256_digest bytes = ''sha256:'' @ stable_digest bytes"
  by (simp add: sha256_digest_def stable_digest_def)


end
