(* ===== verification/Agent_Task.thy ===== *)
theory Agent_Task
  imports Rust_Maps Rust_Strings Sha256
begin

text \<open>
  Agent task contracts (\<open>agent_task.rs\<close>): the task specification, its validation against the
  Intent IR, canonicalisation and the compilation to a digest-bound contract. The JSON values that
  a repair diagnostic carries along are a type parameter, and the JSON encoder is an argument of
  the compilation.
\<close>

section \<open>Data\<close>

datatype task_kind = Feature | Migration | Refactor | Operational | Repair

datatype authority_status = Approved

record approval =
  apr_state :: authority_status
  apr_approver :: string
  apr_method :: string

record authority =
  au_governing_issue :: string
  au_repository :: string
  au_issue :: u64
  au_source_revision :: string
  au_source_digest :: string
  au_approval :: approval

record task_scope =
  sp_affected_semantic_nodes :: "string list"
  sp_allowed_files :: "string list"
  sp_denied_files :: "string list"

record permission_set =
  ps_required :: "string list"
  ps_forbidden :: "string list"

datatype acceptance_expectation = ExpectPass | ExpectFail

record acceptance_criterion =
  ac_id :: string
  ac_requirement :: string
  ac_expected :: acceptance_expectation
  ac_evidence_refs :: "string list"

datatype evidence_kind =
    UnitTest | PropertyTest | ConformanceFixture | CapabilityDenialTest | GoldenOutput | SchemaValidation
  | SecurityFixture | BenchmarkBaseline | ManualReview | RiskNote | CiStatus | ReviewState

record evidence_requirement =
  er_id :: string
  er_kind :: evidence_kind
  er_command :: string

datatype dependency_status = Satisfied

record task_dependency =
  tdp_id :: string
  tdp_status :: dependency_status
  tdp_depends_on :: "string list"
  tdp_precondition :: string

datatype risk_class = LowRisk | MediumRisk | HighRisk

record autonomy =
  at_class :: "8 word"
  at_risk :: risk_class

record budgets =
  bg_time_seconds :: u64
  bg_tokens :: u64
  bg_retries :: u32
  bg_cost_usd_micros :: u64

record rollback_plan =
  rp_checkpoint :: string
  rp_commands :: "string list"

record terminal_conditions =
  tc_success :: "string list"
  tc_stop :: "string list"
  tc_escalation :: "string list"

record delivery_permissions =
  dp_commit :: bool
  dp_push :: bool
  dp_pull_request :: bool
  dp_review :: bool
  dp_merge :: bool
  dp_deploy :: bool
  dp_approve_own_pull_request :: bool
  dp_force_push :: bool
  dp_direct_push_protected :: bool
  dp_irreversible_actions :: bool

record 'v repair_diagnostic =
  rd_kind :: string
  rd_code :: "string option"
  rd_message :: string
  rd_help :: "string option"
  rd_path :: "string option"
  rd_line :: "u64 option"
  rd_column :: "u64 option"
  rd_related :: "'v list"
  rd_repair :: "'v option"

record 'v repair_plan =
  rpl_id :: string
  rpl_reason :: string
  rpl_target_node :: string
  rpl_allowed_files :: "string list"
  rpl_required_evidence :: "evidence_kind list"
  rpl_diagnostics :: "'v repair_diagnostic list"

record 'v agent_task_spec =
  ts_id :: string
  ts_kind :: task_kind
  ts_objective :: string
  ts_authority :: authority
  ts_scope :: task_scope
  ts_capabilities :: permission_set
  ts_commands :: permission_set
  ts_acceptance_criteria :: "acceptance_criterion list"
  ts_required_evidence :: "evidence_requirement list"
  ts_dependencies :: "task_dependency list"
  ts_autonomy :: autonomy
  ts_budgets :: budgets
  ts_rollback :: rollback_plan
  ts_terminal_conditions :: terminal_conditions
  ts_delivery_permissions :: delivery_permissions
  ts_repair_plan :: "'v repair_plan option"

record 'v agent_task_contract =
  ct_schema_version :: string
  ct_contract_digest :: string
  ct_id :: string
  ct_task_kind :: task_kind
  ct_objective :: string
  ct_authority :: authority
  ct_scope :: task_scope
  ct_capabilities :: permission_set
  ct_commands :: permission_set
  ct_acceptance_criteria :: "acceptance_criterion list"
  ct_required_evidence :: "evidence_requirement list"
  ct_dependencies :: "task_dependency list"
  ct_autonomy :: autonomy
  ct_budgets :: budgets
  ct_rollback :: rollback_plan
  ct_terminal_conditions :: terminal_conditions
  ct_delivery_permissions :: delivery_permissions
  ct_repair_plan :: "'v repair_plan option"

text \<open>The derived order of \<open>EvidenceKind\<close> is the order of its variants.\<close>

fun evidence_rank :: "evidence_kind \<Rightarrow> nat" where
  "evidence_rank UnitTest = 0"
| "evidence_rank PropertyTest = 1"
| "evidence_rank ConformanceFixture = 2"
| "evidence_rank CapabilityDenialTest = 3"
| "evidence_rank GoldenOutput = 4"
| "evidence_rank SchemaValidation = 5"
| "evidence_rank SecurityFixture = 6"
| "evidence_rank BenchmarkBaseline = 7"
| "evidence_rank ManualReview = 8"
| "evidence_rank RiskNote = 9"
| "evidence_rank CiStatus = 10"
| "evidence_rank ReviewState = 11"

lemma evidence_rank_inj: "evidence_rank a = evidence_rank b \<Longrightarrow> a = b"
  by (cases a; cases b) simp_all

instantiation evidence_kind :: linorder
begin

definition less_eq_evidence_kind :: "evidence_kind \<Rightarrow> evidence_kind \<Rightarrow> bool" where
  "less_eq_evidence_kind a b \<longleftrightarrow> evidence_rank a \<le> evidence_rank b"

definition less_evidence_kind :: "evidence_kind \<Rightarrow> evidence_kind \<Rightarrow> bool" where
  "less_evidence_kind a b \<longleftrightarrow> evidence_rank a < evidence_rank b"

instance
  by standard (auto simp: less_eq_evidence_kind_def less_evidence_kind_def evidence_rank_inj)

end

text \<open>A diagnostic of this module: \<open>Diagnostic::new\<close> with kind \<open>agent_task\<close> and a code.\<close>

record task_error =
  te_code :: string
  te_message :: string

section \<open>Checks\<close>

definition require :: "bool \<Rightarrow> string \<Rightarrow> string \<Rightarrow> (task_error, unit) result" where
  "require condition code message = (if condition then Inr () else Inl \<lparr>te_code = code, te_message = message\<rparr>)"

text \<open>Checks in sequence, each followed by \<open>?\<close>.\<close>

fun all_ok :: "('e, unit) result list \<Rightarrow> ('e, unit) result" where
  "all_ok [] = Inr ()"
| "all_ok (r # rs) = (case r of Inl e \<Rightarrow> Inl e | Inr _ \<Rightarrow> all_ok rs)"

definition nonempty :: "string \<Rightarrow> string \<Rightarrow> (task_error, unit) result" where
  "nonempty value label = require (trim value \<noteq> '''') ''agent_task_missing'' (label @ '' must not be empty'')"

definition nonempty_list :: "string list \<Rightarrow> string \<Rightarrow> (task_error, unit) result" where
  "nonempty_list values label =
     all_ok (require (values \<noteq> []) ''agent_task_missing'' (label @ '' are required'')
       # map (\<lambda>value. nonempty value label) values)"

definition disjoint_lists :: "string list \<Rightarrow> string list \<Rightarrow> string \<Rightarrow> (task_error, unit) result" where
  "disjoint_lists left right label =
     (let denied = bset_of right
      in require (\<not> list_ex (\<lambda>item. item \<in> set denied) left)
        ''agent_task_permission_conflict'' (label @ '' allow and deny sets overlap''))"

definition validate_path :: "string \<Rightarrow> (task_error, unit) result" where
  "validate_path path = all_ok
     [nonempty path ''file path'',
      require (\<not> is_absolute path \<and> \<not> str_contains path ''*'' \<and> \<not> str_contains path ''?'' \<and> \<not> ends_with path ''/'')
        ''agent_task_path'' (''path `'' @ path @ ''` must be an exact package-relative file''),
      require (list_all is_normal_part (path_components path))
        ''agent_task_path'' (''path `'' @ path @ ''` is not normalized'')]"

definition validate_paths :: "string list \<Rightarrow> (task_error, unit) result" where
  "validate_paths paths = all_ok (map validate_path paths)"

definition validate_permissions :: "permission_set \<Rightarrow> string \<Rightarrow> (task_error, unit) result" where
  "validate_permissions s label =
     all_ok (map (\<lambda>value. nonempty value label) (ps_required s)
       @ map (\<lambda>value. nonempty value label) (ps_forbidden s)
       @ [disjoint_lists (ps_required s) (ps_forbidden s) label])"

definition command_invokes :: "string \<Rightarrow> string \<Rightarrow> bool" where
  "command_invokes command denied =
     (let command = trim command; denied = trim denied
      in command = denied
         \<or> (case strip_prefix command denied of
              None \<Rightarrow> False
            | Some rest \<Rightarrow> rest \<noteq> '''' \<and> ws_prefix rest \<noteq> None))"

text \<open>\<open>str::split\<close> at white space and at the punctuation that separates capability tokens.\<close>

definition token_separators :: "string list" where
  "token_separators = white_space @ [''='', '','', '':'', [CHR 0x22], [CHR 0x27]]"

definition sep_prefix :: "string \<Rightarrow> nat option" where
  "sep_prefix s = map_option length (find (starts_with s) token_separators)"

lemma sep_prefix_pos: "sep_prefix s = Some n \<Longrightarrow> 0 < n \<and> n \<le> length s"
proof -
  assume "sep_prefix s = Some n"
  then obtain w where w: "w \<in> set token_separators" "starts_with s w" "n = length w"
    using find_Some_mem by (fastforce simp: sep_prefix_def)
  moreover have "0 < length w" using w(1) white_space_pos [of w] by (auto simp: token_separators_def)
  ultimately show ?thesis by (auto simp: starts_with_iff)
qed

function split_tokens :: "string \<Rightarrow> string list" where
  "split_tokens s =
     (case s of
        [] \<Rightarrow> [[]]
      | c # cs \<Rightarrow>
          (case sep_prefix s of
             Some n \<Rightarrow> [] # split_tokens (drop n s)
           | None \<Rightarrow> (case split_tokens cs of [] \<Rightarrow> [[c]] | t # ts \<Rightarrow> (c # t) # ts)))"
  by pat_completeness auto

termination
proof (relation "measure length")
  fix s :: string and c cs n assume "s = c # cs" "sep_prefix s = Some n"
  then show "(drop n s, s) \<in> measure length" using sep_prefix_pos by fastforce
qed auto

declare split_tokens.simps [simp del]

definition command_mentions_capability :: "string \<Rightarrow> string \<Rightarrow> bool" where
  "command_mentions_capability command denied = list_ex (\<lambda>token. token = denied) (split_tokens command)"

definition validate_support_command :: "'v agent_task_spec \<Rightarrow> string \<times> string \<Rightarrow> (task_error, unit) result" where
  "validate_support_command source kc =
     (case kc of (kind, command) \<Rightarrow> all_ok
       [require (\<not> list_ex (\<lambda>denied. command_invokes command denied) (ps_forbidden (ts_commands source)))
          ''agent_task_forbidden_command'' (kind @ '' command `'' @ command @ ''` invokes a forbidden command''),
        require (\<not> list_ex (\<lambda>denied. command_mentions_capability command denied)
            (ps_forbidden (ts_capabilities source)))
          ''agent_task_forbidden_capability'' (kind @ '' command `'' @ command @ ''` requests a forbidden capability'')])"

definition validate_support_commands :: "'v agent_task_spec \<Rightarrow> (task_error, unit) result" where
  "validate_support_commands source =
     all_ok (map (validate_support_command source)
       (map (\<lambda>item. (''evidence'', er_command item)) (ts_required_evidence source)
        @ map (\<lambda>command. (''rollback'', command)) (rp_commands (ts_rollback source))))"

text \<open>The loop over the acceptance criteria; \<open>ids\<close> and \<open>expectations\<close> are its two collections.\<close>

fun acceptance_loop :: "string list \<Rightarrow> acceptance_criterion list \<Rightarrow> string list \<Rightarrow>
    (string, acceptance_expectation) btree_map \<Rightarrow> (task_error, unit) result" where
  "acceptance_loop evidence [] ids expectations = Inr ()"
| "acceptance_loop evidence (criterion # rest) ids expectations =
     (let requirement = trim (ac_requirement criterion); old = map_of expectations requirement in
     rbind (nonempty (ac_id criterion) ''acceptance ID'') (\<lambda>_.
     rbind (nonempty (ac_requirement criterion) ''acceptance requirement'') (\<lambda>_.
     rbind (require (ac_id criterion \<notin> set ids) ''agent_task_acceptance'' ''acceptance IDs must be unique'') (\<lambda>_.
     if old \<noteq> None \<and> old \<noteq> Some (ac_expected criterion)
     then Inl \<lparr>te_code = ''agent_task_acceptance_conflict'',
            te_message = ''conflicting acceptance criterion `'' @ ac_requirement criterion @ ''`''\<rparr>
     else
     rbind (require (ac_evidence_refs criterion \<noteq> []) ''agent_task_evidence''
         ''each acceptance criterion requires evidence'') (\<lambda>_.
     rbind (all_ok (map (\<lambda>reference. require (reference \<in> set evidence) ''agent_task_evidence''
         (''dangling evidence reference `'' @ reference @ ''`'')) (ac_evidence_refs criterion))) (\<lambda>_.
     acceptance_loop evidence rest (bset_insert (ac_id criterion) ids)
       (bt_insert requirement (ac_expected criterion) expectations)))))))"

definition validate_acceptance :: "'v agent_task_spec \<Rightarrow> (task_error, unit) result" where
  "validate_acceptance source =
     (let evidence = bset_of (map er_id (ts_required_evidence source)) in
      all_ok
        [require (ts_acceptance_criteria source \<noteq> []) ''agent_task_acceptance'' ''acceptance criteria are required'',
         require (ts_required_evidence source \<noteq> []) ''agent_task_evidence'' ''required evidence is missing'',
         require (length evidence = length (ts_required_evidence source)) ''agent_task_evidence'' ''evidence IDs must be unique'',
         acceptance_loop evidence (ts_acceptance_criteria source) [] [],
         all_ok (concat (map (\<lambda>item. [nonempty (er_id item) ''evidence ID'', nonempty (er_command item) ''evidence command''])
           (ts_required_evidence source)))])"

section \<open>Dependencies\<close>

text \<open>The depth-first search; \<open>None\<close> stands for an exhausted bound or for the panic of indexing the
  map with an unknown identifier.\<close>

type_synonym visit_state = "string list \<times> string list"

fun visit :: "nat \<Rightarrow> (string \<rightharpoonup> task_dependency) \<Rightarrow> string \<Rightarrow> visit_state \<Rightarrow> (bool \<times> visit_state) option"
  and visit_any :: "nat \<Rightarrow> (string \<rightharpoonup> task_dependency) \<Rightarrow> string list \<Rightarrow> visit_state \<Rightarrow> (bool \<times> visit_state) option" where
  "visit 0 deps i st = None"
| "visit (Suc n) deps i (visiting, finished) =
     (if i \<in> set finished then Some (False, (visiting, finished))
      else if i \<in> set visiting then Some (True, (visiting, finished))
      else (case deps i of
          None \<Rightarrow> None
        | Some item \<Rightarrow>
            (case visit_any n deps (tdp_depends_on item) (bset_insert i visiting, finished) of
               None \<Rightarrow> None
             | Some (cycle, (visiting, finished)) \<Rightarrow>
                 Some (cycle, (removeAll i visiting, bset_insert i finished)))))"
| "visit_any n deps [] st = Some (False, st)"
| "visit_any n deps (next # rest) st =
     (case visit n deps next st of
        None \<Rightarrow> None
      | Some (True, st') \<Rightarrow> Some (True, st')
      | Some (False, st') \<Rightarrow> visit_any n deps rest st')"

lemma visit_code [code]:
  "visit n deps i st =
     (if n = 0 then None
      else case st of (visiting, finished) \<Rightarrow>
        if i \<in> set finished then Some (False, (visiting, finished))
        else if i \<in> set visiting then Some (True, (visiting, finished))
        else (case deps i of
            None \<Rightarrow> None
          | Some item \<Rightarrow>
              (case visit_any (n - 1) deps (tdp_depends_on item) (bset_insert i visiting, finished) of
                 None \<Rightarrow> None
               | Some (cycle, (visiting, finished)) \<Rightarrow>
                   Some (cycle, (removeAll i visiting, bset_insert i finished)))))"
  by (cases n; cases st) (simp_all cong: option.case_cong)

fun cycle_loop :: "nat \<Rightarrow> (string \<rightharpoonup> task_dependency) \<Rightarrow> string list \<Rightarrow> visit_state \<Rightarrow> (task_error, unit) result option" where
  "cycle_loop n deps [] st = Some (Inr ())"
| "cycle_loop n deps (i # ids) st =
     (case visit n deps i st of
        None \<Rightarrow> None
      | Some (cycle, st') \<Rightarrow>
          (case require (\<not> cycle) ''agent_task_dependency_cycle'' ''dependency graph contains a cycle'' of
             Inl e \<Rightarrow> Some (Inl e)
           | Inr _ \<Rightarrow> cycle_loop n deps ids st'))"

definition dependency_map :: "task_dependency list \<Rightarrow> string \<rightharpoonup> task_dependency" where
  "dependency_map items = map_of (fold (\<lambda>item. bt_insert (tdp_id item) item) items [])"

definition validate_dependency :: "string list \<Rightarrow> task_dependency \<Rightarrow> (task_error, unit) result" where
  "validate_dependency ids item = all_ok
     (nonempty (tdp_id item) ''dependency ID''
      # (if tdp_precondition item \<noteq> '''' then nonempty (tdp_precondition item) ''dependency precondition'' else Inr ())
      # map (\<lambda>dep. require (dep \<noteq> tdp_id item \<and> dep \<in> set ids) ''agent_task_dependency''
          (''dangling or self dependency `'' @ dep @ ''`'')) (tdp_depends_on item))"

definition dependency_checks :: "task_dependency list \<Rightarrow> (task_error, unit) result" where
  "dependency_checks items =
     (let ids = bset_of (map tdp_id items) in
      all_ok (require (length ids = length items) ''agent_task_dependency'' ''dependency IDs must be unique''
        # map (validate_dependency ids) items))"

definition validate_dependencies :: "task_dependency list \<Rightarrow> (task_error, unit) result option" where
  "validate_dependencies items =
     (case dependency_checks items of
        Inl e \<Rightarrow> Some (Inl e)
      | Inr _ \<Rightarrow>
          cycle_loop (Suc (length items)) (dependency_map items) (bset_of (map tdp_id items)) ([], []))"

section \<open>Validation\<close>

text \<open>The Intent IR enters through the identifiers of its nodes, searched as the standard library
  searches a slice.\<close>

function binary_search_base :: "string list \<Rightarrow> string \<Rightarrow> nat \<Rightarrow> nat \<Rightarrow> nat" where
  "binary_search_base xs key base len =
     (if len \<le> 1 then base
      else
        let half = len div 2; mid = base + half
        in binary_search_base xs key (if key < xs ! mid then base else mid) (len - half))"
  by pat_completeness auto

termination
  by (relation "measure (\<lambda>(xs, key, base, len). len)") auto

declare binary_search_base.simps [simp del]

definition contains_node :: "string list \<Rightarrow> string \<Rightarrow> bool" where
  "contains_node node_ids key \<longleftrightarrow>
     node_ids \<noteq> [] \<and> node_ids ! binary_search_base node_ids key 0 (length node_ids) = key"

definition is_lower_sha :: "nat \<Rightarrow> string \<Rightarrow> bool" where
  "is_lower_sha n s \<longleftrightarrow> length s = n \<and> list_all is_lower_hex s"

definition valid_task_id :: "string \<Rightarrow> bool" where
  "valid_task_id s \<longleftrightarrow> list_all (\<lambda>(i, c).
     CHR ''a'' \<le> c \<and> c \<le> CHR ''z'' \<or> is_ascii_digit c \<or> 0 < i \<and> c \<in> {CHR ''.'', CHR ''_'', CHR ''-''})
     (enumerate 0 s)"

definition validate_authority :: "authority \<Rightarrow> (task_error, unit) result" where
  "validate_authority a = all_ok
     [nonempty (au_governing_issue a) ''governing issue'',
      nonempty (au_repository a) ''authority repository'',
      require (0 < au_issue a) ''agent_task_authority'' ''authority issue must be positive'',
      nonempty (au_source_revision a) ''authority source revision'',
      nonempty (au_source_digest a) ''authority source digest'',
      nonempty (apr_approver (au_approval a)) ''approver'',
      nonempty (apr_method (au_approval a)) ''approval method'',
      require (au_governing_issue a
          = ''https://github.com/'' @ au_repository a @ ''/issues/'' @ show_nat (unat (au_issue a)))
        ''agent_task_authority'' ''governing issue, repository, and issue number do not agree'',
      require (case split_once CHR ''/'' (au_repository a) of
          None \<Rightarrow> False
        | Some (owner, repo) \<Rightarrow> owner \<noteq> '''' \<and> repo \<noteq> '''' \<and> \<not> str_contains repo ''/'')
        ''agent_task_authority'' ''repository must be owner/name'',
      require (is_lower_sha 40 (au_source_revision a))
        ''agent_task_authority'' ''source revision must be a full lowercase commit SHA'',
      require (case strip_prefix (au_source_digest a) ''sha256:'' of None \<Rightarrow> False | Some d \<Rightarrow> is_lower_sha 64 d)
        ''agent_task_authority'' ''source digest must be lowercase SHA-256'',
      require (apr_method (au_approval a) \<in> {''issue_label'', ''issue_comment'', ''signed_spec'', ''maintainer_review''})
        ''agent_task_authority'' ''unsupported approval method'']"

definition validate_scope :: "string list \<Rightarrow> 'v agent_task_spec \<Rightarrow> (task_error, unit) result" where
  "validate_scope node_ids source =
     (let scope = ts_scope source in
      all_ok
       ([require (sp_affected_semantic_nodes scope \<noteq> []) ''agent_task_scope'' ''semantic node scope is required'',
         require (sp_allowed_files scope \<noteq> []) ''agent_task_scope'' ''allowed file scope is required'']
        @ concat (map (\<lambda>node. [nonempty node ''semantic node'',
            require (contains_node node_ids node) ''agent_task_scope''
              (''semantic node `'' @ node @ ''` is not in canonical Intent IR'')]) (sp_affected_semantic_nodes scope))
        @ [validate_paths (sp_allowed_files scope), validate_paths (sp_denied_files scope),
           disjoint_lists (sp_allowed_files scope) (sp_denied_files scope) ''file scope'',
           validate_permissions (ts_capabilities source) ''capability'',
           validate_permissions (ts_commands source) ''command'']))"

definition validate_budgets :: "budgets \<Rightarrow> (task_error, unit) result" where
  "validate_budgets b = all_ok
     [require (0 < bg_time_seconds b \<and> 0 < bg_tokens b) ''agent_task_budget'' ''time and token budgets must be positive'',
      require (bg_time_seconds b \<le> 86400 \<and> bg_tokens b \<le> 10000000 \<and> bg_retries b \<le> 20
          \<and> bg_cost_usd_micros b \<le> 1000000000)
        ''agent_task_budget'' ''budget exceeds the supported bound'']"

definition validate_delivery :: "8 word \<Rightarrow> delivery_permissions \<Rightarrow> (task_error, unit) result" where
  "validate_delivery class delivery =
     (let remote_or_privileged =
            dp_push delivery \<or> dp_pull_request delivery \<or> dp_review delivery \<or> dp_merge delivery \<or> dp_deploy delivery in
      all_ok
       [require (\<not> dp_approve_own_pull_request delivery) ''agent_task_delivery'' ''self-approval is always denied'',
        require (\<not> dp_force_push delivery) ''agent_task_delivery'' ''force push is always denied'',
        require (\<not> dp_direct_push_protected delivery) ''agent_task_delivery''
          ''direct protected-branch push is always denied'',
        require (\<not> dp_irreversible_actions delivery) ''agent_task_irreversible'' ''irreversible actions are unsupported'',
        require (class \<noteq> 0 \<or> \<not> dp_commit delivery \<and> \<not> remote_or_privileged) ''agent_task_delivery''
          ''class 0 tasks cannot mutate or deliver'',
        require (class \<noteq> 1 \<or> \<not> remote_or_privileged) ''agent_task_delivery'' ''class 1 tasks are local-only'',
        require (class \<noteq> 2 \<or> \<not> dp_review delivery \<and> \<not> dp_merge delivery \<and> \<not> dp_deploy delivery)
          ''agent_task_delivery'' ''class 2 tasks cannot review, merge, or deploy''])"

definition validate_repair :: "'v repair_plan \<Rightarrow> 'v agent_task_spec \<Rightarrow> (task_error, unit) result" where
  "validate_repair repair source =
     (let files = bset_of (sp_allowed_files (ts_scope source));
          evidence = bset_of (map er_kind (ts_required_evidence source)) in
      all_ok
       [require (ts_kind source = Repair) ''agent_task_repair'' ''embedded repair plan requires repair task kind'',
        nonempty (rpl_id repair) ''repair ID'',
        nonempty (rpl_reason repair) ''repair reason'',
        require (rpl_target_node repair \<in> set (sp_affected_semantic_nodes (ts_scope source)))
          ''agent_task_repair_widening'' ''repair target widens semantic node scope'',
        nonempty_list (rpl_allowed_files repair) ''repair files'',
        require (rpl_required_evidence repair \<noteq> []) ''agent_task_repair'' ''repair evidence is required'',
        require (rpl_diagnostics repair \<noteq> []) ''agent_task_repair'' ''repair diagnostics are required'',
        validate_paths (rpl_allowed_files repair),
        require (list_all (\<lambda>path. path \<in> set files) (rpl_allowed_files repair))
          ''agent_task_repair_widening'' ''repair plan widens allowed files'',
        require (list_all (\<lambda>kind. kind \<in> set evidence) (rpl_required_evidence repair))
          ''agent_task_repair_widening'' ''repair plan widens required evidence''])"

definition validate_repair_plan :: "'v agent_task_spec \<Rightarrow> (task_error, unit) result" where
  "validate_repair_plan source =
     (case (ts_kind source, ts_repair_plan source) of
        (Repair, Some repair) \<Rightarrow> validate_repair repair source
      | (Repair, None) \<Rightarrow> Inl \<lparr>te_code = ''agent_task_repair'', te_message = ''repair task must embed its repair plan''\<rparr>
      | (_, Some _) \<Rightarrow> Inl \<lparr>te_code = ''agent_task_repair'', te_message = ''only repair tasks may embed a repair plan''\<rparr>
      | (_, None) \<Rightarrow> Inr ())"

definition validate_closing :: "'v agent_task_spec \<Rightarrow> (task_error, unit) result" where
  "validate_closing source = all_ok
     [require (1 \<le> at_class (ts_autonomy source) \<and> at_class (ts_autonomy source) \<le> 3)
        ''agent_task_autonomy'' ''autonomy class must be between 1 and 3'',
      validate_budgets (ts_budgets source),
      nonempty (rp_checkpoint (ts_rollback source)) ''rollback checkpoint'',
      nonempty_list (rp_commands (ts_rollback source)) ''rollback commands'',
      nonempty_list (tc_success (ts_terminal_conditions source)) ''success conditions'',
      nonempty_list (tc_stop (ts_terminal_conditions source)) ''stop conditions'',
      nonempty_list (tc_escalation (ts_terminal_conditions source)) ''escalation conditions'',
      validate_delivery (at_class (ts_autonomy source)) (ts_delivery_permissions source),
      validate_repair_plan source]"

definition validate_opening :: "string list \<Rightarrow> 'v agent_task_spec \<Rightarrow> (task_error, unit) result" where
  "validate_opening node_ids source = all_ok
     [nonempty (ts_id source) ''task ID'',
      require (valid_task_id (ts_id source)) ''agent_task_id'' ''task ID must be canonical lowercase ASCII'',
      nonempty (ts_objective source) ''objective'',
      validate_authority (ts_authority source),
      validate_scope node_ids source,
      validate_support_commands source,
      validate_acceptance source]"

definition validate_task :: "string list \<Rightarrow> 'v agent_task_spec \<Rightarrow> (task_error, unit) result option" where
  "validate_task node_ids source =
     (case validate_opening node_ids source of
        Inl e \<Rightarrow> Some (Inl e)
      | Inr _ \<Rightarrow>
          (case validate_dependencies (ts_dependencies source) of
             None \<Rightarrow> None
           | Some (Inl e) \<Rightarrow> Some (Inl e)
           | Some (Inr _) \<Rightarrow> Some (validate_closing source)))"

section \<open>Compilation\<close>

definition sort_dedup :: "'a::linorder list \<Rightarrow> 'a list" where
  "sort_dedup xs = remdups_adj (sort xs)"

definition canonicalize_scope :: "task_scope \<Rightarrow> task_scope" where
  "canonicalize_scope s =
     \<lparr>sp_affected_semantic_nodes = sort_dedup (sp_affected_semantic_nodes s),
      sp_allowed_files = sort_dedup (sp_allowed_files s), sp_denied_files = sort_dedup (sp_denied_files s)\<rparr>"

definition canonicalize_permissions :: "permission_set \<Rightarrow> permission_set" where
  "canonicalize_permissions s = \<lparr>ps_required = sort_dedup (ps_required s), ps_forbidden = sort_dedup (ps_forbidden s)\<rparr>"

definition canonicalize :: "'v agent_task_spec \<Rightarrow> 'v agent_task_spec" where
  "canonicalize source = source\<lparr>
     ts_scope := canonicalize_scope (ts_scope source),
     ts_capabilities := canonicalize_permissions (ts_capabilities source),
     ts_commands := canonicalize_permissions (ts_commands source),
     ts_acceptance_criteria := map (\<lambda>c. c\<lparr>ac_evidence_refs := sort_dedup (ac_evidence_refs c)\<rparr>)
       (sort_key ac_id (ts_acceptance_criteria source)),
     ts_required_evidence := sort_key er_id (ts_required_evidence source),
     ts_dependencies := map (\<lambda>d. d\<lparr>tdp_depends_on := sort_dedup (tdp_depends_on d)\<rparr>)
       (sort_key tdp_id (ts_dependencies source)),
     ts_rollback := (ts_rollback source)\<lparr>rp_commands := sort_dedup (rp_commands (ts_rollback source))\<rparr>,
     ts_terminal_conditions := \<lparr>tc_success = sort_dedup (tc_success (ts_terminal_conditions source)),
       tc_stop = sort_dedup (tc_stop (ts_terminal_conditions source)),
       tc_escalation = sort_dedup (tc_escalation (ts_terminal_conditions source))\<rparr>,
     ts_repair_plan := map_option (\<lambda>r. r\<lparr>rpl_allowed_files := sort_dedup (rpl_allowed_files r),
       rpl_required_evidence := sort_dedup (rpl_required_evidence r)\<rparr>) (ts_repair_plan source)\<rparr>"

definition task_schema_version :: string where
  "task_schema_version = ''axiom.agent_task.v0''"

definition contract_of :: "'v agent_task_spec \<Rightarrow> 'v agent_task_contract" where
  "contract_of source =
     \<lparr>ct_schema_version = task_schema_version, ct_contract_digest = '''', ct_id = ts_id source,
      ct_task_kind = ts_kind source, ct_objective = ts_objective source, ct_authority = ts_authority source,
      ct_scope = ts_scope source, ct_capabilities = ts_capabilities source, ct_commands = ts_commands source,
      ct_acceptance_criteria = ts_acceptance_criteria source, ct_required_evidence = ts_required_evidence source,
      ct_dependencies = ts_dependencies source, ct_autonomy = ts_autonomy source, ct_budgets = ts_budgets source,
      ct_rollback = ts_rollback source, ct_terminal_conditions = ts_terminal_conditions source,
      ct_delivery_permissions = ts_delivery_permissions source, ct_repair_plan = ts_repair_plan source\<rparr>"

text \<open>The JSON encoder is an argument: it maps a contract to its bytes or to an error message.\<close>

definition compile_approved_task ::
  "('v agent_task_contract \<Rightarrow> string + byte list) \<Rightarrow> string list \<Rightarrow> 'v agent_task_spec \<Rightarrow>
    (task_error, 'v agent_task_contract) result option" where
  "compile_approved_task to_json node_ids source =
     (case validate_task node_ids source of
        None \<Rightarrow> None
      | Some (Inl e) \<Rightarrow> Some (Inl e)
      | Some (Inr _) \<Rightarrow>
          let contract = contract_of (canonicalize source) in
          Some (case to_json contract of
              Inl message \<Rightarrow> Inl \<lparr>te_code = ''agent_task_digest'', te_message = message\<rparr>
            | Inr canonical \<Rightarrow> Inr (contract\<lparr>ct_contract_digest := ''sha256:'' @ stable_digest canonical\<rparr>)))"

end
