(* ===== verification/Agent_Task_Dependencies.thy ===== *)
theory Agent_Task_Dependencies
  imports Agent_Task
begin

text \<open>
  The dependency check of a task decides acyclicity: the depth-first search ends, finds a cycle only
  where there is one, and what it has finished can never lie on a cycle.
\<close>

section \<open>Sequences of checks\<close>

lemma all_ok_iff: "all_ok rs = Inr () \<longleftrightarrow> (\<forall>r \<in> set rs. r = Inr ())"
  by (induction rs) (auto split: sum.splits)

declare all_ok.simps [simp del]

lemma require_iff: "require c code msg = Inr () \<longleftrightarrow> c"
  by (simp add: require_def)

lemma nonempty_iff: "nonempty v l = Inr () \<longleftrightarrow> trim v \<noteq> []"
  by (simp add: nonempty_def require_iff)

section \<open>The search\<close>

definition deps_rel :: "(string \<rightharpoonup> task_dependency) \<Rightarrow> (string \<times> string) set" where
  "deps_rel m = {(a, b). \<exists>item. m a = Some item \<and> b \<in> set (tdp_depends_on item)}"

definition deps_closed :: "(string \<rightharpoonup> task_dependency) \<Rightarrow> bool" where
  "deps_closed m \<longleftrightarrow> finite (dom m) \<and> (\<forall>a b. (a, b) \<in> deps_rel m \<longrightarrow> b \<in> dom m)"

text \<open>A settled set is closed under dependencies and meets no cycle.\<close>

definition settled :: "(string \<rightharpoonup> task_dependency) \<Rightarrow> string set \<Rightarrow> bool" where
  "settled m D \<longleftrightarrow> (\<forall>d \<in> D. \<forall>e. (d, e) \<in> deps_rel m \<longrightarrow> e \<in> D) \<and> (\<forall>d \<in> D. (d, d) \<notin> (deps_rel m)\<^sup>+)"

lemma settled_reach:
  assumes "settled m D" "(d, e) \<in> (deps_rel m)\<^sup>*" "d \<in> D"
  shows "e \<in> D"
  using assms(2,3) by (induction rule: rtrancl_induct) (use assms(1) in \<open>auto simp: settled_def\<close>)

lemma settled_insert:
  assumes D: "settled m D" and succ: "\<And>e. (i, e) \<in> deps_rel m \<Longrightarrow> e \<in> D" and i: "i \<notin> D"
  shows "settled m (insert i D)"
proof -
  have "(i, i) \<notin> (deps_rel m)\<^sup>+"
  proof
    assume "(i, i) \<in> (deps_rel m)\<^sup>+"
    then obtain e where "(i, e) \<in> deps_rel m" "(e, i) \<in> (deps_rel m)\<^sup>*" by (metis tranclD)
    then show False using settled_reach [OF D] succ i by blast
  qed
  then show ?thesis using D succ by (auto simp: settled_def)
qed

definition searched :: "(string \<rightharpoonup> task_dependency) \<Rightarrow> string set \<Rightarrow> string list \<Rightarrow> string list \<Rightarrow>
    (bool \<times> visit_state) option \<Rightarrow> bool" where
  "searched m I vis fin r \<longleftrightarrow>
     (\<exists>b vis' fin'. r = Some (b, (vis', fin')) \<and> (b \<longrightarrow> \<not> acyclic (deps_rel m))
        \<and> (\<not> b \<longrightarrow> set vis' = set vis \<and> settled m (set fin') \<and> I \<union> set fin \<subseteq> set fin' \<and> set fin' \<inter> set vis = {}))"

definition searchable :: "(string \<rightharpoonup> task_dependency) \<Rightarrow> nat \<Rightarrow> string set \<Rightarrow> visit_state \<Rightarrow> bool" where
  "searchable m n I st \<longleftrightarrow>
     (case st of (vis, fin) \<Rightarrow> I \<subseteq> dom m \<and> set vis \<subseteq> dom m \<and> (\<forall>v \<in> set vis. \<forall>i \<in> I. (v, i) \<in> (deps_rel m)\<^sup>+)
        \<and> settled m (set fin) \<and> set fin \<inter> set vis = {} \<and> card (dom m) < n + card (set vis))"

lemma searched_visit:
  assumes closed: "deps_closed m" and st: "searchable m (Suc n) {i} (vis, fin)" and new: "i \<notin> set fin" "i \<notin> set vis"
    and item: "m i = Some item"
    and rec: "searchable m n (set (tdp_depends_on item)) (bset_insert i vis, fin) \<Longrightarrow>
      searched m (set (tdp_depends_on item)) (bset_insert i vis) fin (visit_any n m (tdp_depends_on item) (bset_insert i vis, fin))"
  shows "searched m {i} vis fin (visit (Suc n) m i (vis, fin))"
proof -
  have edge: "(i, d) \<in> deps_rel m \<longleftrightarrow> d \<in> set (tdp_depends_on item)" for d using item by (simp add: deps_rel_def)
  have "(v, d) \<in> (deps_rel m)\<^sup>+" if "v \<in> set (bset_insert i vis)" "d \<in> set (tdp_depends_on item)" for v d
    using that edge [of d] st by (auto simp: searchable_def intro: trancl_into_trancl)
  moreover have "set (tdp_depends_on item) \<subseteq> dom m" using closed edge by (auto simp: deps_closed_def)
  ultimately have "searchable m n (set (tdp_depends_on item)) (bset_insert i vis, fin)"
    using st new by (auto simp: searchable_def)
  from rec [OF this] obtain b vis' fin' where r: "visit_any n m (tdp_depends_on item) (bset_insert i vis, fin) = Some (b, (vis', fin'))"
      "b \<longrightarrow> \<not> acyclic (deps_rel m)"
      "\<not> b \<longrightarrow> set vis' = insert i (set vis) \<and> settled m (set fin') \<and> set (tdp_depends_on item) \<union> set fin \<subseteq> set fin'
        \<and> set fin' \<inter> insert i (set vis) = {}"
    unfolding searched_def set_bset_insert by blast
  have "settled m (insert i (set fin'))" if "\<not> b"
    using r(3) that edge by (intro settled_insert) auto
  then show ?thesis
    using new item r by (auto simp: searched_def)
qed

lemma searched_widen:
  assumes "searched m I vis' fin' r" "set vis' = set vis" "J \<union> set fin \<subseteq> set fin'"
  shows "searched m (J \<union> I) vis fin r"
proof -
  obtain b v f where *: "r = Some (b, (v, f))" "b \<longrightarrow> \<not> acyclic (deps_rel m)"
      "\<not> b \<longrightarrow> set v = set vis' \<and> settled m (set f) \<and> I \<union> set fin' \<subseteq> set f \<and> set f \<inter> set vis' = {}"
    using assms(1) unfolding searched_def by blast
  show ?thesis
    unfolding searched_def
    by (rule exI [of _ b], rule exI [of _ v], rule exI [of _ f]) (use * assms(2,3) in auto)
qed

lemma visit_correct:
  shows "deps_closed m \<Longrightarrow> searchable m n {i} st \<Longrightarrow> searched m {i} (fst st) (snd st) (visit n m i st)"
    and "deps_closed m \<Longrightarrow> searchable m n (set is) st \<Longrightarrow> searched m (set is) (fst st) (snd st) (visit_any n m is st)"
proof (induction n m i st and n m "is" st rule: visit_visit_any.induct)
  case (1 deps i st)
  have "card (set (fst st)) \<le> card (dom deps)"
    using 1 by (intro card_mono) (auto simp: searchable_def deps_closed_def split: prod.splits)
  then show ?case using 1 by (auto simp: searchable_def split: prod.splits)
next
  case (2 n deps i vis fin)
  consider "i \<in> set fin" | "i \<notin> set fin" "i \<in> set vis" | "i \<notin> set fin" "i \<notin> set vis" by blast
  then show ?case
  proof cases
    case 1
    then show ?thesis using "2.prems" by (auto simp: searched_def searchable_def)
  next
    case c: 2
    then have "(i, i) \<in> (deps_rel deps)\<^sup>+" using "2.prems" by (auto simp: searchable_def)
    then show ?thesis using c by (auto simp: searched_def acyclic_def)
  next
    case c: 3
    obtain item where item: "deps i = Some item" using "2.prems" by (auto simp: searchable_def)
    show ?thesis
      using searched_visit [OF "2.prems" c item] "2.IH" [OF c item] "2.prems"(1) by simp
  qed
next
  case (3 n deps st)
  then show ?case by (cases st) (auto simp: searched_def searchable_def)
next
  case (4 n deps "next" rest st)
  obtain vis fin where st: "st = (vis, fin)" by (cases st)
  have "searchable deps n {next} (vis, fin)" using "4.prems" by (auto simp: searchable_def st)
  then obtain b vis' fin' where r: "visit n deps next st = Some (b, (vis', fin'))" "b \<longrightarrow> \<not> acyclic (deps_rel deps)"
      "\<not> b \<longrightarrow> set vis' = set vis \<and> settled deps (set fin') \<and> {next} \<union> set fin \<subseteq> set fin' \<and> set fin' \<inter> set vis = {}"
    using "4.IH"(1) [OF "4.prems"(1)] unfolding searched_def st fst_conv snd_conv by blast
  show ?case
  proof (cases b)
    case True
    then show ?thesis using r by (auto simp: searched_def)
  next
    case False
    have "searchable deps n (set rest) (vis', fin')" using "4.prems"(2) r(3) False by (auto simp: searchable_def st)
    then have "searched deps (set rest) vis' fin' (visit_any n deps rest (vis', fin'))"
      using "4.IH"(2) [OF r(1) refl _ "4.prems"(1)] False by simp
    then have "searched deps ({next} \<union> set rest) vis fin (visit_any n deps rest (vis', fin'))"
      by (rule searched_widen) (use r(3) False in auto)
    then show ?thesis using r(1) False by (simp add: st)
  qed
qed

lemma cycle_loop_correct:
  assumes "deps_closed m" "set ids \<subseteq> dom m" "settled m (set fin)" "card (dom m) < n" "set vis = {}"
  shows "\<exists>r. cycle_loop n m ids (vis, fin) = Some r
    \<and> (isl r \<longrightarrow> \<not> acyclic (deps_rel m)) \<and> (\<not> isl r \<longrightarrow> (\<forall>i \<in> set ids \<union> set fin. (i, i) \<notin> (deps_rel m)\<^sup>+))"
  using assms
proof (induction ids arbitrary: vis fin)
  case Nil
  then show ?case by (simp add: settled_def)
next
  case (Cons i ids)
  have "searchable m n {i} (vis, fin)" using Cons.prems by (simp add: searchable_def)
  from visit_correct(1) [OF Cons.prems(1) this]
  obtain b vis' fin' where r: "visit n m i (vis, fin) = Some (b, (vis', fin'))" "b \<longrightarrow> \<not> acyclic (deps_rel m)"
      "\<not> b \<longrightarrow> set vis' = set vis \<and> settled m (set fin') \<and> {i} \<union> set fin \<subseteq> set fin'"
    unfolding searched_def fst_conv snd_conv by blast
  show ?case
  proof (cases b)
    case True
    then show ?thesis using r by (simp add: require_def)
  next
    case False
    then have fin': "set vis' = {}" "settled m (set fin')" "{i} \<union> set fin \<subseteq> set fin'" using r(3) Cons.prems(5) by auto
    have "set ids \<subseteq> dom m" using Cons.prems(2) by simp
    from Cons.IH [OF Cons.prems(1) this fin'(2) Cons.prems(4) fin'(1)] obtain q where q: "cycle_loop n m ids (vis', fin') = Some q"
        "(isl q \<longrightarrow> \<not> acyclic (deps_rel m)) \<and> (\<not> isl q \<longrightarrow> (\<forall>i \<in> set ids \<union> set fin'. (i, i) \<notin> (deps_rel m)\<^sup>+))"
      by blast
    have "(isl q \<longrightarrow> \<not> acyclic (deps_rel m)) \<and> (\<not> isl q \<longrightarrow> (\<forall>j \<in> set (i # ids) \<union> set fin. (j, j) \<notin> (deps_rel m)\<^sup>+))"
      using q(2) fin'(3) by auto
    then show ?thesis using False r(1) q(1) by (simp add: require_def)
  qed
qed

section \<open>The check as a whole\<close>

definition dependency_rel :: "task_dependency list \<Rightarrow> (string \<times> string) set" where
  "dependency_rel items = {(tdp_id item, d) | item d. item \<in> set items \<and> d \<in> set (tdp_depends_on item)}"

lemma fold_insert_map:
  assumes "bt_wf acc" "distinct (map tdp_id items)" "\<forall>item \<in> set items. map_of acc (tdp_id item) = None"
  shows "map_of (fold (\<lambda>item. bt_insert (tdp_id item) item) items acc) a = Some x
    \<longleftrightarrow> map_of acc a = Some x \<or> x \<in> set items \<and> tdp_id x = a"
  using assms
proof (induction items arbitrary: acc)
  case (Cons item items)
  have "tdp_id j \<noteq> tdp_id item" if "j \<in> set items" for j using Cons.prems(2) that by (metis distinct.simps(2) image_eqI list.simps(9) set_map)
  then have "\<forall>j \<in> set items. map_of (bt_insert (tdp_id item) item acc) (tdp_id j) = None"
    using Cons.prems(1,3) by (simp add: bt.get_insert)
  then show ?case
    using Cons.IH [of "bt_insert (tdp_id item) item acc"] Cons.prems by (auto simp: bt.wf_insert bt.get_insert)
qed simp

lemma dependency_map_iff:
  "distinct (map tdp_id items) \<Longrightarrow> dependency_map items a = Some x \<longleftrightarrow> x \<in> set items \<and> tdp_id x = a"
  by (simp add: dependency_map_def fold_insert_map)

text \<open>What a well-formed list of dependencies is.\<close>

definition dependencies_wf :: "task_dependency list \<Rightarrow> bool" where
  "dependencies_wf items \<longleftrightarrow> distinct (map tdp_id items)
     \<and> (\<forall>item \<in> set items. trim (tdp_id item) \<noteq> []
          \<and> (tdp_precondition item \<noteq> [] \<longrightarrow> trim (tdp_precondition item) \<noteq> [])
          \<and> (\<forall>d \<in> set (tdp_depends_on item). d \<noteq> tdp_id item \<and> d \<in> tdp_id ` set items))
     \<and> acyclic (dependency_rel items)"

lemma validate_dependency_iff:
  "validate_dependency ids item = Inr () \<longleftrightarrow> trim (tdp_id item) \<noteq> []
     \<and> (tdp_precondition item \<noteq> [] \<longrightarrow> trim (tdp_precondition item) \<noteq> [])
     \<and> (\<forall>d \<in> set (tdp_depends_on item). d \<noteq> tdp_id item \<and> d \<in> set ids)"
  by (auto simp: validate_dependency_def all_ok_iff require_iff nonempty_iff)

lemma dependency_checks_iff:
  "dependency_checks items = Inr () \<longleftrightarrow> distinct (map tdp_id items)
     \<and> (\<forall>item \<in> set items. validate_dependency (bset_of (map tdp_id items)) item = Inr ())"
  using bset_of_distinct [of "map tdp_id items"]
  by (auto simp: dependency_checks_def Let_def all_ok_iff require_iff)

lemma cycle_check:
  assumes dist: "distinct (map tdp_id items)"
    and dep: "\<forall>item \<in> set items. \<forall>d \<in> set (tdp_depends_on item). d \<in> tdp_id ` set items"
  shows "\<exists>r. cycle_loop (Suc (length items)) (dependency_map items) (bset_of (map tdp_id items)) ([], []) = Some r
    \<and> (r = Inr () \<longleftrightarrow> acyclic (dependency_rel items))"
proof -
  let ?m = "dependency_map items"
  have dom: "dom ?m = tdp_id ` set items" using dependency_map_iff [OF dist] by (auto simp: dom_def)
  have rel: "deps_rel ?m = dependency_rel items"
    by (auto simp: deps_rel_def dependency_rel_def dependency_map_iff [OF dist])
  have "deps_closed ?m" using dep by (auto simp: deps_closed_def dom rel dependency_rel_def)
  moreover have "card (dom ?m) < Suc (length items)"
    unfolding dom by (meson card_image_le card_length finite_set le_imp_less_Suc le_trans)
  ultimately obtain r where r: "cycle_loop (Suc (length items)) ?m (bset_of (map tdp_id items)) ([], []) = Some r"
      "(isl r \<longrightarrow> \<not> acyclic (deps_rel ?m)) \<and> (\<not> isl r \<longrightarrow> (\<forall>i \<in> tdp_id ` set items. (i, i) \<notin> (deps_rel ?m)\<^sup>+))"
    using cycle_loop_correct [of ?m "bset_of (map tdp_id items)" "[]" "Suc (length items)" "[]"]
    by (auto simp: settled_def dom)
  have "i \<in> tdp_id ` set items" if "(i, i) \<in> (deps_rel ?m)\<^sup>+" for i
    using tranclD [OF that] by (auto simp: rel dependency_rel_def)
  then have "r = Inr () \<longleftrightarrow> acyclic (deps_rel ?m)"
    using r(2) by (cases r) (auto simp: acyclic_def)
  with r(1) show ?thesis by (auto simp: rel)
qed

lemma dependencies_decided:
  "\<exists>r. validate_dependencies items = Some r \<and> (r = Inr () \<longleftrightarrow> dependencies_wf items)"
proof (cases "dependency_checks items = Inr ()")
  case True
  then have ok: "distinct (map tdp_id items)" "\<forall>item \<in> set items. validate_dependency (bset_of (map tdp_id items)) item = Inr ()"
    by (simp_all add: dependency_checks_iff)
  then obtain r where "cycle_loop (Suc (length items)) (dependency_map items) (bset_of (map tdp_id items)) ([], []) = Some r"
      "r = Inr () \<longleftrightarrow> acyclic (dependency_rel items)"
    using cycle_check [OF ok(1)] by (auto simp: validate_dependency_iff)
  with True ok show ?thesis
    by (auto simp: validate_dependencies_def dependencies_wf_def validate_dependency_iff)
next
  case False
  then have "\<not> dependencies_wf items"
    by (auto simp: dependencies_wf_def dependency_checks_iff validate_dependency_iff)
  with False show ?thesis by (cases "dependency_checks items") (auto simp: validate_dependencies_def)
qed

text \<open>
  C30. The dependency check of a task always ends, and it accepts exactly the lists with unique
  identifiers, no dangling or self dependency and no cycle.
\<close>

theorem validate_dependencies_decides:
  "\<exists>r. validate_dependencies items = Some r \<and> (r = Inr () \<longleftrightarrow> dependencies_wf items)"
  by (rule dependencies_decided)

end
