(* ===== verification/Agent_Task_Theorems.thy ===== *)
theory Agent_Task_Theorems
  imports Agent_Task_Dependencies "HOL-Library.Code_Target_Numeral"
begin

text \<open>
  What an accepted task guarantees, and what its canonical form forgets.
\<close>

section \<open>The node search\<close>

lemma binary_search_base_correct:
  assumes "sorted_wrt (<) xs" "base + len \<le> length xs" "0 < len"
    and "\<And>i. i < length xs \<Longrightarrow> xs ! i = key \<Longrightarrow> base \<le> i \<and> i < base + len"
  shows "binary_search_base xs key base len < length xs
    \<and> (\<forall>i < length xs. xs ! i = key \<longrightarrow> i = binary_search_base xs key base len)"
  using assms
proof (induction xs key base len rule: binary_search_base.induct)
  case (1 xs key base len)
  show ?case
  proof (cases "len \<le> 1")
    case True
    then show ?thesis using "1.prems" by (subst (1 2) binary_search_base.simps) force
  next
    case False
    let ?h = "len div 2" and ?m = "base + len div 2"
    let ?b = "if key < xs ! ?m then base else ?m"
    have m: "?m < length xs" "0 < ?h" "0 < len - ?h" "?b + (len - ?h) \<le> length xs" using "1.prems"(2) False by auto
    have "?b \<le> i \<and> i < ?b + (len - ?h)" if i: "i < length xs" "xs ! i = key" for i
    proof -
      have range: "base \<le> i" "i < base + len" using "1.prems"(4) [OF i] by auto
      show ?thesis
      proof (cases "key < xs ! ?m")
        case True
        have "i < ?m"
        proof (rule ccontr)
          assume "\<not> i < ?m"
          then have "xs ! ?m \<le> xs ! i"
            using "1.prems"(1) i(1) by (cases "i = ?m") (simp_all add: sorted_wrt_iff_nth_less less_imp_le)
          with True i(2) show False by simp
        qed
        then show ?thesis using range True by simp
      next
        case False
        have "?m \<le> i"
        proof (rule ccontr)
          assume "\<not> ?m \<le> i"
          then have "xs ! i < xs ! ?m" using "1.prems"(1) m(1) by (simp add: sorted_wrt_iff_nth_less)
          with False i(2) show False by simp
        qed
        then show ?thesis using range False by simp
      qed
    qed
    then have "binary_search_base xs key ?b (len - ?h) < length xs
      \<and> (\<forall>i < length xs. xs ! i = key \<longrightarrow> i = binary_search_base xs key ?b (len - ?h))"
      using "1.IH" [OF False refl refl "1.prems"(1) m(4,3)] by blast
    then show ?thesis using False by (subst (1 2) binary_search_base.simps) (simp add: Let_def)
  qed
qed

lemma contains_node_iff:
  assumes "sorted_wrt (<) ids"
  shows "contains_node ids key \<longleftrightarrow> key \<in> set ids"
proof (cases "ids = []")
  case False
  then have "binary_search_base ids key 0 (length ids) < length ids
      \<and> (\<forall>i < length ids. ids ! i = key \<longrightarrow> i = binary_search_base ids key 0 (length ids))"
    using assms by (intro binary_search_base_correct) auto
  then show ?thesis using False by (auto simp: contains_node_def in_set_conv_nth)
qed (simp add: contains_node_def)

section \<open>Well-formed tasks\<close>

definition scope_wf :: "string set \<Rightarrow> task_scope \<Rightarrow> bool" where
  "scope_wf nodes s \<longleftrightarrow> sp_affected_semantic_nodes s \<noteq> [] \<and> set (sp_affected_semantic_nodes s) \<subseteq> nodes
     \<and> sp_allowed_files s \<noteq> [] \<and> set (sp_allowed_files s) \<inter> set (sp_denied_files s) = {}
     \<and> (\<forall>p \<in> set (sp_allowed_files s) \<union> set (sp_denied_files s). p \<noteq> [] \<and> list_all is_normal_part (path_components p))"

definition evidence_wf :: "acceptance_criterion list \<Rightarrow> evidence_requirement list \<Rightarrow> bool" where
  "evidence_wf criteria evidence \<longleftrightarrow> criteria \<noteq> [] \<and> distinct (map ac_id criteria) \<and> distinct (map er_id evidence)
     \<and> (\<forall>c \<in> set criteria. ac_evidence_refs c \<noteq> [] \<and> set (ac_evidence_refs c) \<subseteq> er_id ` set evidence)
     \<and> (\<forall>c \<in> set criteria. \<forall>d \<in> set criteria.
          trim (ac_requirement c) = trim (ac_requirement d) \<longrightarrow> ac_expected c = ac_expected d)"

definition budgets_wf :: "budgets \<Rightarrow> bool" where
  "budgets_wf b \<longleftrightarrow> 0 < unat (bg_time_seconds b) \<and> unat (bg_time_seconds b) \<le> 86400
     \<and> 0 < unat (bg_tokens b) \<and> unat (bg_tokens b) \<le> 10000000
     \<and> unat (bg_retries b) \<le> 20 \<and> unat (bg_cost_usd_micros b) \<le> 1000000000"

definition delivery_wf :: "8 word \<Rightarrow> delivery_permissions \<Rightarrow> bool" where
  "delivery_wf class d \<longleftrightarrow> class \<in> {1, 2, 3}
     \<and> \<not> dp_approve_own_pull_request d \<and> \<not> dp_force_push d \<and> \<not> dp_direct_push_protected d \<and> \<not> dp_irreversible_actions d
     \<and> (class \<noteq> 3 \<longrightarrow> \<not> dp_review d \<and> \<not> dp_merge d \<and> \<not> dp_deploy d)
     \<and> (class = 1 \<longrightarrow> \<not> dp_push d \<and> \<not> dp_pull_request d)"

definition repair_wf :: "'v agent_task_spec \<Rightarrow> bool" where
  "repair_wf t \<longleftrightarrow> (ts_repair_plan t \<noteq> None \<longleftrightarrow> ts_kind t = Repair)
     \<and> (\<forall>r. ts_repair_plan t = Some r \<longrightarrow>
          rpl_target_node r \<in> set (sp_affected_semantic_nodes (ts_scope t))
          \<and> rpl_allowed_files r \<noteq> [] \<and> set (rpl_allowed_files r) \<subseteq> set (sp_allowed_files (ts_scope t))
          \<and> set (rpl_required_evidence r) \<subseteq> er_kind ` set (ts_required_evidence t))"

definition commands_wf :: "'v agent_task_spec \<Rightarrow> bool" where
  "commands_wf t \<longleftrightarrow> (\<forall>command \<in> er_command ` set (ts_required_evidence t) \<union> set (rp_commands (ts_rollback t)).
     (\<forall>denied \<in> set (ps_forbidden (ts_commands t)). \<not> command_invokes command denied)
     \<and> (\<forall>denied \<in> set (ps_forbidden (ts_capabilities t)). \<not> command_mentions_capability command denied))"

definition task_wf :: "string set \<Rightarrow> 'v agent_task_spec \<Rightarrow> bool" where
  "task_wf nodes t \<longleftrightarrow> scope_wf nodes (ts_scope t)
     \<and> evidence_wf (ts_acceptance_criteria t) (ts_required_evidence t)
     \<and> dependencies_wf (ts_dependencies t) \<and> budgets_wf (ts_budgets t)
     \<and> delivery_wf (at_class (ts_autonomy t)) (ts_delivery_permissions t) \<and> repair_wf t \<and> commands_wf t
     \<and> set (ps_required (ts_capabilities t)) \<inter> set (ps_forbidden (ts_capabilities t)) = {}
     \<and> set (ps_required (ts_commands t)) \<inter> set (ps_forbidden (ts_commands t)) = {}"

lemma trim_Nil [simp]: "trim [] = []"
  by (simp add: trim_def trim_start.simps [of "[]"] trim_end.simps [of "[]"] ws_prefix_def ws_suffix_def
      white_space_def starts_with_def ends_with_def)

lemma disjoint_lists_iff: "disjoint_lists xs ys l = Inr () \<longleftrightarrow> set xs \<inter> set ys = {}"
  by (auto simp: disjoint_lists_def Let_def require_iff list_ex_iff)

lemma nonempty_list_iff: "nonempty_list vs l = Inr () \<longleftrightarrow> vs \<noteq> [] \<and> (\<forall>v \<in> set vs. trim v \<noteq> [])"
  by (auto simp: nonempty_list_def all_ok_iff require_iff nonempty_iff)

lemma validate_paths_iff:
  "validate_paths ps = Inr () \<longleftrightarrow> (\<forall>p \<in> set ps. validate_path p = Inr ())"
  by (auto simp: validate_paths_def all_ok_iff)

lemma validate_path_ok: "validate_path p = Inr () \<Longrightarrow> p \<noteq> [] \<and> list_all is_normal_part (path_components p)"
  by (auto simp: validate_path_def all_ok_iff require_iff nonempty_iff)

lemma scope_checked:
  assumes "validate_scope ids t = Inr ()" "sorted_wrt (<) ids"
  shows "scope_wf (set ids) (ts_scope t)"
    "set (ps_required (ts_capabilities t)) \<inter> set (ps_forbidden (ts_capabilities t)) = {}"
    "set (ps_required (ts_commands t)) \<inter> set (ps_forbidden (ts_commands t)) = {}"
proof -
  have *: "sp_affected_semantic_nodes (ts_scope t) \<noteq> []" "sp_allowed_files (ts_scope t) \<noteq> []"
    "\<forall>node \<in> set (sp_affected_semantic_nodes (ts_scope t)). contains_node ids node"
    "\<forall>p \<in> set (sp_allowed_files (ts_scope t)) \<union> set (sp_denied_files (ts_scope t)). validate_path p = Inr ()"
    "set (sp_allowed_files (ts_scope t)) \<inter> set (sp_denied_files (ts_scope t)) = {}"
    "validate_permissions (ts_capabilities t) ''capability'' = Inr ()"
    "validate_permissions (ts_commands t) ''command'' = Inr ()"
    using assms(1)
    by (auto simp: validate_scope_def Let_def all_ok_iff require_iff validate_paths_iff disjoint_lists_iff)
  then show "scope_wf (set ids) (ts_scope t)"
    using contains_node_iff [OF assms(2)] validate_path_ok unfolding scope_wf_def by blast
  show "set (ps_required (ts_capabilities t)) \<inter> set (ps_forbidden (ts_capabilities t)) = {}"
    "set (ps_required (ts_commands t)) \<inter> set (ps_forbidden (ts_commands t)) = {}"
    using *(6,7) by (auto simp: validate_permissions_def all_ok_iff disjoint_lists_iff)
qed

lemma acceptance_loop_ok:
  assumes "acceptance_loop evidence cs ids ex = Inr ()" "bt_wf ex"
  shows "distinct (map ac_id cs) \<and> ac_id ` set cs \<inter> set ids = {}
    \<and> (\<forall>c \<in> set cs. ac_evidence_refs c \<noteq> [] \<and> set (ac_evidence_refs c) \<subseteq> set evidence)
    \<and> (\<forall>c \<in> set cs. \<forall>e. map_of ex (trim (ac_requirement c)) = Some e \<longrightarrow> e = ac_expected c)
    \<and> (\<forall>c \<in> set cs. \<forall>d \<in> set cs. trim (ac_requirement c) = trim (ac_requirement d) \<longrightarrow> ac_expected c = ac_expected d)"
  using assms
proof (induction cs arbitrary: ids ex)
  case (Cons c rest)
  let ?q = "trim (ac_requirement c)"
  let ?ex = "bt_insert ?q (ac_expected c) ex"
  have head: "ac_id c \<notin> set ids" "map_of ex ?q = None \<or> map_of ex ?q = Some (ac_expected c)"
    "ac_evidence_refs c \<noteq> []" "set (ac_evidence_refs c) \<subseteq> set evidence"
    and tail: "acceptance_loop evidence rest (bset_insert (ac_id c) ids) ?ex = Inr ()"
    using Cons.prems(1) by (auto simp: Let_def rbind_Inr_iff require_iff all_ok_iff split: if_splits)
  have wf: "bt_wf ?ex" using Cons.prems(2) by (rule bt.wf_insert)
  have IH: "distinct (map ac_id rest) \<and> ac_id ` set rest \<inter> set (bset_insert (ac_id c) ids) = {}
    \<and> (\<forall>c \<in> set rest. ac_evidence_refs c \<noteq> [] \<and> set (ac_evidence_refs c) \<subseteq> set evidence)
    \<and> (\<forall>c \<in> set rest. \<forall>e. map_of ?ex (trim (ac_requirement c)) = Some e \<longrightarrow> e = ac_expected c)
    \<and> (\<forall>c \<in> set rest. \<forall>d \<in> set rest. trim (ac_requirement c) = trim (ac_requirement d) \<longrightarrow> ac_expected c = ac_expected d)"
    by (rule Cons.IH [OF tail wf])
  have get: "map_of ?ex k = (if k = ?q then Some (ac_expected c) else map_of ex k)" for k
    using Cons.prems(2) by (simp add: bt.get_insert)
  have same: "ac_expected d = ac_expected c" if "d \<in> set rest" "trim (ac_requirement d) = ?q" for d
    using IH get that by metis
  have old: "e = ac_expected d" if "d \<in> set rest" "map_of ex (trim (ac_requirement d)) = Some e" for d e
  proof (cases "trim (ac_requirement d) = ?q")
    case True
    then show ?thesis using head(2) same [OF that(1)] that(2) by auto
  next
    case False
    then have "map_of ?ex (trim (ac_requirement d)) = Some e" using that(2) by (simp add: get)
    then show ?thesis using IH that(1) by blast
  qed
  have "\<forall>a \<in> set (c # rest). \<forall>b \<in> set (c # rest).
      trim (ac_requirement a) = trim (ac_requirement b) \<longrightarrow> ac_expected a = ac_expected b"
  proof (intro ballI impI)
    fix a b assume ab: "a \<in> set (c # rest)" "b \<in> set (c # rest)" "trim (ac_requirement a) = trim (ac_requirement b)"
    have "ac_expected a = ac_expected b" if "a \<in> set rest" "b \<in> set rest" using IH ab(3) that by blast
    then show "ac_expected a = ac_expected b" using ab same [of a] same [of b] by auto
  qed
  moreover have "\<forall>d \<in> set (c # rest). \<forall>e. map_of ex (trim (ac_requirement d)) = Some e \<longrightarrow> e = ac_expected d"
    using old head(2) by auto
  moreover have "distinct (map ac_id (c # rest))" "ac_id ` set (c # rest) \<inter> set ids = {}"
    using IH head(1) by auto
  moreover have "\<forall>d \<in> set (c # rest). ac_evidence_refs d \<noteq> [] \<and> set (ac_evidence_refs d) \<subseteq> set evidence"
    using IH head(3,4) by auto
  ultimately show ?case by blast
qed simp

lemma budgets_checked: "validate_budgets b = Inr () \<longleftrightarrow> budgets_wf b"
  by (auto simp: validate_budgets_def all_ok_iff require_iff budgets_wf_def word_le_nat_alt word_less_nat_alt)

lemma class_range: "1 \<le> c \<Longrightarrow> c \<le> 3 \<Longrightarrow> c \<in> {1, 2, 3}" for c :: "8 word"
proof -
  assume "1 \<le> c" "c \<le> 3"
  then have "unat c = 1 \<or> unat c = 2 \<or> unat c = 3" by (auto simp: word_le_nat_alt)
  moreover have "c = of_nat (unat c)" by simp
  ultimately show ?thesis by (metis insertCI of_nat_1 of_nat_numeral)
qed

lemma delivery_checked:
  assumes "validate_delivery c d = Inr ()" "1 \<le> c" "c \<le> 3"
  shows "delivery_wf c d"
  using assms(1) class_range [OF assms(2,3)]
  by (auto simp: validate_delivery_def Let_def all_ok_iff require_iff delivery_wf_def)

lemma repair_checked: "validate_repair_plan t = Inr () \<Longrightarrow> repair_wf t"
  by (auto simp: validate_repair_plan_def validate_repair_def Let_def all_ok_iff require_iff repair_wf_def
      nonempty_list_iff list_all_iff split: option.splits task_kind.splits)

lemma support_command_iff:
  "validate_support_command t (kind, command) = Inr () \<longleftrightarrow>
     (\<forall>denied \<in> set (ps_forbidden (ts_commands t)). \<not> command_invokes command denied)
     \<and> (\<forall>denied \<in> set (ps_forbidden (ts_capabilities t)). \<not> command_mentions_capability command denied)"
  by (auto simp: validate_support_command_def all_ok_iff require_iff list_ex_iff)

lemma commands_checked:
  assumes "validate_support_commands t = Inr ()"
  shows "commands_wf t"
proof -
  have ok: "\<forall>kc \<in> set (map (\<lambda>item. (''evidence'', er_command item)) (ts_required_evidence t)
      @ map (\<lambda>command. (''rollback'', command)) (rp_commands (ts_rollback t))). validate_support_command t kc = Inr ()"
    using assms unfolding validate_support_commands_def all_ok_iff set_map by blast
  have "\<exists>kind. validate_support_command t (kind, command) = Inr ()"
    if "command \<in> er_command ` set (ts_required_evidence t) \<union> set (rp_commands (ts_rollback t))" for command
    using ok that by auto
  then show ?thesis unfolding commands_wf_def support_command_iff by blast
qed

lemma evidence_checked:
  assumes "validate_acceptance t = Inr ()"
  shows "evidence_wf (ts_acceptance_criteria t) (ts_required_evidence t)"
proof -
  let ?ev = "bset_of (map er_id (ts_required_evidence t))"
  have ok: "ts_acceptance_criteria t \<noteq> []" "length ?ev = length (ts_required_evidence t)"
      "acceptance_loop ?ev (ts_acceptance_criteria t) [] [] = Inr ()"
    using assms by (auto simp: validate_acceptance_def Let_def all_ok_iff require_iff)
  have "distinct (map er_id (ts_required_evidence t))"
    using bset_of_distinct [of "map er_id (ts_required_evidence t)"] ok(2) by simp
  moreover have "set ?ev = er_id ` set (ts_required_evidence t)" by simp
  ultimately show ?thesis
    using ok(1) acceptance_loop_ok [OF ok(3) bt_wf_Nil] unfolding evidence_wf_def by blast
qed

lemma validated_wf:
  assumes "validate_task ids t = Some (Inr ())" "sorted_wrt (<) ids"
  shows "task_wf (set ids) t"
proof -
  have first: "validate_opening ids t = Inr ()"
    and last: "validate_dependencies (ts_dependencies t) = Some (Inr ())" "validate_closing t = Inr ()"
    using assms(1) by (auto simp: validate_task_def split: sum.splits option.splits)
  have ok: "validate_scope ids t = Inr ()" "validate_support_commands t = Inr ()" "validate_acceptance t = Inr ()"
    using first by (simp_all add: validate_opening_def all_ok_iff)
  have closing: "1 \<le> at_class (ts_autonomy t)" "at_class (ts_autonomy t) \<le> 3" "validate_budgets (ts_budgets t) = Inr ()"
      "validate_delivery (at_class (ts_autonomy t)) (ts_delivery_permissions t) = Inr ()" "validate_repair_plan t = Inr ()"
    using last(2) by (auto simp: validate_closing_def all_ok_iff require_iff)
  have "dependencies_wf (ts_dependencies t)"
    using dependencies_decided [of "ts_dependencies t"] last(1) by simp
  then show ?thesis
    using scope_checked [OF ok(1) assms(2)] evidence_checked [OF ok(3)] commands_checked [OF ok(2)]
      budgets_checked [of "ts_budgets t"] delivery_checked [OF closing(4,1,2)] repair_checked [OF closing(5)] closing(3)
    by (simp add: task_wf_def)
qed

section \<open>The canonical form\<close>

lemma set_sort_dedup [simp]: "set (sort_dedup xs) = set xs"
  by (simp add: sort_dedup_def)

lemma sort_dedup_Nil_iff [simp]: "sort_dedup xs = [] \<longleftrightarrow> xs = []"
  by (metis set_empty set_sort_dedup)





lemma distinct_map_sort_key: "distinct (map f (sort_key g xs)) \<longleftrightarrow> distinct (map f xs)"
  by (metis mset_eq_imp_distinct_iff mset_map mset_sort)

lemma sort_key_Nil_iff: "sort_key f xs = [] \<longleftrightarrow> xs = []"
  by (metis set_empty set_sort)

lemma scope_wf_canonicalize: "scope_wf nodes (canonicalize_scope s) \<longleftrightarrow> scope_wf nodes s"
  by (simp add: scope_wf_def canonicalize_scope_def)

lemma evidence_wf_canonicalize:
  assumes "evidence_wf cs ev"
  shows "evidence_wf (map (\<lambda>c. c\<lparr>ac_evidence_refs := sort_dedup (ac_evidence_refs c)\<rparr>) (sort_key ac_id cs)) (sort_key er_id ev)"
    (is "evidence_wf ?cs ?ev")
proof -
  have wf: "cs \<noteq> []" "distinct (map ac_id cs)" "distinct (map er_id ev)"
    and refs: "\<And>c. c \<in> set cs \<Longrightarrow> ac_evidence_refs c \<noteq> [] \<and> set (ac_evidence_refs c) \<subseteq> er_id ` set ev"
    and one: "\<And>c d. c \<in> set cs \<Longrightarrow> d \<in> set cs \<Longrightarrow> trim (ac_requirement c) = trim (ac_requirement d) \<Longrightarrow> ac_expected c = ac_expected d"
    using assms unfolding evidence_wf_def by blast+
  have same: "\<exists>c' \<in> set cs. ac_requirement c = ac_requirement c' \<and> ac_expected c = ac_expected c'
      \<and> ac_evidence_refs c = sort_dedup (ac_evidence_refs c')" if "c \<in> set ?cs" for c
    using that by auto
  have "map ac_id ?cs = map ac_id (sort_key ac_id cs)" by simp
  then have "distinct (map ac_id ?cs)" using wf(2) by (simp only: distinct_map_sort_key)
  moreover have "?cs \<noteq> []" using wf(1) by (simp add: sort_key_Nil_iff)
  moreover have "distinct (map er_id ?ev)" using wf(3) by (simp only: distinct_map_sort_key)
  moreover have "ac_evidence_refs c \<noteq> [] \<and> set (ac_evidence_refs c) \<subseteq> er_id ` set ?ev" if c: "c \<in> set ?cs" for c
  proof -
    obtain c' where "c' \<in> set cs" "ac_evidence_refs c = sort_dedup (ac_evidence_refs c')"
      using same [OF c] by blast
    then show ?thesis using refs [of c'] by simp
  qed
  moreover have "ac_expected c = ac_expected d"
    if cd: "c \<in> set ?cs" "d \<in> set ?cs" and eq: "trim (ac_requirement c) = trim (ac_requirement d)" for c d
  proof -
    obtain c' d' where "c' \<in> set cs" "d' \<in> set cs" "ac_requirement c = ac_requirement c'" "ac_expected c = ac_expected c'"
        "ac_requirement d = ac_requirement d'" "ac_expected d = ac_expected d'"
      using same [OF cd(1)] same [OF cd(2)] by blast
    then show ?thesis using one [of c' d'] eq by simp
  qed
  ultimately show ?thesis unfolding evidence_wf_def by blast
qed

lemma dependency_rel_Union:
  "dependency_rel items = (\<Union>item \<in> set items. {tdp_id item} \<times> set (tdp_depends_on item))"
  by (auto simp: dependency_rel_def)

lemma dependencies_wf_canonicalize:
  assumes "dependencies_wf ds"
  shows "dependencies_wf (map (\<lambda>d. d\<lparr>tdp_depends_on := sort_dedup (tdp_depends_on d)\<rparr>) (sort_key tdp_id ds))"
    (is "dependencies_wf ?ds")
proof -
  have ids: "tdp_id ` set ?ds = tdp_id ` set ds" by (simp add: image_image)
  have "dependency_rel ?ds = dependency_rel ds"
    by (simp add: dependency_rel_Union)
  moreover have "map tdp_id ?ds = map tdp_id (sort_key tdp_id ds)" by simp
  then have "distinct (map tdp_id ?ds)"
    using assms by (simp only: distinct_map_sort_key dependencies_wf_def)
  ultimately show ?thesis
    using assms unfolding dependencies_wf_def ids by auto
qed

lemma canonicalize_fields [simp]:
  "ts_scope (canonicalize t) = canonicalize_scope (ts_scope t)"
  "ts_capabilities (canonicalize t) = canonicalize_permissions (ts_capabilities t)"
  "ts_commands (canonicalize t) = canonicalize_permissions (ts_commands t)"
  "ts_kind (canonicalize t) = ts_kind t" "ts_budgets (canonicalize t) = ts_budgets t"
  "ts_autonomy (canonicalize t) = ts_autonomy t" "ts_delivery_permissions (canonicalize t) = ts_delivery_permissions t"
  by (simp_all add: canonicalize_def)

lemma task_wf_canonicalize:
  assumes "task_wf nodes t"
  shows "task_wf nodes (canonicalize t)"
proof -
  have "repair_wf (canonicalize t)"
    using assms by (auto simp: task_wf_def repair_wf_def canonicalize_def canonicalize_scope_def)
  moreover have "commands_wf (canonicalize t)"
    using assms by (simp add: task_wf_def commands_wf_def canonicalize_def canonicalize_permissions_def)
  moreover have "evidence_wf (ts_acceptance_criteria (canonicalize t)) (ts_required_evidence (canonicalize t))"
    using assms by (simp add: task_wf_def canonicalize_def evidence_wf_canonicalize)
  moreover have "dependencies_wf (ts_dependencies (canonicalize t))"
    using assms by (simp add: task_wf_def canonicalize_def dependencies_wf_canonicalize)
  ultimately show ?thesis
    using assms by (simp add: task_wf_def scope_wf_canonicalize canonicalize_permissions_def)
qed

text \<open>
  C28. A compiled contract is well-formed: its scope lies in the Intent IR and does not meet the
  denied files, its criteria are consistent and backed by evidence, its dependencies are acyclic,
  its budgets and delivery permissions are within the bounds of its autonomy class, a repair plan
  does not widen the scope, no support command is forbidden, and its digest is the SHA-256 of the
  contract without digest.
\<close>

theorem compiled_task_wf:
  assumes "compile_approved_task to_json ids source = Some (Inr contract)" "sorted_wrt (<) ids"
  shows "\<exists>t bytes. task_wf (set ids) t \<and> to_json (contract_of t) = Inr bytes
    \<and> contract = (contract_of t)\<lparr>ct_contract_digest := ''sha256:'' @ stable_digest bytes\<rparr>"
proof -
  have "validate_task ids source = Some (Inr ())"
    using assms(1) by (auto simp: compile_approved_task_def split: option.splits sum.splits)
  then have wf: "task_wf (set ids) (canonicalize source)"
    using validated_wf [OF _ assms(2)] task_wf_canonicalize by blast
  obtain bytes where "to_json (contract_of (canonicalize source)) = Inr bytes"
      "contract = (contract_of (canonicalize source))\<lparr>ct_contract_digest := ''sha256:'' @ stable_digest bytes\<rparr>"
    using assms(1) by (auto simp: compile_approved_task_def Let_def split: option.splits sum.splits)
  with wf show ?thesis by blast
qed

section \<open>A sample task\<close>

definition sample_task :: "unit agent_task_spec" where
  "sample_task =
     \<lparr>ts_id = ''task-1'', ts_kind = Feature, ts_objective = ''add a check'',
      ts_authority = \<lparr>au_governing_issue = ''https://github.com/o/r/issues/7'', au_repository = ''o/r'', au_issue = 7,
        au_source_revision = replicate 40 (CHR ''a''), au_source_digest = ''sha256:'' @ replicate 64 (CHR ''b''),
        au_approval = \<lparr>apr_state = Approved, apr_approver = ''m'', apr_method = ''issue_label''\<rparr>\<rparr>,
      ts_scope = \<lparr>sp_affected_semantic_nodes = [''n2'', ''n1''], sp_allowed_files = [''b.ax'', ''a.ax''],
        sp_denied_files = [''c.ax'']\<rparr>,
      ts_capabilities = \<lparr>ps_required = [''fs''], ps_forbidden = [''net'']\<rparr>,
      ts_commands = \<lparr>ps_required = [''test''], ps_forbidden = [''push'']\<rparr>,
      ts_acceptance_criteria = [\<lparr>ac_id = ''A'', ac_requirement = ''works'', ac_expected = ExpectPass,
        ac_evidence_refs = [''e'']\<rparr>],
      ts_required_evidence = [\<lparr>er_id = ''e'', er_kind = UnitTest, er_command = ''test x''\<rparr>],
      ts_dependencies = [\<lparr>tdp_id = ''d2'', tdp_status = Satisfied, tdp_depends_on = [''d1''], tdp_precondition = ''''\<rparr>,
        \<lparr>tdp_id = ''d1'', tdp_status = Satisfied, tdp_depends_on = [], tdp_precondition = ''''\<rparr>],
      ts_autonomy = \<lparr>at_class = 1, at_risk = LowRisk\<rparr>,
      ts_budgets = \<lparr>bg_time_seconds = 60, bg_tokens = 100, bg_retries = 2, bg_cost_usd_micros = 5\<rparr>,
      ts_rollback = \<lparr>rp_checkpoint = ''start'', rp_commands = [''restore'']\<rparr>,
      ts_terminal_conditions = \<lparr>tc_success = [''done''], tc_stop = [''halt''], tc_escalation = [''ask'']\<rparr>,
      ts_delivery_permissions = \<lparr>dp_commit = False, dp_push = False, dp_pull_request = False, dp_review = False,
        dp_merge = False, dp_deploy = False, dp_approve_own_pull_request = False, dp_force_push = False,
        dp_direct_push_protected = False, dp_irreversible_actions = False\<rparr>,
      ts_repair_plan = None\<rparr>"

lemma sample_task_valid: "validate_task [''n1'', ''n2''] sample_task = Some (Inr ())"
  by code_simp

lemma sample_task_compiles:
  "compile_approved_task (\<lambda>c. Inr (str_bytes (ct_id c))) [''n1'', ''n2''] sample_task
     = Some (Inr ((contract_of (canonicalize sample_task))
         \<lparr>ct_contract_digest := ''sha256:'' @ stable_digest (str_bytes ''task-1'')\<rparr>))"
proof -
  have "ct_id (contract_of (canonicalize sample_task)) = ''task-1''"
    by (simp add: contract_of_def canonicalize_def sample_task_def)
  then show ?thesis
    unfolding compile_approved_task_def sample_task_valid by (simp add: Let_def)
qed

theorem compiled_task_wf_witness:
  "sorted_wrt (<) [''n1'', ''n2'']
   \<and> (\<exists>contract. compile_approved_task (\<lambda>c. Inr (str_bytes (ct_id c))) [''n1'', ''n2''] sample_task = Some (Inr contract)
      \<and> (\<exists>t bytes. task_wf {''n1'', ''n2''} t \<and> str_bytes (ct_id (contract_of t)) = bytes
           \<and> contract = (contract_of t)\<lparr>ct_contract_digest := ''sha256:'' @ stable_digest bytes\<rparr>))"
proof -
  have ids: "sorted_wrt (<) [''n1'', ''n2'']" by code_simp
  show ?thesis
    using compiled_task_wf [OF sample_task_compiles ids] ids sample_task_compiles by auto
qed

section \<open>Order independence\<close>











section \<open>Spelling of paths\<close>

text \<open>The normal form is checked on the components of a path, while the allow and deny sets are
  compared as strings: two spellings of one file can stand on both sides.\<close>

lemma scope_path_alias:
  "validate_paths [''src//a.ax''] = Inr () \<and> validate_paths [''src/a.ax''] = Inr ()
   \<and> disjoint_lists [''src//a.ax''] [''src/a.ax''] ''file scope'' = Inr ()
   \<and> path_components ''src//a.ax'' = path_components ''src/a.ax''"
  by code_simp

end
