(* ===== verification/Rust_Text.thy ===== *)
theory Rust_Text
  imports Rust_Strings Sha256
begin

text \<open>
  Byte vectors and strings: UTF-8 validation and lossy decoding as the standard library does them,
  counting and replacing matches, ASCII case and paths as strings. A string is the list of its
  UTF-8 bytes; matching bytes is matching characters because UTF-8 synchronises itself.
\<close>

section \<open>Bytes and strings\<close>

definition bytes_str :: "byte list \<Rightarrow> string" where
  "bytes_str bs = map (\<lambda>b. char_of (unat b)) bs"

lemma str_bytes_str [simp]: "str_bytes (bytes_str bs) = bs"
proof -
  have "unat b < 2 ^ LENGTH(8)" for b :: byte by (rule unsigned_less)
  then have "unat b mod 256 = unat b" for b :: byte by simp
  then show ?thesis by (induction bs) (simp_all add: str_bytes_def bytes_str_def)
qed

lemma bytes_str_bytes [simp]: "bytes_str (str_bytes s) = s"
proof -
  have "char_of (unat (word_of_nat (of_char c) :: byte)) = c" for c
    by (simp add: unat_of_nat)
  then show ?thesis by (induction s) (simp_all add: str_bytes_def bytes_str_def)
qed

section \<open>UTF-8\<close>

text \<open>One step of the decoder: whether the next sequence is a character, and how many bytes belong
  to it, or else to the longest part of a sequence that is not completed.\<close>

definition utf8_width :: "nat \<Rightarrow> nat" where
  "utf8_width b = (if b < 128 then 1 else if 194 \<le> b \<and> b \<le> 223 then 2 else if 224 \<le> b \<and> b \<le> 239 then 3
     else if 240 \<le> b \<and> b \<le> 244 then 4 else 0)"

definition utf8_second :: "nat \<Rightarrow> nat \<Rightarrow> bool" where
  "utf8_second b c \<longleftrightarrow>
     (if b = 224 then 160 else if b = 240 then 144 else 128) \<le> c
     \<and> c \<le> (if b = 237 then 159 else if b = 244 then 143 else 191)"

definition utf8_tail :: "nat \<Rightarrow> bool" where
  "utf8_tail c \<longleftrightarrow> 128 \<le> c \<and> c \<le> 191"

definition byte_at :: "byte list \<Rightarrow> nat \<Rightarrow> nat" where
  "byte_at bs i = (if i < length bs then unat (bs ! i) else 0)"

definition utf8_step :: "byte list \<Rightarrow> bool \<times> nat" where
  "utf8_step bs =
     (let w = utf8_width (byte_at bs 0) in
      if w = 0 then (False, 1)
      else if w = 1 then (True, 1)
      else if \<not> utf8_second (byte_at bs 0) (byte_at bs 1) then (False, 1)
      else if w = 2 then (True, 2)
      else if \<not> utf8_tail (byte_at bs 2) then (False, 2)
      else if w = 3 then (True, 3)
      else if \<not> utf8_tail (byte_at bs 3) then (False, 3)
      else (True, 4))"

lemma utf8_step_pos: "0 < snd (utf8_step bs)"
  by (simp add: utf8_step_def Let_def)

function utf8_valid :: "byte list \<Rightarrow> bool" where
  "utf8_valid bs =
     (if bs = [] then True else if fst (utf8_step bs) then utf8_valid (drop (snd (utf8_step bs)) bs) else False)"
  by pat_completeness auto

termination
  by (relation "measure length") (auto simp: utf8_step_pos)

declare utf8_valid.simps [simp del]

definition from_utf8 :: "byte list \<Rightarrow> string option" where
  "from_utf8 bs = (if utf8_valid bs then Some (bytes_str bs) else None)"

text \<open>The message of a failed \<open>String::from_utf8\<close>: the first sequence that is not a character, and
  whether the input ended inside it.\<close>

function utf8_error :: "nat \<Rightarrow> byte list \<Rightarrow> string" where
  "utf8_error i bs =
     (if bs = [] then ''''
      else (case utf8_step bs of (ok, n) \<Rightarrow>
        if ok then utf8_error (i + n) (drop n bs)
        else if utf8_width (byte_at bs 0) \<noteq> 0 \<and> length bs \<le> n
        then ''incomplete utf-8 byte sequence from index '' @ show_nat i
        else ''invalid utf-8 sequence of '' @ show_nat n @ '' bytes from index '' @ show_nat i))"
  by pat_completeness auto

termination
  by (relation "measure (\<lambda>(i, bs). length bs)") (auto simp: utf8_step_pos dest: arg_cong [where f = snd])

declare utf8_error.simps [simp del]

definition replacement_character :: "byte list" where
  "replacement_character = [239, 191, 189]"

function utf8_lossy :: "byte list \<Rightarrow> byte list" where
  "utf8_lossy bs =
     (if bs = [] then []
      else (case utf8_step bs of (ok, n) \<Rightarrow>
        (if ok then take n bs else replacement_character) @ utf8_lossy (drop n bs)))"
  by pat_completeness auto

termination
  by (relation "measure length") (auto simp: utf8_step_pos dest: arg_cong [where f = snd])

declare utf8_lossy.simps [simp del]

definition from_utf8_lossy :: "byte list \<Rightarrow> string" where
  "from_utf8_lossy bs = bytes_str (utf8_lossy bs)"

lemma from_utf8_Some: "from_utf8 bs = Some s \<Longrightarrow> str_bytes s = bs"
  by (auto simp: from_utf8_def split: if_splits)

section \<open>Matches\<close>

text \<open>\<open>matches(pattern).count()\<close>: occurrences that do not overlap; an empty pattern occurs at every
  character boundary.\<close>

function count_matches :: "string \<Rightarrow> string \<Rightarrow> nat" where
  "count_matches s p =
     (if p = [] then Suc (length (filter (\<lambda>c. \<not> utf8_tail (of_char c)) s))
      else if s = [] then 0
      else if starts_with s p then Suc (count_matches (drop (length p) s) p)
      else count_matches (tl s) p)"
  by pat_completeness auto

termination
  by (relation "measure (\<lambda>(s, p). length s)") (auto simp: neq_Nil_conv)

declare count_matches.simps [simp del]

text \<open>\<open>replacen(pattern, replacement, 1)\<close>.\<close>

fun replace_first :: "string \<Rightarrow> string \<Rightarrow> string \<Rightarrow> string" where
  "replace_first [] p r = (if p = [] then r else [])"
| "replace_first (c # s) p r =
     (if starts_with (c # s) p then r @ drop (length p) (c # s) else c # replace_first s p r)"

text \<open>\<open>splitn(2, pattern)\<close>: the part before the first match, and what follows it if there is one.\<close>

fun split_first :: "string \<Rightarrow> string \<Rightarrow> string \<times> string option" where
  "split_first p [] = ([], None)"
| "split_first p (c # s) =
     (if starts_with (c # s) p then ([], Some (drop (length p) (c # s)))
      else (case split_first p s of (a, b) \<Rightarrow> (c # a, b)))"

definition ascii_lower :: "char \<Rightarrow> char" where
  "ascii_lower c = (if CHR ''A'' \<le> c \<and> c \<le> CHR ''Z'' then char_of (of_char c + 32 :: nat) else c)"

definition to_ascii_lowercase :: "string \<Rightarrow> string" where
  "to_ascii_lowercase s = map ascii_lower s"

definition contains_whitespace :: "string \<Rightarrow> bool" where
  "contains_whitespace s \<longleftrightarrow> list_ex (str_contains s) white_space"

section \<open>Paths\<close>

text \<open>\<open>Path::join\<close> and \<open>Path::starts_with\<close> on Unix; \<open>normalized\<close> of the source prints a path.\<close>

definition path_join :: "string \<Rightarrow> string \<Rightarrow> string" where
  "path_join root p =
     (if is_absolute p then p else if root = [] \<or> ends_with root ''/'' then root @ p else root @ ''/'' @ p)"

definition path_starts_with :: "string \<Rightarrow> string \<Rightarrow> bool" where
  "path_starts_with p base \<longleftrightarrow> take (length (path_components base)) (path_components p) = path_components base"

definition normalized :: "string \<Rightarrow> string" where
  "normalized p = map (\<lambda>c. if c = CHR 0x5C then CHR ''/'' else c) (from_utf8_lossy (str_bytes p))"

text \<open>The printed form of a path, \<open>Path::strip_prefix\<close> and \<open>{:o}\<close>.\<close>

definition display_path :: "string \<Rightarrow> string" where
  "display_path p = from_utf8_lossy (str_bytes p)"

fun component_text :: "path_component \<Rightarrow> string" where
  "component_text RootDir = ''/''"
| "component_text CurDir = ''.''"
| "component_text ParentDir = ''..''"
| "component_text (NormalPart name) = name"

definition path_strip_prefix :: "string \<Rightarrow> string \<Rightarrow> (string, string) result" where
  "path_strip_prefix p base =
     (if path_starts_with p base
      then Inr (join_with ''/'' (map component_text (drop (length (path_components base)) (path_components p))))
      else Inl ''prefix not found'')"

definition same_path :: "string \<Rightarrow> string \<Rightarrow> bool" where
  "same_path p q \<longleftrightarrow> path_components p = path_components q"

fun octal_digits :: "nat \<Rightarrow> nat \<Rightarrow> string" where
  "octal_digits 0 n = ''''"
| "octal_digits (Suc k) n = (if n < 8 then [digit_char n] else octal_digits k (n div 8) @ [digit_char (n mod 8)])"

definition show_octal :: "u32 \<Rightarrow> string" where
  "show_octal n = octal_digits 11 (unat n)"

end
