(* ===== verification/Anchored_Files.thy ===== *)
theory Anchored_Files
  imports Rust_Monad Rust_Text
begin

text \<open>
  The file-system layer of \<open>transactional_workspace.rs\<close>: paths are opened one component at a
  time below a directory descriptor, symbolic links are never followed, and files are replaced by
  an exclusive temporary file and a rename. The system calls, \<open>git\<close> and the clock are the fields
  of a record of functions over an abstract world, so that every fact below holds whatever the
  operating system answers. The model is that of the Unix configuration; closing a descriptor is
  not modelled.
\<close>

unbundle bit_operations_syntax

section \<open>The operating system\<close>

datatype io_kind = NotFound | AlreadyExists | LinkLoop | WouldBlock | OtherKind

record io_error =
  ie_kind :: io_kind
  ie_text :: string

record file_stat =
  st_mode :: u32
  st_nlink :: u64

datatype open_flag = O_RDONLY | O_WRONLY | O_RDWR | O_CREAT | O_EXCL | O_DIRECTORY | O_NOFOLLOW | O_CLOEXEC | O_NONBLOCK

record command_output =
  co_success :: bool
  co_stdout :: "byte list"
  co_stderr :: "byte list"

text \<open>What \<open>fs::symlink_metadata\<close> reports of an entry.\<close>

datatype file_type = LinkFile | DirFile | RegularFile | SpecialFile

record metadata =
  md_type :: file_type
  md_mode :: u32

type_synonym ('w, 'a) call = "'w \<Rightarrow> (io_error, 'a) result \<times> 'w"

record ('d, 'w) os =
  os_fstatat :: "'d \<Rightarrow> string \<Rightarrow> ('w, file_stat) call"
  os_mkdirat :: "'d \<Rightarrow> string \<Rightarrow> u32 \<Rightarrow> ('w, unit) call"
  os_openat :: "'d \<Rightarrow> string \<Rightarrow> open_flag list \<Rightarrow> u32 \<Rightarrow> ('w, 'd) call"
  os_dup :: "'d \<Rightarrow> ('w, 'd) call"
  os_read_to_end :: "'d \<Rightarrow> ('w, byte list) call"
  os_write_all :: "'d \<Rightarrow> byte list \<Rightarrow> ('w, unit) call"
  os_fsync :: "'d \<Rightarrow> ('w, unit) call"
  os_unlinkat :: "'d \<Rightarrow> string \<Rightarrow> bool \<Rightarrow> ('w, unit) call"
  os_renameat :: "'d \<Rightarrow> string \<Rightarrow> 'd \<Rightarrow> string \<Rightarrow> ('w, unit) call"
  os_fchmod :: "'d \<Rightarrow> u32 \<Rightarrow> ('w, unit) call"
  os_fstat :: "'d \<Rightarrow> ('w, file_stat) call"
  os_flock :: "'d \<Rightarrow> ('w, unit) call"
  os_past_deadline :: "'w \<Rightarrow> bool \<times> 'w"
  os_descriptor_path :: "'d \<Rightarrow> string"
  os_open_root :: "string \<Rightarrow> ('w, 'd) call"
  os_canonicalize :: "string \<Rightarrow> ('w, string) call"
  os_create_dir_all :: "string \<Rightarrow> ('w, unit) call"
  os_exists :: "string \<Rightarrow> 'w \<Rightarrow> bool \<times> 'w"
  os_symlink_metadata :: "string \<Rightarrow> ('w, metadata) call"
  os_read_dir :: "string \<Rightarrow> ('w, (io_error, string) result list) call"
  os_read_link :: "string \<Rightarrow> ('w, string) call"
  os_read_file :: "string \<Rightarrow> ('w, byte list) call"
  os_git :: "string \<Rightarrow> string list \<Rightarrow> ('w, command_output) call"
  os_process_id :: nat
  os_epoch_nanos :: "'w \<Rightarrow> nat \<times> 'w"
  os_walk_bound :: nat

text \<open>A process: its two counters, which wrap, and the world.\<close>

record 'w session =
  temp_sequence :: u64
  epoch_counter :: u64
  world :: 'w

type_synonym ('w, 'a) io = "('w session, string, 'a) rust_m"

definition sys :: "('w \<Rightarrow> 'a \<times> 'w) \<Rightarrow> ('w, 'a) io" where
  "sys f s = (case f (world s) of (a, w) \<Rightarrow> (Done a, s\<lparr>world := w\<rparr>))"

definition of_result :: "('e, 'a) result \<Rightarrow> ('s, 'e, 'a) rust_m" where
  "of_result r = (case r of Inl e \<Rightarrow> sfail e | Inr a \<Rightarrow> sret a)"

text \<open>A call whose error is turned into a message, as by \<open>map_err\<close> and \<open>?\<close>.\<close>

definition sys_or :: "(io_error \<Rightarrow> string) \<Rightarrow> ('w, 'a) call \<Rightarrow> ('w, 'a) io" where
  "sys_or message f = sbind (sys f) (\<lambda>r. case r of Inl e \<Rightarrow> sfail (message e) | Inr a \<Rightarrow> sret a)"

definition sthen :: "('s, 'e, 'a) rust_m \<Rightarrow> ('s, 'e, 'b) rust_m \<Rightarrow> ('s, 'e, 'b) rust_m" where
  "sthen m n = sbind m (\<lambda>_. n)"

text \<open>A method whose error is inspected by the caller.\<close>

definition attempt :: "('s, 'e, 'a) rust_m \<Rightarrow> ('s, 'x, ('e, 'a) result) rust_m" where
  "attempt m s =
     (case m s of
        (Done a, s') \<Rightarrow> (Done (Inr a), s')
      | (Fail e, s') \<Rightarrow> (Done (Inl e), s')
      | (Panicked, s') \<Rightarrow> (Panicked, s')
      | (OutOfFuel, s') \<Rightarrow> (OutOfFuel, s'))"

definition labelled :: "string \<Rightarrow> io_error \<Rightarrow> string" where
  "labelled label e = label @ '': '' @ ie_text e"

section \<open>Anchored paths\<close>

definition path_authority_symlink :: string where
  "path_authority_symlink = ''path contains a symlink or reparse component''"

definition path_authority_error :: "string \<Rightarrow> io_error \<Rightarrow> string" where
  "path_authority_error label e =
     (if ie_kind e = LinkLoop then path_authority_symlink
      else if ie_kind e = NotFound then ''path does not exist''
      else labelled label e)"

definition open_root_directory :: "('d, 'w) os \<Rightarrow> string \<Rightarrow> ('w, 'd) io" where
  "open_root_directory os root = sys_or (labelled ''cannot safely open transaction worktree root'') (os_open_root os root)"

fun cstring_parts :: "path_component list \<Rightarrow> (string, string list) result" where
  "cstring_parts [] = Inr []"
| "cstring_parts (NormalPart name # cs) =
     (if CHR 0x00 \<in> set name then Inl ''path contains an embedded NUL''
      else rbind (cstring_parts cs) (\<lambda>rest. Inr (name # rest)))"
| "cstring_parts (_ # cs) = Inl ''path must contain only normal components''"

definition relative_components :: "string \<Rightarrow> (string, string list) result" where
  "relative_components relative =
     (if relative = '''' \<or> is_absolute relative \<or> list_ex (\<lambda>c. \<not> is_normal_part c) (path_components relative)
      then Inl ''path must be a normalized relative path without traversal''
      else cstring_parts (path_components relative))"

definition file_kind :: "file_stat \<Rightarrow> u32" where
  "file_kind st = st_mode st AND 0xF000"

definition s_iflnk :: u32 where "s_iflnk = 0xA000"
definition s_ifreg :: u32 where "s_ifreg = 0x8000"
definition s_ifdir :: u32 where "s_ifdir = 0x4000"

definition anchored_entry_stat :: "('d, 'w) os \<Rightarrow> 'd \<Rightarrow> string \<Rightarrow> ('w, file_stat option) io" where
  "anchored_entry_stat os parent leaf =
     sbind (sys (os_fstatat os parent leaf)) (\<lambda>r.
       case r of
         Inl e \<Rightarrow> if ie_kind e = NotFound then sret None else sfail (labelled ''cannot inspect authorized path'' e)
       | Inr value \<Rightarrow>
           if file_kind value = s_iflnk then sfail path_authority_symlink
           else if file_kind value = s_ifreg \<and> 1 < st_nlink value
             then sfail ''path authority rejects multiply-linked file identity''
           else sret (Some value))"

definition directory_flags :: "open_flag list" where
  "directory_flags = [O_RDONLY, O_DIRECTORY, O_NOFOLLOW, O_CLOEXEC]"

definition open_component :: "('d, 'w) os \<Rightarrow> 'd \<Rightarrow> string \<Rightarrow> ('w, 'd) io" where
  "open_component os parent component =
     sys_or (path_authority_error ''path authority rejected parent component'')
       (os_openat os parent component directory_flags 0)"

definition make_component :: "('d, 'w) os \<Rightarrow> 'd \<Rightarrow> string \<Rightarrow> ('w, unit) io" where
  "make_component os parent component =
     sbind (sys (os_mkdirat os parent component 0x1ED)) (\<lambda>r.
       case r of
         Inl e \<Rightarrow> if ie_kind e \<noteq> AlreadyExists then sfail (labelled ''cannot create transaction path component'' e) else sret ()
       | Inr _ \<Rightarrow> sret ())"

fun walk_components :: "('d, 'w) os \<Rightarrow> bool \<Rightarrow> string list \<Rightarrow> 'd \<Rightarrow> ('w, 'd) io" where
  "walk_components os create_missing [] parent = sret parent"
| "walk_components os create_missing (component # rest) parent =
     sbind (anchored_entry_stat os parent component) (\<lambda>existing.
       if existing = None \<and> \<not> create_missing then sfail ''path does not exist''
       else sbind (if existing = None then make_component os parent component else sret ()) (\<lambda>_.
         sbind (open_component os parent component) (walk_components os create_missing rest)))"

definition duplicate_root :: "('d, 'w) os \<Rightarrow> 'd \<Rightarrow> ('w, 'd) io" where
  "duplicate_root os root = sys_or (labelled ''cannot duplicate worktree root descriptor'') (os_dup os root)"

definition open_anchored_parent :: "('d, 'w) os \<Rightarrow> 'd \<Rightarrow> string \<Rightarrow> bool \<Rightarrow> ('w, 'd \<times> string) io" where
  "open_anchored_parent os root relative create_missing =
     sbind (of_result (relative_components relative)) (\<lambda>components.
       if components = [] then sfail ''path has no leaf component''
       else sbind (duplicate_root os root) (\<lambda>parent.
         sbind (walk_components os create_missing (butlast components) parent) (\<lambda>parent.
           sret (parent, last components))))"

text \<open>\<open>anchored_entry_stat(..)?.ok_or_else(..)?\<close>.\<close>

definition require_entry :: "('d, 'w) os \<Rightarrow> string \<Rightarrow> 'd \<Rightarrow> string \<Rightarrow> ('w, file_stat) io" where
  "require_entry os message parent leaf =
     sbind (anchored_entry_stat os parent leaf) (\<lambda>st. case st of None \<Rightarrow> sfail message | Some v \<Rightarrow> sret v)"

definition validate_anchored_existing_path :: "('d, 'w) os \<Rightarrow> 'd \<Rightarrow> string \<Rightarrow> ('w, unit) io" where
  "validate_anchored_existing_path os root relative =
     sbind (open_anchored_parent os root relative False) (\<lambda>(parent, leaf).
       sbind (require_entry os ''path does not exist'' parent leaf) (\<lambda>_. sret ()))"

fun missing_ancestor :: "('d, 'w) os \<Rightarrow> string list \<Rightarrow> 'd \<Rightarrow> ('w, bool) io" where
  "missing_ancestor os [] parent = sret False"
| "missing_ancestor os (component # rest) parent =
     sbind (anchored_entry_stat os parent component) (\<lambda>st.
       case st of
         None \<Rightarrow> sret True
       | Some v \<Rightarrow>
           if file_kind v = s_ifdir then sbind (open_component os parent component) (missing_ancestor os rest)
           else sret False)"

definition creates_missing_ancestors :: "('d, 'w) os \<Rightarrow> 'd \<Rightarrow> string \<Rightarrow> ('w, bool) io" where
  "creates_missing_ancestors os root relative =
     sbind (of_result (relative_components relative)) (\<lambda>components.
       sbind (duplicate_root os root) (missing_ancestor os (butlast components)))"

definition validate_anchored_write_path :: "('d, 'w) os \<Rightarrow> 'd \<Rightarrow> string \<Rightarrow> ('w, unit) io" where
  "validate_anchored_write_path os root relative =
     sbind (attempt (open_anchored_parent os root relative False)) (\<lambda>r.
       case r of
         Inr (parent, leaf) \<Rightarrow> sbind (anchored_entry_stat os parent leaf) (\<lambda>_. sret ())
       | Inl e \<Rightarrow> if e = ''path does not exist'' \<or> str_contains e ''not found'' then sret () else sfail e)"

section \<open>File operations\<close>

definition open_anchored_file :: "('d, 'w) os \<Rightarrow> 'd \<Rightarrow> string \<Rightarrow> ('w, 'd) io" where
  "open_anchored_file os root relative =
     sbind (open_anchored_parent os root relative False) (\<lambda>(parent, leaf).
       sbind (require_entry os ''path does not exist'' parent leaf) (\<lambda>_.
         sys_or (path_authority_error ''path authority rejected final component'')
           (os_openat os parent leaf [O_RDONLY, O_NOFOLLOW, O_CLOEXEC] 0)))"

definition secure_read :: "('d, 'w) os \<Rightarrow> 'd \<Rightarrow> string \<Rightarrow> ('w, byte list) io" where
  "secure_read os root relative =
     sbind (open_anchored_file os root relative) (\<lambda>file. sys_or (labelled ''read failed'') (os_read_to_end os file))"

definition secure_file_digest :: "('d, 'w) os \<Rightarrow> 'd \<Rightarrow> string \<Rightarrow> ('w, string option) io" where
  "secure_file_digest os root relative =
     sbind (attempt (open_anchored_file os root relative)) (\<lambda>r.
       case r of
         Inl e \<Rightarrow> if e = ''path does not exist'' then sret None else sfail e
       | Inr file \<Rightarrow>
           sbind (sys_or (labelled ''cannot hash authorized path'') (os_read_to_end os file)) (\<lambda>bytes.
             sret (Some (sha256_digest bytes))))"

text \<open>A step of \<open>secure_write\<close> that removes the temporary file before it gives up.\<close>

definition or_unlink :: "('d, 'w) os \<Rightarrow> 'd \<Rightarrow> string \<Rightarrow> ('w, 'a) io \<Rightarrow> ('w, 'a) io" where
  "or_unlink os parent name m =
     sbind (attempt m) (\<lambda>r.
       case r of
         Inl e \<Rightarrow> sbind (sys (os_unlinkat os parent name False)) (\<lambda>_. sfail e)
       | Inr a \<Rightarrow> sret a)"

definition publish_write :: "('d, 'w) os \<Rightarrow> 'd \<Rightarrow> string \<Rightarrow> string \<Rightarrow> 'd \<Rightarrow> byte list \<Rightarrow> ('w, unit) io" where
  "publish_write os parent leaf name file bytes =
     sbind (or_unlink os parent name
         (sthen (sys_or (labelled ''cannot persist authorized write'') (os_write_all os file bytes))
           (sys_or (labelled ''cannot persist authorized write'') (os_fsync os file)))) (\<lambda>_.
     sbind (or_unlink os parent name (anchored_entry_stat os parent leaf)) (\<lambda>_.
     sbind (or_unlink os parent name
         (sys_or (labelled ''cannot atomically publish authorized write'') (os_renameat os parent name parent leaf))) (\<lambda>_.
     sys_or (labelled ''authorized write published but parent sync failed'') (os_fsync os parent))))"

definition next_temp_sequence :: "('w, u64) io" where
  "next_temp_sequence s = (Done (temp_sequence s), s\<lparr>temp_sequence := temp_sequence s + 1\<rparr>)"

fun write_attempts :: "('d, 'w) os \<Rightarrow> 'd \<Rightarrow> string \<Rightarrow> byte list \<Rightarrow> nat list \<Rightarrow> io_error option \<Rightarrow> ('w, unit) io" where
  "write_attempts os parent leaf bytes [] last_error =
     sfail (''cannot allocate exclusive transaction temp file: ''
       @ (case last_error of None \<Rightarrow> ''temporary file collision'' | Some e \<Rightarrow> ie_text e))"
| "write_attempts os parent leaf bytes (k # ks) last_error =
     sbind next_temp_sequence (\<lambda>sequence.
       let name = ''.'' @ leaf @ ''.axiom-tmp-'' @ show_nat (os_process_id os) @ ''-'' @ show_nat (unat sequence) @ ''-'' @ show_nat k in
       sbind (sys (os_openat os parent name [O_WRONLY, O_CREAT, O_EXCL, O_NOFOLLOW, O_CLOEXEC] 0x180)) (\<lambda>r.
         case r of
           Inl e \<Rightarrow>
             if ie_kind e = AlreadyExists then write_attempts os parent leaf bytes ks (Some e)
             else sfail (labelled ''cannot create exclusive transaction temp file'' e)
         | Inr file \<Rightarrow> publish_write os parent leaf name file bytes))"

definition secure_write :: "('d, 'w) os \<Rightarrow> 'd \<Rightarrow> string \<Rightarrow> byte list \<Rightarrow> ('w, unit) io" where
  "secure_write os root relative bytes =
     sbind (open_anchored_parent os root relative True) (\<lambda>(parent, leaf).
       sbind (anchored_entry_stat os parent leaf) (\<lambda>_. write_attempts os parent leaf bytes [0..<32] None))"

definition secure_delete :: "('d, 'w) os \<Rightarrow> 'd \<Rightarrow> string \<Rightarrow> ('w, unit) io" where
  "secure_delete os root relative =
     sbind (open_anchored_parent os root relative False) (\<lambda>(parent, leaf).
       sbind (require_entry os ''path does not exist'' parent leaf) (\<lambda>value.
         sbind (sys_or (labelled ''delete failed'') (os_unlinkat os parent leaf (file_kind value = s_ifdir))) (\<lambda>_.
           sys_or (labelled ''delete completed but parent sync failed'') (os_fsync os parent))))"

definition secure_rename :: "('d, 'w) os \<Rightarrow> 'd \<Rightarrow> string \<Rightarrow> string \<Rightarrow> ('w, unit) io" where
  "secure_rename os root from to =
     sbind (open_anchored_parent os root from False) (\<lambda>(source_parent, source_leaf).
     sbind (require_entry os ''rename source does not exist'' source_parent source_leaf) (\<lambda>_.
     sbind (open_anchored_parent os root to False) (\<lambda>(target_parent, target_leaf).
     sbind (anchored_entry_stat os target_parent target_leaf) (\<lambda>_.
     sbind (sys_or (labelled ''rename failed'') (os_renameat os source_parent source_leaf target_parent target_leaf)) (\<lambda>_.
     sthen (sys_or (labelled ''rename completed but parent sync failed'') (os_fsync os source_parent))
       (sys_or (labelled ''rename completed but parent sync failed'') (os_fsync os target_parent)))))))"

definition secure_chmod :: "('d, 'w) os \<Rightarrow> 'd \<Rightarrow> string \<Rightarrow> u32 \<Rightarrow> ('w, unit) io" where
  "secure_chmod os root relative mode =
     sbind (open_anchored_file os root relative) (\<lambda>file. sys_or (labelled ''chmod failed'') (os_fchmod os file mode))"

end
