(* ===== verification/Sample_System.thy ===== *)
theory Sample_System
  imports Anchored_Files
begin

text \<open>
  A small operating system on which the examples run: its world is the content of one file, every
  call succeeds, and every commit that \<open>git\<close> is asked for is the same one.
\<close>

definition sample_sha :: string where
  "sample_sha = replicate 40 (CHR ''a'')"

definition plain_file :: file_stat where
  "plain_file = \<lparr>st_mode = 0x81A4, st_nlink = 1\<rparr>"

definition missing_error :: io_error where
  "missing_error = \<lparr>ie_kind = NotFound, ie_text = ''missing''\<rparr>"

definition sample_os :: "(unit, byte list) os" where
  "sample_os =
     \<lparr>os_fstatat = (\<lambda>d n w. (Inr plain_file, w)), os_mkdirat = (\<lambda>d n m w. (Inr (), w)),
      os_openat = (\<lambda>d n flags m w. (Inr (), w)), os_dup = (\<lambda>d w. (Inr (), w)),
      os_read_to_end = (\<lambda>d w. (Inr w, w)), os_write_all = (\<lambda>d bytes w. (Inr (), bytes)),
      os_fsync = (\<lambda>d w. (Inr (), w)), os_unlinkat = (\<lambda>d n b w. (Inr (), w)),
      os_renameat = (\<lambda>d n d' n' w. (Inr (), w)), os_fchmod = (\<lambda>d m w. (Inr (), w)),
      os_fstat = (\<lambda>d w. (Inr plain_file, w)), os_flock = (\<lambda>d w. (Inr (), w)),
      os_past_deadline = (\<lambda>w. (False, w)), os_descriptor_path = (\<lambda>d. ''/w''),
      os_open_root = (\<lambda>p w. (Inr (), w)), os_canonicalize = (\<lambda>p w. (Inr p, w)),
      os_create_dir_all = (\<lambda>p w. (Inr (), w)), os_exists = (\<lambda>p w. (False, w)),
      os_symlink_metadata = (\<lambda>p w. (Inl missing_error, w)), os_read_dir = (\<lambda>p w. (Inr [], w)),
      os_read_link = (\<lambda>p w. (Inr p, w)), os_read_file = (\<lambda>p w. (Inr w, w)),
      os_git = (\<lambda>dir args w. (Inr \<lparr>co_success = True, co_stdout = str_bytes sample_sha, co_stderr = []\<rparr>, w)),
      os_process_id = 1, os_epoch_nanos = (\<lambda>w. (0, w)), os_walk_bound = 2\<rparr>"

definition sample_session :: "byte list \<Rightarrow> byte list session" where
  "sample_session content = \<lparr>temp_sequence = 0, epoch_counter = 0, world = content\<rparr>"

lemma sample_calls [simp]:
  "os_fstatat sample_os d n w = (Inr plain_file, w)" "os_openat sample_os d n flags m w = (Inr (), w)"
  "os_dup sample_os d w = (Inr (), w)" "os_read_to_end sample_os d w = (Inr w, w)"
  "os_write_all sample_os d bytes w = (Inr (), bytes)" "os_fsync sample_os d w = (Inr (), w)"
  "os_renameat sample_os d n d' n' w = (Inr (), w)" "os_fstat sample_os d w = (Inr plain_file, w)"
  "os_flock sample_os d w = (Inr (), w)" "os_open_root sample_os p w = (Inr (), w)"
  "os_canonicalize sample_os p w = (Inr p, w)" "os_create_dir_all sample_os p w = (Inr (), w)"
  "os_exists sample_os p w = (False, w)" "os_symlink_metadata sample_os p w = (Inl missing_error, w)"
  "os_read_dir sample_os p w = (Inr [], w)" "os_epoch_nanos sample_os w = (0, w)"
  "os_git sample_os dir args w = (Inr \<lparr>co_success = True, co_stdout = str_bytes sample_sha, co_stderr = []\<rparr>, w)"
  "os_descriptor_path sample_os d = ''/w''" "os_process_id sample_os = 1" "os_walk_bound sample_os = 2"
  by (simp_all add: sample_os_def)

end
