(* ===== verification/Anchored_Confinement.thy ===== *)
theory Anchored_Confinement
  imports Sample_System
begin

text \<open>
  The file operations never leave the directory they are anchored to: every name they hand to the
  operating system is one plain component, every open refuses symbolic links, and no call takes a
  whole path. Two systems that agree on such calls are indistinguishable for them.
\<close>

section \<open>Plain names\<close>

definition plain_name :: "string \<Rightarrow> bool" where
  "plain_name n \<longleftrightarrow> n \<noteq> '''' \<and> n \<noteq> ''.'' \<and> n \<noteq> ''..'' \<and> CHR ''/'' \<notin> set n \<and> CHR 0x00 \<notin> set n"

lemma normal_parts:
  assumes "NormalPart n \<in> set (plain_components ps)" "\<forall>p \<in> set ps. CHR ''/'' \<notin> set p"
  shows "n \<noteq> '''' \<and> n \<noteq> ''.'' \<and> n \<noteq> ''..'' \<and> CHR ''/'' \<notin> set n"
  using assms by (induction ps rule: plain_components.induct) (auto split: if_splits)

lemma normal_components:
  assumes "NormalPart n \<in> set (path_components path)"
  shows "n \<noteq> '''' \<and> n \<noteq> ''.'' \<and> n \<noteq> ''..'' \<and> CHR ''/'' \<notin> set n"
proof -
  let ?ps = "split_on CHR ''/'' path"
  have free: "\<forall>p \<in> set ?ps. CHR ''/'' \<notin> set p" by (blast dest: split_on_free)
  obtain q qs where qs: "?ps = q # qs" by (cases ?ps) auto
  then have "NormalPart n \<in> set (plain_components ?ps) \<or> NormalPart n \<in> set (plain_components qs)"
    using assms by (auto simp: path_components_def split: if_splits)
  moreover have "\<forall>p \<in> set qs. CHR ''/'' \<notin> set p" using free qs by simp
  ultimately show ?thesis using normal_parts [of n ?ps, OF _ free] normal_parts [of n qs] by blast
qed

lemma cstring_parts_Inr: "cstring_parts cs = Inr names \<Longrightarrow> cs = map NormalPart names \<and> (\<forall>n \<in> set names. CHR 0x00 \<notin> set n)"
  by (induction cs arbitrary: names rule: cstring_parts.induct) (auto simp: rbind_Inr_iff split: if_splits)

lemma relative_components_plain:
  assumes "relative_components relative = Inr names" "n \<in> set names"
  shows "plain_name n"
proof -
  have "path_components relative = map NormalPart names" "\<forall>n \<in> set names. CHR 0x00 \<notin> set n"
    using assms(1) cstring_parts_Inr by (auto simp: relative_components_def split: if_splits)
  then show ?thesis using assms(2) normal_components [of n relative] by (auto simp: plain_name_def)
qed

lemma show_nat_plain: "CHR ''/'' \<notin> set (show_nat n)" "CHR 0x00 \<notin> set (show_nat n)"
  using show_nat_digits [of n] by (auto simp: list_all_iff is_ascii_digit_def)

lemma temp_name_plain:
  assumes "plain_name leaf"
  shows "plain_name (''.'' @ leaf @ ''.axiom-tmp-'' @ show_nat a @ ''-'' @ show_nat b @ ''-'' @ show_nat c)"
  using assms show_nat_plain by (auto simp: plain_name_def)

section \<open>Systems that agree on confined calls\<close>

definition same_confined :: "('d, 'w) os \<Rightarrow> ('d, 'w) os \<Rightarrow> bool" where
  "same_confined os os' \<longleftrightarrow>
     (\<forall>d n. plain_name n \<longrightarrow> os_fstatat os d n = os_fstatat os' d n)
     \<and> (\<forall>d n m. plain_name n \<longrightarrow> os_mkdirat os d n m = os_mkdirat os' d n m)
     \<and> (\<forall>d n flags m. plain_name n \<and> O_NOFOLLOW \<in> set flags \<longrightarrow> os_openat os d n flags m = os_openat os' d n flags m)
     \<and> (\<forall>d n b. plain_name n \<longrightarrow> os_unlinkat os d n b = os_unlinkat os' d n b)
     \<and> (\<forall>d n d' n'. plain_name n \<and> plain_name n' \<longrightarrow> os_renameat os d n d' n' = os_renameat os' d n d' n')
     \<and> os_dup os = os_dup os' \<and> os_read_to_end os = os_read_to_end os' \<and> os_write_all os = os_write_all os'
     \<and> os_fsync os = os_fsync os' \<and> os_fchmod os = os_fchmod os' \<and> os_process_id os = os_process_id os'"

lemma same_calls:
  assumes "same_confined os os'"
  shows "plain_name n \<Longrightarrow> os_fstatat os d n = os_fstatat os' d n"
    "plain_name n \<Longrightarrow> os_mkdirat os d n m = os_mkdirat os' d n m"
    "plain_name n \<Longrightarrow> O_NOFOLLOW \<in> set flags \<Longrightarrow> os_openat os d n flags m = os_openat os' d n flags m"
    "plain_name n \<Longrightarrow> os_unlinkat os d n b = os_unlinkat os' d n b"
    "plain_name n \<Longrightarrow> plain_name n' \<Longrightarrow> os_renameat os d n d' n' = os_renameat os' d n d' n'"
    "os_dup os = os_dup os'" "os_read_to_end os = os_read_to_end os'" "os_write_all os = os_write_all os'"
    "os_fsync os = os_fsync os'" "os_fchmod os = os_fchmod os'" "os_process_id os = os_process_id os'"
  using assms by (simp_all add: same_confined_def)

lemma sbind_cong_of_result: "(\<And>a. r = Inr a \<Longrightarrow> f a = g a) \<Longrightarrow> sbind (of_result r) f = sbind (of_result r) g"
  by (cases r) (auto simp: fun_eq_iff of_result_def sbind_def sret_def sfail_def)

lemma sbind_cong_right: "(\<And>a. f a = g a) \<Longrightarrow> sbind m f = sbind m g"
  by presburger

lemma sbind_cong_Done: "(\<And>a s t. m s = (Done a, t) \<Longrightarrow> f a t = g a t) \<Longrightarrow> sbind m f = sbind m g"
  by (auto simp: fun_eq_iff sbind_def split: prod.splits outcome.splits)

lemma same_stat:
  assumes "same_confined os os'" "plain_name n"
  shows "anchored_entry_stat os d n = anchored_entry_stat os' d n"
  using assms by (simp add: anchored_entry_stat_def same_confined_def)

lemma same_component:
  assumes "same_confined os os'" "plain_name n"
  shows "open_component os d n = open_component os' d n" "make_component os d n = make_component os' d n"
    "require_entry os message d n = require_entry os' message d n"
  using assms same_stat [OF assms]
  by (simp_all add: open_component_def make_component_def require_entry_def same_confined_def directory_flags_def)

lemma same_walk:
  assumes "same_confined os os'" "\<forall>n \<in> set names. plain_name n"
  shows "walk_components os create names d = walk_components os' create names d"
    "missing_ancestor os names d = missing_ancestor os' names d"
proof -
  show "walk_components os create names d = walk_components os' create names d"
    using assms(2)
  proof (induction names arbitrary: d)
    case (Cons n names)
    then have "walk_components os create names = walk_components os' create names" by (intro ext) simp
    then show ?case using Cons.prems same_stat [OF assms(1)] same_component [OF assms(1)]
      by (simp cong: if_cong option.case_cong)
  qed simp
  show "missing_ancestor os names d = missing_ancestor os' names d"
    using assms(2)
  proof (induction names arbitrary: d)
    case (Cons n names)
    then have "missing_ancestor os names = missing_ancestor os' names" by (intro ext) simp
    then show ?case using Cons.prems same_stat [OF assms(1)] same_component [OF assms(1)]
      by (simp cong: if_cong option.case_cong)
  qed simp
qed

lemma same_duplicate: "same_confined os os' \<Longrightarrow> duplicate_root os d = duplicate_root os' d"
  by (simp add: duplicate_root_def same_confined_def)

text \<open>The parent that a path opens, with the plain leaf it hands on.\<close>

lemma parent_alone:
  assumes "same_confined os os'"
  shows "open_anchored_parent os root relative create = open_anchored_parent os' root relative create"
proof -
  have "walk_components os create (butlast names) = walk_components os' create (butlast names)"
    if "relative_components relative = Inr names" for names
    by (rule ext, rule same_walk(1) [OF assms]) (use relative_components_plain [OF that] in_set_butlastD in fast)
  then show ?thesis
    unfolding open_anchored_parent_def same_duplicate [OF assms] by (intro sbind_cong_of_result) simp
qed

lemma parent_leaf:
  assumes "open_anchored_parent os root relative create s = (Done (d, leaf), t)"
  shows "plain_name leaf"
proof -
  obtain names where "relative_components relative = Inr names" "names \<noteq> []" "leaf = last names"
    using assms
    by (auto simp: open_anchored_parent_def of_result_def sbind_def sret_def sfail_def split: prod.splits outcome.splits sum.splits if_splits)
  then show ?thesis using relative_components_plain last_in_set by blast
qed

lemma parent_bind:
  assumes "same_confined os os'" "\<And>d leaf. plain_name leaf \<Longrightarrow> f d leaf = f' d leaf"
  shows "sbind (open_anchored_parent os root relative create) (\<lambda>(d, leaf). f d leaf)
    = sbind (open_anchored_parent os' root relative create) (\<lambda>(d, leaf). f' d leaf)"
  unfolding parent_alone [OF assms(1)]
  by (rule sbind_cong_Done) (auto dest!: parent_leaf simp: assms(2))

lemma same_open_file:
  assumes "same_confined os os'"
  shows "open_anchored_file os root relative = open_anchored_file os' root relative"
  unfolding open_anchored_file_def
  by (rule parent_bind [OF assms]) (simp add: same_component [OF assms] same_calls [OF assms])

lemma same_publish:
  assumes "same_confined os os'" "plain_name leaf" "plain_name name"
  shows "publish_write os d leaf name file bytes = publish_write os' d leaf name file bytes"
  using same_stat [OF assms(1,2)] assms(2,3)
  by (simp add: publish_write_def or_unlink_def same_calls [OF assms(1)] cong: sum.case_cong)

lemma same_write_attempts:
  assumes "same_confined os os'" "plain_name leaf"
  shows "write_attempts os d leaf bytes ks last_error = write_attempts os' d leaf bytes ks last_error"
proof (induction ks arbitrary: last_error)
  case (Cons k ks)
  show ?case
    using temp_name_plain [OF assms(2)] same_publish [OF assms(1,2)] Cons.IH
    by (simp add: same_calls [OF assms(1)] Let_def cong: sum.case_cong if_cong)
qed simp

text \<open>
  C11. The anchored file operations are confined. For every operation, path and data, a system that
  answers calls with a path of several components, with dots, with links to follow, or with whole
  paths in any other way makes no difference: no such call is ever made.
\<close>

theorem anchored_calls_confined:
  assumes "same_confined os os'"
  shows "secure_read os root path = secure_read os' root path
    \<and> secure_file_digest os root path = secure_file_digest os' root path
    \<and> secure_write os root path bytes = secure_write os' root path bytes
    \<and> secure_delete os root path = secure_delete os' root path
    \<and> secure_rename os root path target = secure_rename os' root path target
    \<and> secure_chmod os root path mode = secure_chmod os' root path mode
    \<and> validate_anchored_write_path os root path = validate_anchored_write_path os' root path
    \<and> validate_anchored_existing_path os root path = validate_anchored_existing_path os' root path
    \<and> creates_missing_ancestors os root path = creates_missing_ancestors os' root path"
proof (intro conjI)
  show "secure_read os root path = secure_read os' root path"
    "secure_file_digest os root path = secure_file_digest os' root path"
    "secure_chmod os root path mode = secure_chmod os' root path mode"
    by (simp_all add: secure_read_def secure_file_digest_def secure_chmod_def same_open_file [OF assms] same_calls [OF assms]
        cong: sum.case_cong)
  show "secure_write os root path bytes = secure_write os' root path bytes"
    unfolding secure_write_def
    by (rule parent_bind [OF assms]) (simp add: same_stat [OF assms] same_write_attempts [OF assms])
  show "secure_delete os root path = secure_delete os' root path"
    unfolding secure_delete_def
    by (rule parent_bind [OF assms]) (simp add: same_component [OF assms] same_calls [OF assms])
  show "secure_rename os root path target = secure_rename os' root path target"
    unfolding secure_rename_def
    by (rule parent_bind [OF assms], simp only: same_component [OF assms], rule sbind_cong_right, rule parent_bind [OF assms])
      (simp add: same_stat [OF assms] same_calls [OF assms])
  show "validate_anchored_write_path os root path = validate_anchored_write_path os' root path"
    unfolding validate_anchored_write_path_def parent_alone [OF assms]
    by (rule sbind_cong_Done)
      (auto simp: attempt_def same_stat [OF assms] dest!: parent_leaf split: prod.splits outcome.splits sum.splits)
  show "validate_anchored_existing_path os root path = validate_anchored_existing_path os' root path"
    unfolding validate_anchored_existing_path_def
    by (rule parent_bind [OF assms]) (simp add: same_component [OF assms])
  show "creates_missing_ancestors os root path = creates_missing_ancestors os' root path"
    unfolding creates_missing_ancestors_def same_duplicate [OF assms]
    by (rule sbind_cong_of_result, rule sbind_cong_right, rule same_walk(2) [OF assms])
      (blast dest: in_set_butlastD relative_components_plain)
qed

text \<open>A system that behaves differently on every call that is not confined.\<close>

definition trap_os :: "(unit, byte list) os" where
  "trap_os = sample_os
     \<lparr>os_openat := (\<lambda>d n flags m w. if plain_name n \<and> O_NOFOLLOW \<in> set flags then (Inr (), w) else (Inl missing_error, [])),
      os_fstatat := (\<lambda>d n w. if plain_name n then (Inr plain_file, w) else (Inl missing_error, [])),
      os_git := (\<lambda>dir args w. (Inl missing_error, [])), os_canonicalize := (\<lambda>p w. (Inl missing_error, []))\<rparr>"

theorem anchored_calls_confined_witness:
  "same_confined sample_os trap_os \<and> os_openat sample_os () ''..'' [O_RDONLY] 0 [] \<noteq> os_openat trap_os () ''..'' [O_RDONLY] 0 []
   \<and> secure_write sample_os () ''src/a.ax'' [7] = secure_write trap_os () ''src/a.ax'' [7]"
proof -
  have "same_confined sample_os trap_os"
    by (simp add: same_confined_def sample_os_def trap_os_def)
  moreover have "secure_write sample_os () ''src/a.ax'' [7] = secure_write trap_os () ''src/a.ax'' [7]"
    by (rule anchored_calls_confined [OF calculation, THEN conjunct2, THEN conjunct2, THEN conjunct1])
  ultimately show ?thesis by (simp add: sample_os_def trap_os_def plain_name_def)
qed

end
