(* ===== verification/Workspace_State.thy ===== *)
theory Workspace_State
  imports Anchored_Files Rust_Maps
begin

text \<open>
  The durable state of a workspace transaction (\<open>transactional_workspace.rs\<close>): its record,
  the checks on policies and digests, the fingerprints of the work tree, and the state file with
  its compare-and-swap on owner epoch and generation. The JSON encoders and the decoder of the
  state are arguments.
\<close>

section \<open>Data\<close>

record workspace_policy =
  wp_read_paths :: "string list"
  wp_write_paths :: "string list"
  wp_commands :: "string list"
  wp_network :: bool
  wp_sandbox :: bool

definition default_policy :: workspace_policy where
  "default_policy = \<lparr>wp_read_paths = [], wp_write_paths = [], wp_commands = [], wp_network = False, wp_sandbox = False\<rparr>"

record audit_event =
  ae_sequence :: u64
  ae_operation :: string
  ae_subject :: string
  ae_result :: string

datatype transaction_phase = Active | Interrupted | Committed | Aborted

record transaction_state =
  tx_schema_version :: string
  tx_base_sha :: string
  tx_source_checkout :: string
  tx_worktree :: string
  tx_policy :: workspace_policy
  tx_phase :: transaction_phase
  tx_checkpoint_tree :: string
  tx_events :: "audit_event list"
  tx_artifacts :: "string list"
  tx_rollback_result :: "string option"
  tx_checksum :: string
  tx_transaction_id :: string
  tx_task_contract_digest :: string
  tx_policy_digest :: string
  tx_branch :: string
  tx_pending_effect :: "string option"
  tx_workspace_fingerprint :: string
  tx_path_fingerprints :: "(string, string) btree_map"
  tx_unscoped_fingerprint :: string
  tx_source_fingerprint :: string
  tx_owner_epoch :: string
  tx_generation :: u64
  tx_candidate_head :: "string option"

record workspace_codec =
  js_policy :: "workspace_policy \<Rightarrow> (string, byte list) result"
  js_state :: "transaction_state \<Rightarrow> (string, byte list) result"
  js_state_pretty :: "transaction_state \<Rightarrow> (string, byte list) result"
  js_parse_state :: "byte list \<Rightarrow> (string, transaction_state) result"
  js_events :: "audit_event list \<Rightarrow> (string, byte list) result"

definition state_file :: string where "state_file = ''.axiom-transaction.json''"
definition lease_file :: string where "lease_file = ''.axiom-transaction.lock''"
definition audit_schema :: string where "audit_schema = ''axiom.transactional_workspace.v0''"

section \<open>Checks\<close>

definition validate_relative :: "string \<Rightarrow> (string, unit) result" where
  "validate_relative path =
     (if path = '''' \<or> is_absolute path \<or> list_ex (\<lambda>c. \<not> is_normal_part c) (path_components path)
      then Inl ''path must be a normalized relative path without traversal''
      else if path = state_file \<or> path = lease_file \<or> starts_with path ''.git'' \<or> starts_with path ''.codex/policies/''
      then Inl ''protected transaction or policy path''
      else Inr ())"

fun validate_relatives :: "string list \<Rightarrow> (string, unit) result" where
  "validate_relatives [] = Inr ()"
| "validate_relatives (p # ps) = rbind (validate_relative p) (\<lambda>_. validate_relatives ps)"

definition validate_policy :: "workspace_policy \<Rightarrow> (string, unit) result" where
  "validate_policy policy =
     rbind (validate_relatives (wp_read_paths policy @ wp_write_paths policy)) (\<lambda>_.
       if list_ex (\<lambda>command. str_contains command ''/'' \<or> trim command = '''') (wp_commands policy)
       then Inl ''commands must be canonical program names'' else Inr ())"

definition is_sha :: "string \<Rightarrow> bool" where
  "is_sha s \<longleftrightarrow> length s = 40 \<and> list_all is_lower_hex s"

definition is_digest :: "string \<Rightarrow> bool" where
  "is_digest s \<longleftrightarrow> length s = 71 \<and> starts_with s ''sha256:'' \<and> list_all is_lower_hex (drop 7 s)"

definition validate_commit_sha :: "string \<Rightarrow> (string, unit) result" where
  "validate_commit_sha sha =
     (if is_sha sha then Inr () else Inl ''base SHA must be a full 40-character hexadecimal commit id'')"

definition validate_digest :: "string \<Rightarrow> (string, unit) result" where
  "validate_digest d = (if is_digest d then Inr () else Inl ''digest must use sha256:<64 lowercase hex> form'')"

definition validate_owner_epoch :: "string \<Rightarrow> (string, unit) result" where
  "validate_owner_epoch epoch =
     (if epoch = '''' \<or> 160 < length epoch \<or> contains_whitespace epoch then Inl ''transaction owner epoch is invalid'' else Inr ())"

definition new_owner_epoch :: "('d, 'w) os \<Rightarrow> ('w, string) io" where
  "new_owner_epoch os =
     sbind (sys (os_epoch_nanos os)) (\<lambda>nanos s.
       (Done (''owner-'' @ show_nat (os_process_id os) @ ''-'' @ show_nat nanos @ ''-'' @ show_nat (unat (epoch_counter s))),
        s\<lparr>epoch_counter := epoch_counter s + 1\<rparr>))"

definition redact :: "string \<Rightarrow> string" where
  "redact value =
     (let lower = to_ascii_lowercase value in
      if starts_with lower ''secret://'' \<or> starts_with lower ''secret-ref:''
         \<or> list_ex (str_contains lower) [''credential='', ''token='', ''password='', ''authorization:'',
             ''github_'' @ ''pat_'', ''gh'' @ ''p_'', ''bearer '']
      then ''[secret-reference-redacted]'' else value)"

definition optional_digest :: "string option \<Rightarrow> string" where
  "optional_digest d = (case d of None \<Rightarrow> ''-'' | Some v \<Rightarrow> v)"

definition parse_optional_digest :: "string option \<Rightarrow> string option" where
  "parse_optional_digest v = (case v of None \<Rightarrow> None | Some d \<Rightarrow> if d \<noteq> ''-'' then Some d else None)"

section \<open>Git\<close>

definition git :: "('d, 'w) os \<Rightarrow> string \<Rightarrow> string list \<Rightarrow> ('w, string) io" where
  "git os dir args =
     sbind (sys_or (labelled ''cannot execute git'') (os_git os dir args)) (\<lambda>output.
       if \<not> co_success output then sfail (''git operation failed: '' @ trim (from_utf8_lossy (co_stderr output)))
       else (case from_utf8 (co_stdout output) of
           None \<Rightarrow> sfail (''git output is not UTF-8: '' @ utf8_error 0 (co_stdout output))
         | Some text \<Rightarrow> sret text))"

section \<open>Fingerprints\<close>

definition nul_join :: "string list \<Rightarrow> string" where
  "nul_join parts = join_with [CHR 0x00] parts"

definition policy_paths :: "workspace_policy \<Rightarrow> string list" where
  "policy_paths policy = bset_of (wp_read_paths policy @ wp_write_paths policy)"

definition paths_overlap :: "string \<Rightarrow> string \<Rightarrow> bool" where
  "paths_overlap left right \<longleftrightarrow>
     left = right \<or> starts_with left (right @ ''/'') \<or> starts_with right (left @ ''/'')"

definition path_is_within_scope :: "string \<Rightarrow> string \<Rightarrow> bool" where
  "path_is_within_scope path scope \<longleftrightarrow> same_path path scope \<or> path_starts_with path scope"

definition append_entry_row :: "('d, 'w) os \<Rightarrow> string \<Rightarrow> string \<Rightarrow> string list \<Rightarrow> ('w, string list) io" where
  "append_entry_row os root child rows =
     sbind (of_result (path_strip_prefix child root)) (\<lambda>relative.
     sbind (sys_or ie_text (os_symlink_metadata os child)) (\<lambda>md.
       let mode = show_octal (md_mode md) in
       (case md_type md of
          LinkFile \<Rightarrow>
            sbind (sys_or ie_text (os_read_link os child)) (\<lambda>target.
              sret (rows @ [nul_join [''L'', normalized relative, mode, normalized target]]))
        | DirFile \<Rightarrow> sret (rows @ [nul_join [''D'', normalized relative, mode]])
        | RegularFile \<Rightarrow>
            sbind (sys_or ie_text (os_read_file os child)) (\<lambda>bytes.
              sret (rows @ [nul_join [''F'', normalized relative, mode, sha256_digest bytes]]))
        | SpecialFile \<Rightarrow> sfail (''unsupported filesystem object '' @ display_path child))))"

fun collect_results :: "(io_error, 'a) result list \<Rightarrow> (string, 'a list) result" where
  "collect_results [] = Inr []"
| "collect_results (Inl e # rs) = Inl (ie_text e)"
| "collect_results (Inr a # rs) = rbind (collect_results rs) (\<lambda>as. Inr (a # as))"

text \<open>The walk over a directory; the bound is that of the nesting of directories.\<close>

function (sequential)
  collect_tree_rows :: "nat \<Rightarrow> ('d, 'w) os \<Rightarrow> string \<Rightarrow> (string \<Rightarrow> bool) \<Rightarrow> string \<Rightarrow> string list \<Rightarrow> ('w, string list) io"
  and collect_entries :: "nat \<Rightarrow> ('d, 'w) os \<Rightarrow> string \<Rightarrow> (string \<Rightarrow> bool) \<Rightarrow> string \<Rightarrow> string list \<Rightarrow> string list \<Rightarrow> ('w, string list) io"
  where
  "collect_tree_rows 0 os root skip path rows = (\<lambda>s. (OutOfFuel, s))"
| "collect_tree_rows (Suc n) os root skip path rows =
     sbind (sys_or (labelled (''cannot inspect '' @ display_path path)) (os_read_dir os path)) (\<lambda>entries.
     sbind (of_result (collect_results entries)) (\<lambda>names.
       collect_entries n os root skip path (sort names) rows))"
| "collect_entries n os root skip path [] rows = sret rows"
| "collect_entries n os root skip path (name # rest) rows =
     (let child = path_join path name in
      sbind (of_result (path_strip_prefix child root)) (\<lambda>relative.
        if skip relative then collect_entries n os root skip path rest rows
        else sbind (append_entry_row os root child rows) (\<lambda>rows.
          sbind (sys_or ie_text (os_symlink_metadata os child)) (\<lambda>md.
            if md_type md = DirFile
            then sbind (collect_tree_rows n os root skip child rows) (\<lambda>rows.
              collect_entries n os root skip path rest rows)
            else collect_entries n os root skip path rest rows))))"
  by pat_completeness auto

termination
  by (relation "inv_image (less_than <*lex*> less_than <*lex*> less_than)
      (\<lambda>x. case x of Inl (n, _) \<Rightarrow> (n, 0, 0) | Inr (n, os, root, skip, path, names, rows) \<Rightarrow> (n, 1, length names))") auto

definition collect_entry_rows :: "('d, 'w) os \<Rightarrow> string \<Rightarrow> string \<Rightarrow> string list \<Rightarrow> ('w, string list) io" where
  "collect_entry_rows os root path rows =
     sbind (append_entry_row os root path rows) (\<lambda>rows.
     sbind (sys_or ie_text (os_symlink_metadata os path)) (\<lambda>md.
       if md_type md = DirFile then collect_tree_rows (os_walk_bound os) os root (\<lambda>_. False) path rows else sret rows))"

definition rows_digest :: "string list \<Rightarrow> string" where
  "rows_digest rows = sha256_digest (str_bytes (join_with [CHR 0x0A] rows))"

definition path_fingerprint :: "('d, 'w) os \<Rightarrow> string \<Rightarrow> string \<Rightarrow> ('w, string) io" where
  "path_fingerprint os root relative =
     (let target = path_join root relative in
      sbind (sys (os_symlink_metadata os target)) (\<lambda>r.
        sbind (case r of
            Inr _ \<Rightarrow> collect_entry_rows os root target []
          | Inl e \<Rightarrow>
              if ie_kind e = NotFound then sret [nul_join [''M'', relative]]
              else sfail (labelled (''cannot inspect '' @ display_path target) e)) (\<lambda>rows.
          sret (rows_digest rows))))"

fun fingerprint_paths :: "('d, 'w) os \<Rightarrow> string \<Rightarrow> string list \<Rightarrow> (string, string) btree_map \<Rightarrow> ('w, (string, string) btree_map) io" where
  "fingerprint_paths os root [] cache = sret cache"
| "fingerprint_paths os root (p # ps) cache =
     sbind (path_fingerprint os root p) (\<lambda>f. fingerprint_paths os root ps (bt_insert p f cache))"

definition authorized_path_fingerprint_cache ::
  "('d, 'w) os \<Rightarrow> string \<Rightarrow> workspace_policy \<Rightarrow> ('w, (string, string) btree_map) io" where
  "authorized_path_fingerprint_cache os root policy = fingerprint_paths os root (policy_paths policy) []"

definition policy_scoped_fingerprint_from_head ::
  "workspace_codec \<Rightarrow> string \<Rightarrow> workspace_policy \<Rightarrow> (string, string) btree_map \<Rightarrow> (string, string) result" where
  "policy_scoped_fingerprint_from_head js head policy cache =
     rbind (js_policy js policy) (\<lambda>policy_bytes.
       Inr (sha256_digest (str_bytes (nul_join [head, sha256_digest policy_bytes,
         join_with [CHR 0x0A] (map (\<lambda>(path, fingerprint). nul_join [path, fingerprint]) cache)]))))"

definition policy_scoped_fingerprint ::
  "('d, 'w) os \<Rightarrow> workspace_codec \<Rightarrow> string \<Rightarrow> workspace_policy \<Rightarrow> (string, string) btree_map \<Rightarrow> ('w, string) io" where
  "policy_scoped_fingerprint os js root policy cache =
     sbind (git os root [''rev-parse'', ''HEAD'']) (\<lambda>head.
       of_result (policy_scoped_fingerprint_from_head js (trim head) policy cache))"

definition tool_path :: "string \<Rightarrow> bool" where
  "tool_path relative \<longleftrightarrow> same_path relative ''.git'' \<or> same_path relative state_file \<or> same_path relative lease_file"

definition unscoped_workspace_fingerprint :: "('d, 'w) os \<Rightarrow> string \<Rightarrow> workspace_policy \<Rightarrow> ('w, string) io" where
  "unscoped_workspace_fingerprint os root policy =
     sbind (collect_tree_rows (os_walk_bound os) os root
         (\<lambda>relative. tool_path relative \<or> list_ex (path_is_within_scope relative) (policy_paths policy)) root []) (\<lambda>rows.
       sret (rows_digest rows))"

definition tree_fingerprint :: "('d, 'w) os \<Rightarrow> string \<Rightarrow> ('w, string) io" where
  "tree_fingerprint os root =
     sbind (collect_tree_rows (os_walk_bound os) os root tool_path root []) (\<lambda>rows. sret (rows_digest rows))"

definition source_fingerprint :: "('d, 'w) os \<Rightarrow> string \<Rightarrow> ('w, string) io" where
  "source_fingerprint os root =
     sbind (git os root [''rev-parse'', ''HEAD'']) (\<lambda>head.
     sbind (tree_fingerprint os root) (\<lambda>tree.
       sret (sha256_digest (str_bytes (nul_join [trim head, tree])))))"

definition workspace_matches_state :: "('d, 'w) os \<Rightarrow> workspace_codec \<Rightarrow> string \<Rightarrow> transaction_state \<Rightarrow> ('w, bool) io" where
  "workspace_matches_state os js root state =
     sbind (authorized_path_fingerprint_cache os root (tx_policy state)) (\<lambda>current_cache.
     sbind (policy_scoped_fingerprint os js root (tx_policy state) current_cache) (\<lambda>current_scoped.
     sbind (unscoped_workspace_fingerprint os root (tx_policy state)) (\<lambda>current_unscoped.
       sret (current_cache = tx_path_fingerprints state \<and> current_scoped = tx_workspace_fingerprint state
         \<and> current_unscoped = tx_unscoped_fingerprint state))))"

section \<open>The lease\<close>

text \<open>The lock is retried until a deadline; the bound on the retries stands for it.\<close>

fun lock_lease :: "nat \<Rightarrow> ('d, 'w) os \<Rightarrow> 'd \<Rightarrow> ('w, (io_error, unit) result) io" where
  "lock_lease 0 os file = (\<lambda>s. (OutOfFuel, s))"
| "lock_lease (Suc n) os file =
     sbind (sys (os_flock os file)) (\<lambda>r.
       case r of
         Inr _ \<Rightarrow> sret (Inr ())
       | Inl e \<Rightarrow>
           if ie_kind e \<noteq> WouldBlock then sret (Inl e)
           else sbind (sys (os_past_deadline os)) (\<lambda>late. if late then sret (Inl e) else lock_lease n os file))"

definition open_lease :: "('d, 'w) os \<Rightarrow> 'd \<Rightarrow> ('w, 'd) io" where
  "open_lease os root =
     sbind (sys_or ie_text (os_openat os root lease_file [O_RDWR, O_CREAT, O_CLOEXEC, O_NOFOLLOW, O_NONBLOCK] 0x180)) (\<lambda>file.
     sbind (sys_or ie_text (os_fstat os file)) (\<lambda>st.
       if file_kind st \<noteq> s_ifreg \<or> st_nlink st \<noteq> 1 then sfail ''transaction lease must be a single-link regular file''
       else sret file))"

definition acquire_lease :: "('d, 'w) os \<Rightarrow> string \<Rightarrow> 'd \<Rightarrow> ('w, 'd) io" where
  "acquire_lease os parent root =
     sbind (sys_or (labelled ''cannot create transaction lease parent'') (os_create_dir_all os parent)) (\<lambda>_.
     sbind (attempt (open_lease os root)) (\<lambda>opened.
       case opened of
         Inl e \<Rightarrow> sfail (''cannot open transaction lease: '' @ e)
       | Inr file \<Rightarrow>
           sbind (lock_lease (os_walk_bound os) os file) (\<lambda>r.
             case r of
               Inl e \<Rightarrow> sfail (labelled ''transaction lease unavailable'' e)
             | Inr _ \<Rightarrow> sret file)))"

section \<open>The state file\<close>

definition state_checksum :: "workspace_codec \<Rightarrow> transaction_state \<Rightarrow> (string, string) result" where
  "state_checksum js state =
     rbind (js_state js (state\<lparr>tx_checksum := ''''\<rparr>)) (\<lambda>bytes. Inr (sha256_digest bytes))"

text \<open>The durable state must still be the one this owner wrote last.\<close>

definition compare_durable ::
  "('d, 'w) os \<Rightarrow> workspace_codec \<Rightarrow> transaction_state \<Rightarrow> string \<Rightarrow> u64 \<Rightarrow> 'd \<Rightarrow> ('w, unit) io" where
  "compare_durable os js state expected_owner expected_generation root =
     sbind (attempt (secure_read os root state_file)) (\<lambda>current.
       case current of
         Inl e \<Rightarrow> sfail (''cannot read durable transaction state for compare-and-swap: '' @ e)
       | Inr bytes \<Rightarrow>
           (case js_parse_state js bytes of
              Inl e \<Rightarrow> sfail (''invalid durable transaction state for compare-and-swap: '' @ e)
            | Inr durable \<Rightarrow>
                sbind (of_result (state_checksum js durable)) (\<lambda>durable_checksum.
                  if tx_checksum durable \<noteq> durable_checksum
                  then sfail ''transaction state checksum mismatch during compare-and-swap''
                  else if tx_transaction_id durable \<noteq> tx_transaction_id state \<or> tx_owner_epoch durable \<noteq> expected_owner
                    \<or> tx_generation durable \<noteq> expected_generation
                  then sfail ''transaction state owner/generation conflict; refusing to merge stale state''
                  else sret ())))"

definition next_generation :: "(string \<times> u64) option \<Rightarrow> (string, u64) result" where
  "next_generation expected =
     (case expected of
        None \<Rightarrow> Inr 1
      | Some (owner, generation) \<Rightarrow>
          (case word_checked_add generation 1 of
             None \<Rightarrow> Inl ''transaction state generation overflow''
           | Some g \<Rightarrow> Inr g))"

definition persist_state ::
  "('d, 'w) os \<Rightarrow> workspace_codec \<Rightarrow> string \<Rightarrow> transaction_state \<Rightarrow> (string \<times> u64) option \<Rightarrow> 'd \<Rightarrow> ('w, transaction_state) io" where
  "persist_state os js path state expected root =
     sbind (case expected of
         Some (owner, generation) \<Rightarrow> compare_durable os js state owner generation root
       | None \<Rightarrow> sbind (sys (os_exists os path)) (\<lambda>there.
           if there then sfail ''transaction state appeared during creation'' else sret ())) (\<lambda>_.
     sbind (of_result (next_generation expected)) (\<lambda>generation.
     sbind (of_result (state_checksum js (state\<lparr>tx_generation := generation, tx_checksum := ''''\<rparr>))) (\<lambda>checksum.
       let next = state\<lparr>tx_generation := generation, tx_checksum := checksum\<rparr> in
       sbind (of_result (js_state_pretty js next)) (\<lambda>bytes.
       sbind (secure_write os root state_file bytes) (\<lambda>_. sret next)))))"

end
