(* ===== verification/Transactional_Workspace.thy ===== *)
theory Transactional_Workspace
  imports Workspace_State
begin

text \<open>
  The operations of \<open>TransactionalWorkspace\<close>: creation and recovery, the phases, reads and the
  four file effects with their journal, the proof of a delivered candidate, abort, local commit
  and the audit record. A method maps the object and the process to an outcome and what it leaves
  of both, so that a failure keeps the mutations made before it.
\<close>

unbundle bit_operations_syntax

section \<open>The object\<close>

record 'd workspace =
  ws_state_path :: string
  ws_state :: transaction_state
  ws_root_dir :: 'd
  ws_lease :: 'd

type_synonym ('d, 'w, 'a) ws_m = "('d workspace \<times> 'w session, string, 'a) rust_m"

definition on_io :: "('w, 'a) io \<Rightarrow> ('d, 'w, 'a) ws_m" where
  "on_io m s = (case m (snd s) of (r, p) \<Rightarrow> (r, (fst s, p)))"

definition the_state :: "(transaction_state \<Rightarrow> 'a) \<Rightarrow> ('d, 'w, 'a) ws_m" where
  "the_state f = sget (\<lambda>s. f (ws_state (fst s)))"

definition the_root :: "('d, 'w, 'd) ws_m" where
  "the_root = sget (\<lambda>s. ws_root_dir (fst s))"

definition set_state :: "(transaction_state \<Rightarrow> transaction_state) \<Rightarrow> ('d, 'w, unit) ws_m" where
  "set_state f = smodify (\<lambda>s. ((fst s)\<lparr>ws_state := f (ws_state (fst s))\<rparr>, snd s))"

section \<open>The journal\<close>

definition persist :: "('d, 'w) os \<Rightarrow> workspace_codec \<Rightarrow> ('d, 'w, unit) ws_m" where
  "persist os js =
     sbind (sget (\<lambda>s. fst s)) (\<lambda>ws.
       let expected_owner = tx_owner_epoch (ws_state ws); expected_generation = tx_generation (ws_state ws) in
       sbind (if expected_generation = 0
           then sbind (on_io (sys (os_exists os (ws_state_path ws)))) (\<lambda>there. sret (\<not> there))
           else sret False) (\<lambda>fresh.
       sbind (on_io (persist_state os js (ws_state_path ws) (ws_state ws)
           (if fresh then None else Some (expected_owner, expected_generation)) (ws_root_dir ws))) (\<lambda>next.
         set_state (\<lambda>_. next))))"

definition push_event :: "string \<Rightarrow> string \<Rightarrow> string \<Rightarrow> transaction_state \<Rightarrow> transaction_state" where
  "push_event operation subject result st =
     st\<lparr>tx_events := tx_events st @ [\<lparr>ae_sequence = of_nat (length (tx_events st)), ae_operation = operation,
       ae_subject = redact subject, ae_result = redact result\<rparr>]\<rparr>"

definition record_event :: "('d, 'w) os \<Rightarrow> workspace_codec \<Rightarrow> string \<Rightarrow> string \<Rightarrow> string \<Rightarrow> ('d, 'w, unit) ws_m" where
  "record_event os js operation subject result =
     sbind (set_state (push_event operation subject result)) (\<lambda>_. persist os js)"

definition require_active :: "('d, 'w, unit) ws_m" where
  "require_active = sbind (the_state tx_phase) (\<lambda>p. if p = Active then sret () else sfail ''transaction is not active'')"

definition begin_effect :: "('d, 'w) os \<Rightarrow> workspace_codec \<Rightarrow> string \<Rightarrow> ('d, 'w, unit) ws_m" where
  "begin_effect os js effect =
     sbind (the_state tx_pending_effect) (\<lambda>pending.
       if pending \<noteq> None then sfail ''another filesystem effect is pending''
       else sbind (set_state (\<lambda>st. st\<lparr>tx_pending_effect := Some effect\<rparr>)) (\<lambda>_. persist os js))"

text \<open>The cache of path fingerprints is updated path by path, so that a failure keeps a prefix of
  the update.\<close>

fun update_path_fingerprints :: "('d, 'w) os \<Rightarrow> string \<Rightarrow> string list \<Rightarrow> string list \<Rightarrow> ('d, 'w, unit) ws_m" where
  "update_path_fingerprints os root changed [] = sret ()"
| "update_path_fingerprints os root changed (p # ps) =
     sbind (the_state tx_path_fingerprints) (\<lambda>cache.
       if map_of cache p = None \<or> list_ex (paths_overlap p) changed
       then sbind (on_io (path_fingerprint os root p)) (\<lambda>f.
         sbind (set_state (\<lambda>st. st\<lparr>tx_path_fingerprints := bt_insert p f (tx_path_fingerprints st)\<rparr>)) (\<lambda>_.
           update_path_fingerprints os root changed ps))
       else update_path_fingerprints os root changed ps)"

definition finish_effect ::
  "('d, 'w) os \<Rightarrow> workspace_codec \<Rightarrow> string \<Rightarrow> string \<Rightarrow> string \<Rightarrow> string list \<Rightarrow> bool \<Rightarrow> ('d, 'w, unit) ws_m" where
  "finish_effect os js operation subject result changed structure_changed =
     sbind (record_event os js operation subject result) (\<lambda>_.
     sbind (set_state (\<lambda>st. st\<lparr>tx_pending_effect := None\<rparr>)) (\<lambda>_.
     sbind (the_state (\<lambda>st. st)) (\<lambda>st.
     sbind (update_path_fingerprints os (tx_worktree st) changed (policy_paths (tx_policy st))) (\<lambda>_.
     sbind (on_io (git os (tx_worktree st) [''rev-parse'', ''HEAD''])) (\<lambda>head.
     sbind (the_state tx_path_fingerprints) (\<lambda>cache.
     sbind (of_result (policy_scoped_fingerprint_from_head js (trim head) (tx_policy st) cache)) (\<lambda>scoped.
     sbind (set_state (\<lambda>st. st\<lparr>tx_workspace_fingerprint := scoped\<rparr>)) (\<lambda>_.
     sbind (if structure_changed
         then sbind (on_io (unscoped_workspace_fingerprint os (tx_worktree st) (tx_policy st))) (\<lambda>unscoped.
           set_state (\<lambda>st. st\<lparr>tx_unscoped_fingerprint := unscoped\<rparr>))
         else sret ()) (\<lambda>_.
       persist os js)))))))))"

section \<open>Creation and recovery\<close>

definition git_commit_of :: "('d, 'w) os \<Rightarrow> string \<Rightarrow> string \<Rightarrow> ('w, string) io" where
  "git_commit_of os dir sha = git os dir [''rev-parse'', ''--verify'', sha @ ''^{commit}'']"

definition add_worktree :: "('d, 'w) os \<Rightarrow> string \<Rightarrow> string \<Rightarrow> string \<Rightarrow> string \<Rightarrow> ('w, unit) io" where
  "add_worktree os source worktree_text branch exact_sha =
     (if branch = ''detached''
      then sbind (git os source [''worktree'', ''add'', ''--detach'', worktree_text, exact_sha]) (\<lambda>_. sret ())
      else if starts_with branch ''-'' \<or> str_contains branch ''..'' \<or> contains_whitespace branch
      then sfail ''invalid transaction-owned branch name''
      else sbind (git os source [''worktree'', ''add'', ''-b'', branch, worktree_text, exact_sha]) (\<lambda>_. sret ()))"

definition transaction_name :: "string \<Rightarrow> string \<Rightarrow> string \<Rightarrow> string \<Rightarrow> string" where
  "transaction_name exact_sha task_contract_digest policy_digest branch =
     ''txn-'' @ take 16 (drop 7 (sha256_digest (str_bytes (nul_join [exact_sha, task_contract_digest, policy_digest, branch]))))"

text \<open>What \<open>create_for_task\<close> checks before it touches the repository.\<close>

definition create_checks :: "string \<Rightarrow> workspace_policy \<Rightarrow> string \<Rightarrow> string \<Rightarrow> string \<Rightarrow> (string, unit) result" where
  "create_checks base_sha policy task_contract_digest policy_digest branch =
     rbind (validate_commit_sha base_sha) (\<lambda>_.
     rbind (validate_policy policy) (\<lambda>_.
     rbind (validate_digest task_contract_digest) (\<lambda>_.
     rbind (validate_digest policy_digest) (\<lambda>_.
       if trim branch = '''' then Inl ''branch must not be empty'' else Inr ()))))"

text \<open>Everything from the new work tree to the object, before its first event.\<close>

definition open_transaction ::
  "('d, 'w) os \<Rightarrow> workspace_codec \<Rightarrow> string \<Rightarrow> string \<Rightarrow> string \<Rightarrow> workspace_policy \<Rightarrow> string \<Rightarrow> string \<Rightarrow> string \<Rightarrow>
    ('w, 'd workspace) io" where
  "open_transaction os js source worktree exact_sha policy task_contract_digest policy_digest branch =
     sbind (sys_or (labelled ''cannot canonicalize transaction worktree'') (os_canonicalize os worktree)) (\<lambda>root.
     sbind (open_root_directory os root) (\<lambda>root_dir.
     sbind (acquire_lease os root root_dir) (\<lambda>lease.
     sbind (git os root [''rev-parse'', ''HEAD^{tree}'']) (\<lambda>tree.
     sbind (authorized_path_fingerprint_cache os root policy) (\<lambda>cache.
     sbind (policy_scoped_fingerprint os js root policy cache) (\<lambda>scoped.
     sbind (unscoped_workspace_fingerprint os root policy) (\<lambda>unscoped.
     sbind (source_fingerprint os source) (\<lambda>source_print.
     sbind (new_owner_epoch os) (\<lambda>epoch.
       sret \<lparr>ws_state_path = path_join root state_file,
         ws_state = \<lparr>tx_schema_version = audit_schema, tx_base_sha = exact_sha, tx_source_checkout = normalized source,
           tx_worktree = normalized root, tx_policy = policy, tx_phase = Active, tx_checkpoint_tree = trim tree,
           tx_events = [], tx_artifacts = [], tx_rollback_result = None, tx_checksum = '''',
           tx_transaction_id = transaction_name exact_sha task_contract_digest policy_digest branch,
           tx_task_contract_digest = task_contract_digest, tx_policy_digest = policy_digest, tx_branch = branch,
           tx_pending_effect = None, tx_workspace_fingerprint = scoped, tx_path_fingerprints = cache,
           tx_unscoped_fingerprint = unscoped, tx_source_fingerprint = source_print, tx_owner_epoch = epoch,
           tx_generation = 0, tx_candidate_head = None\<rparr>,
         ws_root_dir = root_dir, ws_lease = lease\<rparr>)))))))))"

text \<open>Run a method on a fresh object and hand the object out.\<close>

definition with_object :: "'d workspace \<Rightarrow> ('d, 'w, unit) ws_m \<Rightarrow> ('w, 'd workspace) io" where
  "with_object ws m s =
     (case m (ws, s) of
        (Done _, (ws', s')) \<Rightarrow> (Done ws', s')
      | (Fail e, (ws', s')) \<Rightarrow> (Fail e, s')
      | (Panicked, (ws', s')) \<Rightarrow> (Panicked, s')
      | (OutOfFuel, (ws', s')) \<Rightarrow> (OutOfFuel, s'))"

definition create_for_task ::
  "('d, 'w) os \<Rightarrow> workspace_codec \<Rightarrow> string \<Rightarrow> string \<Rightarrow> string \<Rightarrow> workspace_policy \<Rightarrow> string \<Rightarrow> string \<Rightarrow> string \<Rightarrow>
    ('w, 'd workspace) io" where
  "create_for_task os js source_checkout worktree base_sha policy task_contract_digest policy_digest branch =
     sbind (of_result (create_checks base_sha policy task_contract_digest policy_digest branch)) (\<lambda>_.
     sbind (sys_or (labelled ''cannot canonicalize source checkout'') (os_canonicalize os source_checkout)) (\<lambda>source.
       if \<not> is_absolute worktree \<or> path_starts_with worktree source
       then sfail ''transaction worktree must be an absolute sibling outside the source checkout''
       else sbind (sys (os_exists os worktree)) (\<lambda>there.
       if there then sfail ''transaction worktree already exists''
       else sbind (git_commit_of os source base_sha) (\<lambda>verified.
       if trim verified \<noteq> base_sha then sfail ''base SHA must be the exact full commit SHA''
       else (case from_utf8 (str_bytes worktree) of
           None \<Rightarrow> sfail ''worktree path is not UTF-8''
         | Some worktree_text \<Rightarrow>
             sbind (add_worktree os source worktree_text branch (trim verified)) (\<lambda>_.
             sbind (open_transaction os js source worktree (trim verified) policy task_contract_digest policy_digest branch) (\<lambda>ws.
               with_object ws (record_event os js ''checkpoint'' (trim verified) ''created'')))))))) "

definition create ::
  "('d, 'w) os \<Rightarrow> workspace_codec \<Rightarrow> string \<Rightarrow> string \<Rightarrow> string \<Rightarrow> workspace_policy \<Rightarrow> ('w, 'd workspace) io" where
  "create os js source_checkout worktree base_sha policy =
     sbind (of_result (js_policy js policy)) (\<lambda>policy_bytes.
       create_for_task os js source_checkout worktree base_sha policy
         (sha256_digest (str_bytes ''unspecified-task'')) (sha256_digest policy_bytes) ''detached'')"

definition sequences_ok :: "audit_event list \<Rightarrow> bool" where
  "sequences_ok events \<longleftrightarrow> list_all (\<lambda>(index, event). ae_sequence event = of_nat index) (enumerate 0 events)"

text \<open>The checks of \<open>recover\<close> on the state it has read, given the head of the work tree.\<close>

definition recover_checks :: "transaction_state \<Rightarrow> string \<Rightarrow> (string, unit) result" where
  "recover_checks state observed_head =
     (if observed_head \<noteq> tx_base_sha state \<and> tx_phase state \<noteq> Committed \<and> tx_candidate_head state \<noteq> Some observed_head
      then Inl ''transaction HEAD no longer matches its exact base SHA''
      else rbind (case tx_candidate_head state of None \<Rightarrow> Inr () | Some head \<Rightarrow> validate_commit_sha head) (\<lambda>_.
        if \<not> sequences_ok (tx_events state) then Inl ''transaction journal sequence is corrupt'' else Inr ()))"

text \<open>Recovery from the state that was read: the checks, the comparison with the work tree, and the
  claim of a new owner epoch.\<close>

definition recover_state ::
  "('d, 'w) os \<Rightarrow> workspace_codec \<Rightarrow> string \<Rightarrow> 'd \<Rightarrow> 'd \<Rightarrow> transaction_state \<Rightarrow> ('w, 'd workspace) io" where
  "recover_state os js root root_dir lease state =
     sbind (of_result (state_checksum js state)) (\<lambda>expected.
     if tx_checksum state \<noteq> expected then sfail ''transaction state checksum mismatch''
     else if tx_worktree state \<noteq> normalized root then sfail ''transaction state belongs to another worktree''
     else sbind (of_result (validate_owner_epoch (tx_owner_epoch state))) (\<lambda>_.
     sbind (git os root [''rev-parse'', ''HEAD'']) (\<lambda>head.
     sbind (of_result (recover_checks state (trim head))) (\<lambda>_.
     sbind (if tx_pending_effect state = None then workspace_matches_state os js root state else sret True) (\<lambda>matches.
     if \<not> matches then sfail ''transaction worktree does not match its durable journal''
     else sbind (new_owner_epoch os) (\<lambda>epoch.
     sbind (persist_state os js (path_join root state_file) (state\<lparr>tx_owner_epoch := epoch\<rparr>)
         (Some (tx_owner_epoch state, tx_generation state)) root_dir) (\<lambda>saved.
       sret \<lparr>ws_state_path = path_join root state_file, ws_state = saved, ws_root_dir = root_dir, ws_lease = lease\<rparr>)))))))"

definition recover :: "('d, 'w) os \<Rightarrow> workspace_codec \<Rightarrow> string \<Rightarrow> ('w, 'd workspace) io" where
  "recover os js worktree =
     sbind (sys_or (labelled ''cannot canonicalize worktree'') (os_canonicalize os worktree)) (\<lambda>root.
     sbind (open_root_directory os root) (\<lambda>root_dir.
     sbind (acquire_lease os root root_dir) (\<lambda>lease.
     sbind (attempt (secure_read os root_dir state_file)) (\<lambda>current.
       case current of
         Inl e \<Rightarrow> sfail (''cannot read transaction state: '' @ e)
       | Inr bytes \<Rightarrow>
           (case js_parse_state js bytes of
              Inl e \<Rightarrow> sfail (''invalid transaction state: '' @ e)
            | Inr state \<Rightarrow> recover_state os js root root_dir lease state)))))"

section \<open>Phases\<close>

definition mark_interrupted :: "('d, 'w) os \<Rightarrow> workspace_codec \<Rightarrow> ('d, 'w, unit) ws_m" where
  "mark_interrupted os js =
     sbind require_active (\<lambda>_.
     sbind (set_state (\<lambda>st. st\<lparr>tx_phase := Interrupted\<rparr>)) (\<lambda>_.
       record_event os js ''lifecycle'' ''transaction'' ''interrupted''))"

definition resume :: "('d, 'w) os \<Rightarrow> workspace_codec \<Rightarrow> ('d, 'w, unit) ws_m" where
  "resume os js =
     sbind (the_state (\<lambda>st. st)) (\<lambda>st.
       if tx_phase st \<noteq> Interrupted then sfail ''only an interrupted transaction may be resumed''
       else if tx_pending_effect st \<noteq> None
       then sfail ''an interrupted filesystem effect is ambiguous; rollback is required''
       else sbind (on_io (workspace_matches_state os js (tx_worktree st) st)) (\<lambda>matches.
         if \<not> matches then sfail ''transaction worktree changed after its last durable event''
         else sbind (set_state (\<lambda>st. st\<lparr>tx_phase := Active\<rparr>)) (\<lambda>_.
           record_event os js ''lifecycle'' ''transaction'' ''resumed'')))"

definition commit_local :: "('d, 'w) os \<Rightarrow> workspace_codec \<Rightarrow> ('d, 'w, unit) ws_m" where
  "commit_local os js =
     sbind require_active (\<lambda>_.
     sbind (record_event os js ''checkpoint'' ''delivery'' ''before_local_commit'') (\<lambda>_.
     sbind (set_state (\<lambda>st. st\<lparr>tx_phase := Committed\<rparr>)) (\<lambda>_.
       record_event os js ''lifecycle'' ''transaction'' ''committed'')))"

definition refresh_fingerprints :: "('d, 'w) os \<Rightarrow> workspace_codec \<Rightarrow> string \<Rightarrow> ('d, 'w, unit) ws_m" where
  "refresh_fingerprints os js root =
     sbind (the_state tx_policy) (\<lambda>policy.
     sbind (on_io (authorized_path_fingerprint_cache os root policy)) (\<lambda>cache.
     sbind (set_state (\<lambda>st. st\<lparr>tx_path_fingerprints := cache\<rparr>)) (\<lambda>_.
     sbind (on_io (policy_scoped_fingerprint os js root policy cache)) (\<lambda>scoped.
       set_state (\<lambda>st. st\<lparr>tx_workspace_fingerprint := scoped\<rparr>)))))"

definition abort :: "('d, 'w) os \<Rightarrow> workspace_codec \<Rightarrow> ('d, 'w, unit) ws_m" where
  "abort os js =
     sbind (the_state (\<lambda>st. st)) (\<lambda>st.
       if tx_phase st \<in> {Committed, Aborted} then sfail ''transaction is already terminal''
       else sbind the_root (\<lambda>root_dir.
         let root = os_descriptor_path os root_dir in
         sbind (on_io (git os root [''reset'', ''--hard'', tx_base_sha st])) (\<lambda>_.
         sbind (on_io (git os root [''clean'', ''-fd'', ''--exclude'', state_file, ''--exclude'', lease_file])) (\<lambda>_.
         sbind (set_state (\<lambda>st. st\<lparr>tx_phase := Aborted, tx_rollback_result := Some ''restored_to_base_sha'',
             tx_pending_effect := None\<rparr>)) (\<lambda>_.
         sbind (refresh_fingerprints os js root) (\<lambda>_.
         sbind (on_io (unscoped_workspace_fingerprint os root (tx_policy st))) (\<lambda>unscoped.
         sbind (set_state (\<lambda>st. st\<lparr>tx_unscoped_fingerprint := unscoped\<rparr>)) (\<lambda>_.
           record_event os js ''rollback'' (tx_base_sha st) ''succeeded'' ))))))))"

section \<open>Authorized file operations\<close>

definition authorize_write :: "('d, 'w) os \<Rightarrow> string \<Rightarrow> ('d, 'w, string) ws_m" where
  "authorize_write os path =
     sbind (of_result (validate_relative path)) (\<lambda>_.
     sbind (the_state (\<lambda>st. st)) (\<lambda>st.
       if path \<notin> set (wp_write_paths (tx_policy st)) then sfail ''write path is outside task scope''
       else sbind the_root (\<lambda>root_dir.
         sbind (on_io (validate_anchored_write_path os root_dir path)) (\<lambda>_.
           sret (path_join (tx_worktree st) path)))))"

definition authorize_existing :: "('d, 'w) os \<Rightarrow> string \<Rightarrow> (workspace_policy \<Rightarrow> string list) \<Rightarrow> ('d, 'w, string) ws_m" where
  "authorize_existing os path allowed =
     sbind (of_result (validate_relative path)) (\<lambda>_.
     sbind (the_state (\<lambda>st. st)) (\<lambda>st.
       if path \<notin> set (allowed (tx_policy st)) then sfail ''path is outside task scope''
       else sbind the_root (\<lambda>root_dir.
         sbind (on_io (validate_anchored_existing_path os root_dir path)) (\<lambda>_.
           sret (path_join (tx_worktree st) path)))))"

text \<open>A function of the file layer below the root directory of the object.\<close>

definition below_root :: "('d \<Rightarrow> ('w, 'a) io) \<Rightarrow> ('d, 'w, 'a) ws_m" where
  "below_root f = sbind the_root (\<lambda>root_dir. on_io (f root_dir))"

definition read_file :: "('d, 'w) os \<Rightarrow> workspace_codec \<Rightarrow> string \<Rightarrow> ('d, 'w, byte list) ws_m" where
  "read_file os js path =
     sbind require_active (\<lambda>_.
     sbind (authorize_existing os path wp_read_paths) (\<lambda>_.
     sbind (attempt (below_root (\<lambda>d. secure_read os d path))) (\<lambda>result.
     sbind (record_event os js ''read'' path (case result of Inr bytes \<Rightarrow> sha256_digest bytes | Inl _ \<Rightarrow> ''failed'')) (\<lambda>_.
       of_result result))))"

definition write_file :: "('d, 'w) os \<Rightarrow> workspace_codec \<Rightarrow> string \<Rightarrow> byte list \<Rightarrow> ('d, 'w, unit) ws_m" where
  "write_file os js path bytes =
     sbind require_active (\<lambda>_.
     sbind (authorize_write os path) (\<lambda>_.
     sbind (below_root (\<lambda>d. creates_missing_ancestors os d path)) (\<lambda>creates_structure.
     sbind (below_root (\<lambda>d. secure_file_digest os d path)) (\<lambda>before.
     sbind (record_event os js ''checkpoint'' path ''before_write'') (\<lambda>_.
     sbind (begin_effect os js (''write:'' @ path)) (\<lambda>_.
     sbind (below_root (\<lambda>d. secure_write os d path bytes)) (\<lambda>_.
       finish_effect os js ''write'' path (optional_digest before @ ''|'' @ sha256_digest bytes) [path] creates_structure)))))))"

definition delete_file :: "('d, 'w) os \<Rightarrow> workspace_codec \<Rightarrow> string \<Rightarrow> ('d, 'w, unit) ws_m" where
  "delete_file os js path =
     sbind require_active (\<lambda>_.
     sbind (authorize_existing os path wp_write_paths) (\<lambda>_.
     sbind (below_root (\<lambda>d. secure_file_digest os d path)) (\<lambda>before.
     sbind (record_event os js ''checkpoint'' path ''before_delete'') (\<lambda>_.
     sbind (begin_effect os js (''delete:'' @ path)) (\<lambda>_.
     sbind (below_root (\<lambda>d. secure_delete os d path)) (\<lambda>_.
       finish_effect os js ''delete'' path (optional_digest before @ ''|-'') [path] False))))))"

definition rename_file :: "('d, 'w) os \<Rightarrow> workspace_codec \<Rightarrow> string \<Rightarrow> string \<Rightarrow> ('d, 'w, unit) ws_m" where
  "rename_file os js from to =
     (let subject = from @ ''->'' @ to in
     sbind require_active (\<lambda>_.
     sbind (authorize_existing os from wp_write_paths) (\<lambda>_.
     sbind (authorize_write os to) (\<lambda>_.
     sbind (below_root (\<lambda>d. secure_file_digest os d from)) (\<lambda>before.
     sbind (record_event os js ''checkpoint'' subject ''before_rename'') (\<lambda>_.
     sbind (begin_effect os js (''rename:'' @ subject)) (\<lambda>_.
     sbind (below_root (\<lambda>d. secure_rename os d from to)) (\<lambda>_.
       finish_effect os js ''rename'' subject (optional_digest before @ ''|'' @ optional_digest before) [from, to] False))))))))"

definition chmod_file :: "('d, 'w) os \<Rightarrow> workspace_codec \<Rightarrow> string \<Rightarrow> u32 \<Rightarrow> ('d, 'w, unit) ws_m" where
  "chmod_file os js path mode =
     sbind require_active (\<lambda>_.
       if mode AND NOT 0x1FF \<noteq> 0 then sfail ''special permission bits are forbidden''
       else
     sbind (authorize_existing os path wp_write_paths) (\<lambda>_.
     sbind (below_root (\<lambda>d. secure_file_digest os d path)) (\<lambda>digest.
     sbind (record_event os js ''checkpoint'' path ''before_chmod'') (\<lambda>_.
     sbind (begin_effect os js (''chmod:'' @ path)) (\<lambda>_.
     sbind (below_root (\<lambda>d. secure_chmod os d path mode)) (\<lambda>_.
       finish_effect os js ''chmod'' path (optional_digest digest @ ''|'' @ optional_digest digest) [path] False))))))"

definition authorize_external :: "('d, 'w) os \<Rightarrow> workspace_codec \<Rightarrow> string \<Rightarrow> bool \<Rightarrow> ('d, 'w, unit) ws_m" where
  "authorize_external os js program network =
     sbind require_active (\<lambda>_.
     sbind (record_event os js ''command'' program ''denied'') (\<lambda>_.
       sfail ''portable v0 denies external commands and network; a verified sandbox executor is required''))"

definition record_artifact :: "('d, 'w) os \<Rightarrow> workspace_codec \<Rightarrow> string \<Rightarrow> ('d, 'w, unit) ws_m" where
  "record_artifact os js path =
     sbind (authorize_existing os path wp_read_paths) (\<lambda>_.
     sbind (below_root (\<lambda>d. secure_file_digest os d path)) (\<lambda>found.
       case found of
         None \<Rightarrow> sfail ''artifact is not a file''
       | Some digest \<Rightarrow>
           sbind (set_state (\<lambda>st. st\<lparr>tx_artifacts := bset_insert path (tx_artifacts st)\<rparr>)) (\<lambda>_.
             record_event os js ''artifact'' path digest)))"

definition reject_delivery_operation :: "string \<Rightarrow> (string, unit) result" where
  "reject_delivery_operation operation =
     (if operation \<in> {''force_push'', ''push_protected_branch'', ''self_approve'', ''edit_policy''}
      then Inl (''delivery operation '' @ operation @ '' requires separate Class-3 authority'')
      else Inr ())"

section \<open>The delivered candidate\<close>

fun changed_scope :: "string list \<Rightarrow> string \<Rightarrow> string list \<Rightarrow> bool \<Rightarrow> (string, bool) result" where
  "changed_scope allowed path [] found = Inr found"
| "changed_scope allowed path (raw # rest) found =
     (case from_utf8 (str_bytes raw) of
        None \<Rightarrow> Inl ''delivered-head paths are not UTF-8''
      | Some changed_path \<Rightarrow>
          rbind (validate_relative changed_path) (\<lambda>_.
            if changed_path \<notin> set allowed then Inl ''delivered head changes a path outside task write scope''
            else changed_scope allowed path rest (found \<or> changed_path = path)))"

definition run_git :: "('d, 'w) os \<Rightarrow> string \<Rightarrow> string \<Rightarrow> string list \<Rightarrow> ('w, command_output) io" where
  "run_git os failed dir args = sys_or (labelled failed) (os_git os dir args)"

definition read_at_commit :: "('d, 'w) os \<Rightarrow> workspace_codec \<Rightarrow> string \<Rightarrow> string \<Rightarrow> ('d, 'w, byte list) ws_m" where
  "read_at_commit os js path commit_sha =
     sbind require_active (\<lambda>_.
     sbind (of_result (validate_commit_sha commit_sha)) (\<lambda>_.
     sbind (of_result (validate_relative path)) (\<lambda>_.
     sbind (the_state (\<lambda>st. st)) (\<lambda>st.
       let root = tx_worktree st; base = tx_base_sha st in
       if path \<notin> set (wp_read_paths (tx_policy st)) then sfail ''path is outside task read scope''
       else
     sbind (on_io (git_commit_of os root commit_sha)) (\<lambda>verified.
       if trim verified \<noteq> commit_sha then sfail ''delivered head must be an exact full commit SHA''
       else
     sbind (on_io (run_git os ''failed to verify delivered ancestry'' root [''merge-base'', ''--is-ancestor'', base, commit_sha])) (\<lambda>ancestry.
       if \<not> co_success ancestry then sfail ''delivered head is not a descendant of the transaction base''
       else
     sbind (on_io (run_git os ''failed to inspect delivered scope'' root [''diff'', ''--name-only'', ''-z'', base, commit_sha])) (\<lambda>changed.
       if \<not> co_success changed then sfail ''cannot inspect delivered-head file scope''
       else
     sbind (of_result (changed_scope (wp_write_paths (tx_policy st)) path
         (filter (\<lambda>p. p \<noteq> '''') (split_on (CHR 0x00) (bytes_str (co_stdout changed)))) False)) (\<lambda>contains_candidate.
       if \<not> contains_candidate then sfail ''delivered head does not change the proposed candidate path''
       else
     sbind (on_io (run_git os ''failed to inspect delivered blob'' root [''show'', commit_sha @ '':'' @ path])) (\<lambda>output.
       if \<not> co_success output
       then sfail (''cannot read delivered blob: '' @ trim (from_utf8_lossy (co_stderr output)))
       else
     sbind (record_event os js ''read_commit'' (commit_sha @ '':'' @ path) (sha256_digest (co_stdout output))) (\<lambda>_.
       sret (co_stdout output)))))))))))"

definition authorize_verified_candidate_commit ::
  "('d, 'w) os \<Rightarrow> workspace_codec \<Rightarrow> string \<Rightarrow> string \<Rightarrow> string \<Rightarrow> ('d, 'w, unit) ws_m" where
  "authorize_verified_candidate_commit os js path commit_sha candidate_digest =
     sbind (of_result (validate_digest candidate_digest)) (\<lambda>_.
     sbind (read_at_commit os js path commit_sha) (\<lambda>candidate.
       if sha256_digest candidate \<noteq> candidate_digest
       then sfail ''delivered head does not contain the exact candidate bytes''
       else
     sbind (the_state (\<lambda>st. st)) (\<lambda>st.
     sbind (on_io (unscoped_workspace_fingerprint os (tx_worktree st) (tx_policy st))) (\<lambda>unscoped.
       if unscoped \<noteq> tx_unscoped_fingerprint st then sfail ''transaction worktree changed outside task scope''
       else
     sbind (set_state (\<lambda>st. st\<lparr>tx_candidate_head := Some commit_sha\<rparr>)) (\<lambda>_.
     sbind (refresh_fingerprints os js (tx_worktree st)) (\<lambda>_.
       record_event os js ''candidate_head_authorized'' commit_sha candidate_digest))))))"

section \<open>The audit record\<close>

record audit_checkpoint =
  ck_sequence :: u64
  ck_kind :: string
  ck_tree_sha :: string
  ck_created_before :: string

record file_observation =
  fo_sequence :: u64
  fo_path :: string
  fo_digest :: string

record audit_write =
  aw_sequence :: u64
  aw_operation :: string
  aw_path :: string
  aw_destination :: "string option"
  aw_before_digest :: "string option"
  aw_after_digest :: "string option"

record audit_command =
  am_sequence :: u64
  am_argv :: "string list"
  am_capabilities :: "string list"
  am_network_hosts :: "string list"
  am_outcome :: string
  am_exit_code :: int
  am_stdout_digest :: string
  am_stderr_digest :: string

record audit_artifact =
  aa_sequence :: u64
  aa_path :: string
  aa_digest :: string
  aa_kind :: string

record rollback_audit =
  ra_attempted :: bool
  ra_result :: string
  ra_restored_checkpoint :: "u64 option"
  ra_source_untouched :: bool

record recovery_audit =
  rc_resumable :: bool
  rc_rollback_safe :: bool
  rc_next_sequence :: u64
  rc_journal_digest :: string

record execution_transaction_audit =
  xa_schema_version :: string
  xa_transaction_id :: string
  xa_task_contract_digest :: string
  xa_policy_digest :: string
  xa_base_sha :: string
  xa_branch :: string
  xa_status :: string
  xa_checkpoints :: "audit_checkpoint list"
  xa_reads :: "file_observation list"
  xa_writes :: "audit_write list"
  xa_commands :: "audit_command list"
  xa_artifacts :: "audit_artifact list"
  xa_rollback :: rollback_audit
  xa_recovery :: recovery_audit

definition audit_checkpoints :: "transaction_state \<Rightarrow> audit_checkpoint list" where
  "audit_checkpoints st =
     map (\<lambda>e. \<lparr>ck_sequence = ae_sequence e,
         ck_kind = (if ae_result e = ''created'' then ''initial'' else if ae_subject e = ''delivery'' then ''before_delivery'' else ''before_write''),
         ck_tree_sha = tx_checkpoint_tree st, ck_created_before = ae_subject e\<rparr>)
       (filter (\<lambda>e. ae_operation e = ''checkpoint'') (tx_events st))"

definition audit_reads :: "transaction_state \<Rightarrow> file_observation list" where
  "audit_reads st =
     map (\<lambda>e. \<lparr>fo_sequence = ae_sequence e, fo_path = ae_subject e, fo_digest = ae_result e\<rparr>)
       (filter (\<lambda>e. ae_operation e = ''read'' \<and> starts_with (ae_result e) ''sha256:'') (tx_events st))"

definition audit_write_of :: "audit_event \<Rightarrow> audit_write" where
  "audit_write_of e =
     (let (path, destination) = (if ae_operation e = ''rename'' then split_first ''->'' (ae_subject e) else (ae_subject e, None));
          (first, rest) = split_first ''|'' (ae_result e);
          before_digest = parse_optional_digest (Some first);
          after_digest = parse_optional_digest rest
      in \<lparr>aw_sequence = ae_sequence e,
          aw_operation = (if ae_operation e = ''write'' \<and> before_digest = None then ''create''
            else if ae_operation e = ''write'' then ''modify'' else ae_operation e),
          aw_path = path, aw_destination = destination, aw_before_digest = before_digest, aw_after_digest = after_digest\<rparr>)"

definition audit_writes :: "transaction_state \<Rightarrow> audit_write list" where
  "audit_writes st =
     map audit_write_of (filter (\<lambda>e. ae_operation e \<in> {''write'', ''delete'', ''rename'', ''chmod''}) (tx_events st))"

definition audit_commands :: "transaction_state \<Rightarrow> audit_command list" where
  "audit_commands st =
     map (\<lambda>e. \<lparr>am_sequence = ae_sequence e, am_argv = [ae_subject e], am_capabilities = [], am_network_hosts = [],
         am_outcome = ''denied'', am_exit_code = 126, am_stdout_digest = sha256_digest [], am_stderr_digest = sha256_digest []\<rparr>)
       (filter (\<lambda>e. ae_operation e = ''command'') (tx_events st))"

definition audit_artifacts :: "transaction_state \<Rightarrow> audit_artifact list" where
  "audit_artifacts st =
     map (\<lambda>(i, path). \<lparr>aa_sequence = of_nat (length (tx_events st)) + of_nat i, aa_path = path,
         aa_digest = (case find (\<lambda>e. ae_operation e = ''artifact'' \<and> ae_subject e = path) (rev (tx_events st)) of
             Some e \<Rightarrow> ae_result e
           | None \<Rightarrow> sha256_digest (str_bytes path)),
         aa_kind = ''file''\<rparr>)
       (enumerate 0 (tx_artifacts st))"

fun phase_status :: "transaction_phase \<Rightarrow> string" where
  "phase_status Active = ''running''"
| "phase_status Interrupted = ''interrupted''"
| "phase_status Committed = ''succeeded''"
| "phase_status Aborted = ''rolled_back''"

definition execution_audit :: "('d, 'w) os \<Rightarrow> workspace_codec \<Rightarrow> ('d, 'w, execution_transaction_audit) ws_m" where
  "execution_audit os js =
     sbind (the_state (\<lambda>st. st)) (\<lambda>st.
     sbind (attempt (on_io (source_fingerprint os (tx_source_checkout st)))) (\<lambda>source.
     sbind (attempt (on_io (workspace_matches_state os js (tx_worktree st) st))) (\<lambda>matches.
       sret
        \<lparr>xa_schema_version = ''axiom.execution_transaction.v0'', xa_transaction_id = tx_transaction_id st,
         xa_task_contract_digest = tx_task_contract_digest st, xa_policy_digest = tx_policy_digest st,
         xa_base_sha = tx_base_sha st, xa_branch = tx_branch st, xa_status = phase_status (tx_phase st),
         xa_checkpoints = audit_checkpoints st, xa_reads = audit_reads st, xa_writes = audit_writes st,
         xa_commands = audit_commands st, xa_artifacts = audit_artifacts st,
         xa_rollback =
           \<lparr>ra_attempted = tx_rollback_result st \<noteq> None,
            ra_result = (if tx_rollback_result st \<noteq> None then ''succeeded'' else ''not_required''),
            ra_restored_checkpoint = (if tx_rollback_result st \<noteq> None then Some 0 else None),
            ra_source_untouched = (source = Inr (tx_source_fingerprint st))\<rparr>,
         xa_recovery =
           \<lparr>rc_resumable = (tx_phase st \<in> {Active, Interrupted} \<and> tx_pending_effect st = None \<and> matches = Inr True),
            rc_rollback_safe = (tx_phase st \<noteq> Committed),
            rc_next_sequence = of_nat (length (tx_events st)),
            rc_journal_digest = sha256_digest (case js_events js (tx_events st) of Inl _ \<Rightarrow> [] | Inr bytes \<Rightarrow> bytes)\<rparr>\<rparr>)))"

end
