(* ===== verification/Workspace_Journal.thy ===== *)
theory Workspace_Journal
  imports Transactional_Workspace Transition_System
begin

text \<open>
  What every operation of a workspace transaction leaves alone and how it may grow the journal,
  whatever the operating system answers and wherever the operation stops.
\<close>

section \<open>Steps of a method\<close>

definition leaves :: "('s \<Rightarrow> 's \<Rightarrow> bool) \<Rightarrow> ('s, 'e, 'a) rust_m \<Rightarrow> bool" where
  "leaves R m \<longleftrightarrow> (\<forall>s. R s (snd (m s)))"

text \<open>A relation between the object before and after: what holds step by step holds of a method.\<close>

locale step_frame =
  fixes R :: "'s \<Rightarrow> 's \<Rightarrow> bool"
  assumes R_refl: "R s s" and R_trans: "R s t \<Longrightarrow> R t u \<Longrightarrow> R s u"
begin

lemma leaves_pure:
  "leaves R (sret a)" "leaves R (sfail e)" "leaves R spanic" "leaves R (sget f)" "leaves R (\<lambda>s. (OutOfFuel, s))"
  by (simp_all add: leaves_def sret_def sfail_def spanic_def sget_def R_refl)

lemma leaves_of_result: "leaves R (of_result r)"
  by (cases r) (simp_all add: of_result_def leaves_pure)

lemma leaves_sbind: "leaves R m \<Longrightarrow> (\<And>a. leaves R (f a)) \<Longrightarrow> leaves R (sbind m f)"
  unfolding leaves_def sbind_def by (auto split: prod.splits outcome.splits intro: R_trans) (metis R_trans snd_conv)+

lemma leaves_attempt: "leaves R m \<Longrightarrow> leaves R (attempt m)"
  unfolding leaves_def attempt_def by (auto split: prod.splits outcome.splits) (metis snd_conv)+

lemma leaves_if: "leaves R m \<Longrightarrow> leaves R n \<Longrightarrow> leaves R (if b then m else n)"
  by simp

lemma at_sbind:
  assumes "R s (snd (m s))" "\<And>a t. m s = (Done a, t) \<Longrightarrow> R t (snd (f a t))"
  shows "R s (snd (sbind m f s))"
  using assms by (auto simp: sbind_def split: prod.splits outcome.splits intro: R_trans)

lemma at_leaves: "leaves R m \<Longrightarrow> R s (snd (m s))"
  by (simp add: leaves_def)

lemma leaves_reachable:
  assumes "\<And>c. leaves R (perform c)" "reachable (\<lambda>s. s = s0) perform ok s"
  shows "R s0 s"
  using assms(2)
proof (induction rule: reachable.induct)
  case (reachable_step s c r s')
  then have "R s s'" using assms(1) [of c] unfolding leaves_def by (metis snd_conv)
  then show ?case using reachable_step.IH R_trans by blast
qed (simp add: R_refl)

lemmas leaves_rules = leaves_pure leaves_of_result leaves_sbind leaves_attempt leaves_if

end

section \<open>How a transaction may grow\<close>

definition same_identity :: "transaction_state \<Rightarrow> transaction_state \<Rightarrow> bool" where
  "same_identity a b \<longleftrightarrow>
     tx_schema_version b = tx_schema_version a \<and> tx_base_sha b = tx_base_sha a
     \<and> tx_source_checkout b = tx_source_checkout a \<and> tx_worktree b = tx_worktree a \<and> tx_policy b = tx_policy a
     \<and> tx_checkpoint_tree b = tx_checkpoint_tree a \<and> tx_transaction_id b = tx_transaction_id a
     \<and> tx_task_contract_digest b = tx_task_contract_digest a \<and> tx_policy_digest b = tx_policy_digest a
     \<and> tx_branch b = tx_branch a \<and> tx_source_fingerprint b = tx_source_fingerprint a
     \<and> tx_owner_epoch b = tx_owner_epoch a"

definition numbered_from :: "nat \<Rightarrow> audit_event list \<Rightarrow> bool" where
  "numbered_from n events \<longleftrightarrow> (\<forall>i < length events. ae_sequence (events ! i) = of_nat (n + i))"

definition redacted :: "audit_event \<Rightarrow> bool" where
  "redacted e \<longleftrightarrow> redact (ae_subject e) = ae_subject e \<and> redact (ae_result e) = ae_result e"

definition journal_extends :: "audit_event list \<Rightarrow> audit_event list \<Rightarrow> bool" where
  "journal_extends a b \<longleftrightarrow> (\<exists>new. b = a @ new \<and> numbered_from (length a) new \<and> list_all redacted new)"

definition phase_after :: "transaction_phase \<Rightarrow> transaction_phase \<Rightarrow> bool" where
  "phase_after p q \<longleftrightarrow> p = q \<or> p \<in> {Active, Interrupted}"

definition state_extends :: "transaction_state \<Rightarrow> transaction_state \<Rightarrow> bool" where
  "state_extends a b \<longleftrightarrow> same_identity a b \<and> journal_extends (tx_events a) (tx_events b)
     \<and> phase_after (tx_phase a) (tx_phase b) \<and> tx_generation a \<le> tx_generation b
     \<and> set (tx_artifacts a) \<subseteq> set (tx_artifacts b)"

definition grown :: "'d workspace \<times> 'w session \<Rightarrow> 'd workspace \<times> 'w session \<Rightarrow> bool" where
  "grown s t \<longleftrightarrow> ws_state_path (fst t) = ws_state_path (fst s) \<and> ws_root_dir (fst t) = ws_root_dir (fst s)
     \<and> ws_lease (fst t) = ws_lease (fst s) \<and> state_extends (ws_state (fst s)) (ws_state (fst t))"

lemma journal_extends_refl: "journal_extends a a"
  by (simp add: journal_extends_def numbered_from_def)

lemma numbered_append:
  assumes "numbered_from n a" "numbered_from (n + length a) b"
  shows "numbered_from n (a @ b)"
proof -
  have "ae_sequence ((a @ b) ! i) = of_nat (n + i)" if "i < length (a @ b)" for i
  proof (cases "i < length a")
    case True
    then show ?thesis using assms(1) by (simp add: numbered_from_def nth_append)
  next
    case False
    then have "i - length a < length b" "n + length a + (i - length a) = n + i" using that by auto
    then show ?thesis using assms(2) False by (metis numbered_from_def nth_append)
  qed
  then show ?thesis by (simp add: numbered_from_def)
qed

lemma journal_extends_trans:
  assumes "journal_extends a b" "journal_extends b c"
  shows "journal_extends a c"
proof -
  obtain x y where "b = a @ x" "c = b @ y" "numbered_from (length a) x" "numbered_from (length b) y"
      "list_all redacted x" "list_all redacted y"
    using assms by (auto simp: journal_extends_def)
  then have "c = a @ (x @ y)" "numbered_from (length a) (x @ y)" "list_all redacted (x @ y)"
    by (auto intro: numbered_append)
  then show ?thesis unfolding journal_extends_def by blast
qed

lemma state_extends_refl: "state_extends a a"
  by (simp add: state_extends_def same_identity_def journal_extends_refl phase_after_def)

lemma state_extends_trans:
  assumes "state_extends a b" "state_extends b c"
  shows "state_extends a c"
proof -
  have "same_identity a c" "phase_after (tx_phase a) (tx_phase c)" "tx_generation a \<le> tx_generation c"
      "set (tx_artifacts a) \<subseteq> set (tx_artifacts c)"
    using assms by (auto simp: state_extends_def same_identity_def phase_after_def)
  moreover have "journal_extends (tx_events a) (tx_events c)"
    using assms journal_extends_trans unfolding state_extends_def by blast
  ultimately show ?thesis by (simp add: state_extends_def)
qed

interpretation grow: step_frame grown
proof
  show "grown s s" for s :: "'d workspace \<times> 'w session" by (simp add: grown_def state_extends_refl)
  show "grown s u" if "grown s t" "grown t u" for s t u :: "'d workspace \<times> 'w session"
    using that state_extends_trans [of "ws_state (fst s)" "ws_state (fst t)" "ws_state (fst u)"]
    by (simp add: grown_def)
qed

lemma grown_on_io [intro!]: "leaves grown (on_io m)"
  by (auto simp: leaves_def on_io_def grown_def state_extends_refl split: prod.splits)

lemma grown_set_state: "(\<And>st. state_extends st (f st)) \<Longrightarrow> leaves grown (set_state f)"
  by (simp add: leaves_def set_state_def smodify_def grown_def)

lemma grown_get [intro!]: "leaves grown (the_state f)" "leaves grown the_root"
  by (simp_all add: the_state_def the_root_def grow.leaves_pure)

section \<open>Redaction\<close>

lemma redact_redact: "redact (redact v) = redact v"
proof -
  have "redact ''[secret-reference-redacted]'' = ''[secret-reference-redacted]''" by code_simp
  then show ?thesis by (cases "redact v = v") (auto simp: redact_def Let_def split: if_splits)
qed

lemma push_event_extends: "state_extends st (push_event operation subject result st)"
proof -
  let ?e = "\<lparr>ae_sequence = of_nat (length (tx_events st)), ae_operation = operation,
      ae_subject = redact subject, ae_result = redact result\<rparr>"
  have "journal_extends (tx_events st) (tx_events st @ [?e])"
    unfolding journal_extends_def
    by (rule exI [of _ "[?e]"]) (simp add: numbered_from_def redacted_def redact_redact)
  then show ?thesis
    by (simp add: push_event_def state_extends_def same_identity_def phase_after_def)
qed

section \<open>Operations\<close>

lemma sbind_Done:
  "sbind m f s = (Done b, t) \<longleftrightarrow> (\<exists>a u. m s = (Done a, u) \<and> f a u = (Done b, t))"
  by (auto simp: sbind_def split: prod.splits outcome.splits)

lemma of_result_Done: "of_result r s = (Done a, t) \<longleftrightarrow> r = Inr a \<and> t = s"
  by (auto simp: of_result_def sret_def sfail_def split: sum.splits)

lemma sret_Done: "sret a s = (Done b, t) \<longleftrightarrow> a = b \<and> t = s"
  by (auto simp: sret_def)

lemma sfail_Done: "sfail e s \<noteq> (Done b, t)"
  by (simp add: sfail_def)

lemmas done_simps = sbind_Done of_result_Done sret_Done sfail_Done

lemma persist_state_Done:
  assumes "persist_state os js path state expected root s = (Done saved, t)"
  obtains g c where "saved = state\<lparr>tx_generation := g, tx_checksum := c\<rparr>" "next_generation expected = Inr g"
  using assms unfolding persist_state_def by (auto simp: done_simps Let_def)

lemma next_generation_le: "next_generation (Some (owner, g)) = Inr g' \<Longrightarrow> g \<le> g'"
  by (auto simp: next_generation_def word_checked_add_def word_le_nat_alt unat_word_ariths split: option.splits if_splits)

lemma persist_Done_state:
  assumes "persist os js (ws, p) = (r, (ws', p'))"
  shows "ws' = ws \<or> (\<exists>g c. ws' = ws\<lparr>ws_state := (ws_state ws)\<lparr>tx_generation := g, tx_checksum := c\<rparr>\<rparr> \<and> tx_generation (ws_state ws) \<le> g)"
proof (cases "ws' = ws")
  case False
  let ?st = "ws_state ws"
  obtain fresh p1 saved p2 where f: "(if tx_generation ?st = 0
           then sbind (on_io (sys (os_exists os (ws_state_path ws)))) (\<lambda>there. sret (\<not> there))
           else sret False) (ws, p) = (Done fresh, (ws, p1))"
      and n: "persist_state os js (ws_state_path ws) ?st
           (if fresh then None else Some (tx_owner_epoch ?st, tx_generation ?st)) (ws_root_dir ws) p1 = (Done saved, p2)"
      and ws': "ws' = ws\<lparr>ws_state := saved\<rparr>"
    using assms False
    by (auto simp: persist_def Let_def sbind_def sget_def on_io_def set_state_def smodify_def sret_def
        split: prod.splits outcome.splits if_splits)
  obtain g c where g: "saved = ?st\<lparr>tx_generation := g, tx_checksum := c\<rparr>"
      "next_generation (if fresh then None else Some (tx_owner_epoch ?st, tx_generation ?st)) = Inr g"
    using n by (rule persist_state_Done)
  have "tx_generation ?st \<le> g"
  proof (cases fresh)
    case True
    then have "tx_generation ?st = 0" using f by (auto simp: sret_def split: if_splits)
    then show ?thesis by simp
  next
    case False
    then show ?thesis using g(2) next_generation_le by auto
  qed
  then show ?thesis using g(1) ws' by blast
qed simp

lemma grown_persist [intro!]: "leaves grown (persist os js)"
proof -
  have "grown (ws, p) (snd (persist os js (ws, p)))" for ws p
  proof -
    obtain r ws' p' where "persist os js (ws, p) = (r, (ws', p'))" by (metis prod.exhaust)
    then show ?thesis
      using persist_Done_state [of os js ws p r ws' p']
      by (auto simp: grown_def state_extends_def same_identity_def journal_extends_refl phase_after_def)
  qed
  then show ?thesis by (simp add: leaves_def)
qed

lemma grown_record_event [intro!]: "leaves grown (record_event os js operation subject result)"
  unfolding record_event_def by (intro grow.leaves_sbind grown_set_state push_event_extends grown_persist)

lemma extends_fields:
  "state_extends st (st\<lparr>tx_pending_effect := e\<rparr>)"
  "state_extends st (st\<lparr>tx_path_fingerprints := c\<rparr>)"
  "state_extends st (st\<lparr>tx_workspace_fingerprint := w\<rparr>)"
  "state_extends st (st\<lparr>tx_unscoped_fingerprint := w\<rparr>)"
  "state_extends st (st\<lparr>tx_candidate_head := h\<rparr>)"
  "state_extends st (st\<lparr>tx_artifacts := bset_insert a (tx_artifacts st)\<rparr>)"
  by (auto simp: state_extends_def same_identity_def journal_extends_refl phase_after_def)

lemma grown_require_active [intro!]: "leaves grown require_active"
  unfolding require_active_def by (intro grow.leaves_rules grown_get)

lemma grown_begin_effect [intro!]: "leaves grown (begin_effect os js effect)"
  unfolding begin_effect_def by (intro grow.leaves_rules grown_get grown_set_state extends_fields grown_persist)

lemma grown_update [intro!]: "leaves grown (update_path_fingerprints os root changed ps)"
  by (induction ps) (auto intro!: grow.leaves_rules grown_get grown_set_state extends_fields)

lemma grown_finish_effect [intro!]: "leaves grown (finish_effect os js operation subject result changed structure_changed)"
  unfolding finish_effect_def
  by (intro grow.leaves_rules grown_get grown_set_state extends_fields grown_persist grown_record_event grown_update grown_on_io)

section \<open>Phases\<close>

definition same_phase :: "'d workspace \<times> 'w session \<Rightarrow> 'd workspace \<times> 'w session \<Rightarrow> bool" where
  "same_phase s t \<longleftrightarrow> tx_phase (ws_state (fst t)) = tx_phase (ws_state (fst s))
     \<and> tx_pending_effect (ws_state (fst t)) = tx_pending_effect (ws_state (fst s))"

interpretation phase: step_frame same_phase
  by unfold_locales (auto simp: same_phase_def)

lemma same_phase_on_io [intro!]: "leaves same_phase (on_io m)"
  by (auto simp: leaves_def on_io_def same_phase_def split: prod.splits)

lemma same_phase_persist [intro!]: "leaves same_phase (persist os js)"
proof -
  have "same_phase (ws, p) (snd (persist os js (ws, p)))" for ws p
  proof -
    obtain r ws' p' where "persist os js (ws, p) = (r, (ws', p'))" by (metis prod.exhaust)
    then show ?thesis using persist_Done_state [of os js ws p r ws' p'] by (auto simp: same_phase_def)
  qed
  then show ?thesis by (simp add: leaves_def)
qed

lemma same_phase_record_event [intro!]: "leaves same_phase (record_event os js operation subject result)"
proof -
  have "leaves same_phase (set_state (push_event operation subject result))"
    by (simp add: leaves_def set_state_def smodify_def same_phase_def push_event_def)
  then show ?thesis unfolding record_event_def by (intro phase.leaves_sbind same_phase_persist)
qed

lemma on_io_fst: "on_io m s = (r, t) \<Longrightarrow> fst t = fst s"
  by (auto simp: on_io_def split: prod.splits)

lemma the_state_Done: "the_state f s = (Done a, t) \<longleftrightarrow> t = s \<and> a = f (ws_state (fst s))"
  by (auto simp: the_state_def sget_def)

lemma the_root_Done: "the_root s = (Done a, t) \<longleftrightarrow> t = s \<and> a = ws_root_dir (fst s)"
  by (auto simp: the_root_def sget_def)

lemma set_state_snd: "snd (set_state f s) = ((fst s)\<lparr>ws_state := f (ws_state (fst s))\<rparr>, snd s)"
  by (simp add: set_state_def smodify_def)

lemma require_active_Done: "require_active s = (Done a, t) \<Longrightarrow> t = s \<and> tx_phase (ws_state (fst s)) = Active"
  by (auto simp: require_active_def done_simps the_state_Done split: if_splits)

lemma grown_set_phase:
  assumes "tx_phase (ws_state (fst s)) \<in> {Active, Interrupted}" "\<And>st. state_extends st ((f st)\<lparr>tx_phase := tx_phase st\<rparr>)"
  shows "grown s (snd (set_state f s))"
  using assms(2) [of "ws_state (fst s)"] assms(1)
  by (auto simp: set_state_snd grown_def state_extends_def same_identity_def phase_after_def)

lemma phase_field: "state_extends st (st\<lparr>tx_phase := p, tx_phase := tx_phase st\<rparr>)"
  by (simp add: state_extends_refl)

lemma grown_mark_interrupted [intro!]: "leaves grown (mark_interrupted os js)"
  unfolding leaves_def mark_interrupted_def
  by (intro allI grow.at_sbind grow.at_leaves [OF grown_require_active] grow.at_leaves [OF grown_record_event]
      grown_set_phase phase_field) (auto dest!: require_active_Done)

lemma grown_resume [intro!]: "leaves grown (resume os js)"
proof -
  have "grown s (snd (resume os js s))" for s
  proof (cases "tx_phase (ws_state (fst s)) = Interrupted")
    case True
    show ?thesis
      unfolding resume_def
      by (intro grow.at_sbind grow.at_leaves [OF grown_get(1)])
        (auto simp: True the_state_Done intro!: grow.at_sbind grow.at_leaves [OF grown_on_io]
          grow.at_leaves [OF grow.leaves_pure(2)] grow.at_leaves [OF grown_record_event] grown_set_phase phase_field
          dest!: on_io_fst)
  next
    case False
    then show ?thesis
      by (auto simp: resume_def sbind_def the_state_def sget_def sfail_def grow.R_refl)
  qed
  then show ?thesis by (simp add: leaves_def)
qed

lemma grown_commit_local [intro!]: "leaves grown (commit_local os js)"
proof -
  have "tx_phase (ws_state (fst t)) = Active"
    if "record_event os js o' s' r s = (Done a, t)" "tx_phase (ws_state (fst s)) = Active" for o' s' r s a t
    using phase.at_leaves [OF same_phase_record_event [of os js o' s' r], of s] that by (simp add: same_phase_def)
  then show ?thesis
    unfolding leaves_def commit_local_def
    by (intro allI grow.at_sbind grow.at_leaves [OF grown_require_active] grow.at_leaves [OF grown_record_event]
        grown_set_phase phase_field) (auto dest!: require_active_Done)
qed

lemma grown_refresh [intro!]: "leaves grown (refresh_fingerprints os js root)"
  unfolding refresh_fingerprints_def by (intro grow.leaves_rules grown_get grown_set_state extends_fields grown_on_io)

lemma grown_abort [intro!]: "leaves grown (abort os js)"
proof -
  have "grown s (snd (abort os js s))" for s
  proof (cases "tx_phase (ws_state (fst s)) \<in> {Active, Interrupted}")
    case True
    have aborted: "grown t (snd (set_state (\<lambda>st. st\<lparr>tx_phase := Aborted, tx_rollback_result := Some ''restored_to_base_sha'',
        tx_pending_effect := None\<rparr>) t))" if "fst t = fst s" for t
      using True that
      by (intro grown_set_phase) (auto simp: state_extends_def same_identity_def journal_extends_refl phase_after_def)
    show ?thesis
      unfolding abort_def
      by (intro grow.at_sbind grow.at_leaves [OF grown_get(1)])
        (use True in \<open>auto simp: the_state_Done the_root_Done Let_def intro!: grow.at_sbind grow.at_leaves [OF grown_get(2)]
          grow.at_leaves [OF grown_on_io] aborted grow.at_leaves [OF grown_refresh] grow.at_leaves [OF grown_record_event]
          grow.at_leaves [OF grown_set_state [OF extends_fields(4)]] dest!: on_io_fst\<close>)
  next
    case False
    then have "tx_phase (ws_state (fst s)) \<in> {Committed, Aborted}" by (cases "tx_phase (ws_state (fst s))") auto
    then show ?thesis by (auto simp: abort_def sbind_def the_state_def sget_def sfail_def grow.R_refl)
  qed
  then show ?thesis by (simp add: leaves_def)
qed

section \<open>File operations\<close>

lemma grown_below_root [intro!]: "leaves grown (below_root f)"
  unfolding below_root_def by (intro grow.leaves_rules grown_get grown_on_io)

lemma grown_authorize [intro!]: "leaves grown (authorize_write os path)" "leaves grown (authorize_existing os path allowed)"
  unfolding authorize_write_def authorize_existing_def by (intro grow.leaves_rules grown_get grown_on_io)+

lemmas grown_steps = grow.leaves_rules grown_get grown_on_io grown_set_state extends_fields grown_below_root grown_authorize
  grown_require_active grown_record_event grown_begin_effect grown_finish_effect grown_refresh

lemma grown_files:
  "leaves grown (read_file os js path)" "leaves grown (write_file os js path bytes)"
  "leaves grown (delete_file os js path)" "leaves grown (rename_file os js path to)"
  "leaves grown (chmod_file os js path mode)" "leaves grown (authorize_external os js program network)"
  unfolding read_file_def write_file_def delete_file_def rename_file_def chmod_file_def authorize_external_def Let_def
  by (intro grown_steps)+

lemma leaves_case_option: "leaves grown m \<Longrightarrow> (\<And>a. leaves grown (f a)) \<Longrightarrow> leaves grown (case x of None \<Rightarrow> m | Some a \<Rightarrow> f a)"
  by (cases x) simp_all

lemma grown_record_artifact [intro!]: "leaves grown (record_artifact os js path)"
  unfolding record_artifact_def by (intro grown_steps leaves_case_option)

lemma grown_read_at_commit [intro!]: "leaves grown (read_at_commit os js path commit_sha)"
  unfolding read_at_commit_def Let_def by (intro grown_steps)

lemma grown_authorize_candidate [intro!]: "leaves grown (authorize_verified_candidate_commit os js path commit_sha digest)"
  unfolding authorize_verified_candidate_commit_def by (intro grown_steps grown_read_at_commit)

lemma grown_execution_audit [intro!]: "leaves grown (execution_audit os js)"
  unfolding execution_audit_def by (intro grown_steps)

section \<open>Calls\<close>

datatype ws_call =
    MarkInterrupted | Resume | ReadFile string | ReadAtCommit string string | AuthorizeCandidate string string string
  | WriteFile string "byte list" | DeleteFile string | RenameFile string string | ChmodFile string u32
  | AuthorizeExternal string bool | RecordArtifact string | Abort | CommitLocal | ExecutionAudit

definition discarding :: "('s, 'e, 'a) rust_m \<Rightarrow> ('s, 'e, unit) rust_m" where
  "discarding m = sbind m (\<lambda>_. sret ())"

fun ws_perform :: "('d, 'w) os \<Rightarrow> workspace_codec \<Rightarrow> ws_call \<Rightarrow> ('d, 'w, unit) ws_m" where
  "ws_perform os js MarkInterrupted = mark_interrupted os js"
| "ws_perform os js Resume = resume os js"
| "ws_perform os js (ReadFile path) = discarding (read_file os js path)"
| "ws_perform os js (ReadAtCommit path sha) = discarding (read_at_commit os js path sha)"
| "ws_perform os js (AuthorizeCandidate path sha digest) = authorize_verified_candidate_commit os js path sha digest"
| "ws_perform os js (WriteFile path bytes) = write_file os js path bytes"
| "ws_perform os js (DeleteFile path) = delete_file os js path"
| "ws_perform os js (RenameFile from to) = rename_file os js from to"
| "ws_perform os js (ChmodFile path mode) = chmod_file os js path mode"
| "ws_perform os js (AuthorizeExternal program network) = authorize_external os js program network"
| "ws_perform os js (RecordArtifact path) = record_artifact os js path"
| "ws_perform os js Abort = abort os js"
| "ws_perform os js CommitLocal = commit_local os js"
| "ws_perform os js ExecutionAudit = discarding (execution_audit os js)"

lemma grown_perform: "leaves grown (ws_perform os js c)"
  by (cases c) (auto simp: discarding_def intro!: grow.leaves_rules grown_files)

end
