(* ===== verification/Workspace_Theorems.thy ===== *)
theory Workspace_Theorems
  imports Workspace_Journal Sample_System
begin

text \<open>
  The properties of workspace transactions: the journal only grows, paths outside the task scope
  never reach the file system, an interrupted effect blocks until the rollback, a stale owner is
  fenced off, recovery accepts only a matching durable state, and the audit record says what the
  operations did.
\<close>

section \<open>A sample transaction\<close>

definition sample_policy :: workspace_policy where
  "sample_policy = \<lparr>wp_read_paths = [''a.ax''], wp_write_paths = [''a.ax''], wp_commands = [], wp_network = False, wp_sandbox = False\<rparr>"

definition sample_cache :: "(string, string) btree_map" where
  "sample_cache = [(''a.ax'', rows_digest [nul_join [''M'', ''a.ax'']])]"

definition sample_scoped :: string where
  "sample_scoped = sha256_digest (str_bytes (nul_join [sample_sha, sha256_digest [],
     join_with [CHR 0x0A] (map (\<lambda>(path, fingerprint). nul_join [path, fingerprint]) sample_cache)]))"

definition sample_state :: transaction_state where
  "sample_state = \<lparr>tx_schema_version = audit_schema, tx_base_sha = sample_sha, tx_source_checkout = ''/s'', tx_worktree = ''/w'',
     tx_policy = sample_policy, tx_phase = Active, tx_checkpoint_tree = sample_sha, tx_events = [], tx_artifacts = [],
     tx_rollback_result = None, tx_checksum = sha256_digest [], tx_transaction_id = ''txn-1'',
     tx_task_contract_digest = sha256_digest [], tx_policy_digest = sha256_digest [], tx_branch = ''detached'',
     tx_pending_effect = None, tx_workspace_fingerprint = sample_scoped, tx_path_fingerprints = sample_cache,
     tx_unscoped_fingerprint = rows_digest [],
     tx_source_fingerprint = '''', tx_owner_epoch = ''owner-a'', tx_generation = 1, tx_candidate_head = None\<rparr>"

text \<open>The durable file holds the generation; only the state of generation 1 is ever read back.\<close>

definition sample_codec :: "transaction_state \<Rightarrow> workspace_codec" where
  "sample_codec other =
     \<lparr>js_policy = (\<lambda>_. Inr []), js_state = (\<lambda>_. Inr []), js_state_pretty = (\<lambda>st. Inr [ucast (tx_generation st)]),
      js_parse_state = (\<lambda>bytes. Inr (if bytes = [1] then sample_state else other)), js_events = (\<lambda>_. Inr [])\<rparr>"

definition sample_workspace :: "unit workspace" where
  "sample_workspace = \<lparr>ws_state_path = ''/w/.axiom-transaction.json'', ws_state = sample_state, ws_root_dir = (), ws_lease = ()\<rparr>"

lemma state_file_parts: "relative_components state_file = Inr [state_file]"
  by code_simp

lemma plain_file_regular [simp]: "file_kind plain_file = s_ifreg" "st_nlink plain_file = 1" "s_ifreg \<noteq> s_iflnk"
  by code_simp+

lemma sample_stat: "anchored_entry_stat sample_os d n s = (Done (Some plain_file), s)"
  by (simp add: anchored_entry_stat_def sys_def sbind_def sret_def s_ifreg_def s_iflnk_def)

lemmas sample_simps = sbind_def sret_def sfail_def of_result_def sys_or_def sys_def attempt_def sthen_def

lemma sample_parent: "open_anchored_parent sample_os () state_file b s = (Done ((), state_file), s)"
  by (simp add: open_anchored_parent_def state_file_parts duplicate_root_def sample_simps)

lemma sample_read: "secure_read sample_os () state_file s = (Done (world s), s)"
  by (simp add: secure_read_def open_anchored_file_def sample_simps sample_parent require_entry_def sample_stat)

lemma sample_write: "secure_write sample_os () state_file bytes s = (Done (), s\<lparr>temp_sequence := temp_sequence s + 1, world := bytes\<rparr>)"
proof -
  have "[0..<32] = 0 # [1..<32::nat]" by (simp add: upt_conv_Cons)
  then show ?thesis
    by (simp add: secure_write_def sample_simps sample_parent sample_stat next_temp_sequence_def Let_def publish_write_def or_unlink_def)
qed

lemma sample_checksum: "state_checksum (sample_codec other) st = Inr (sha256_digest [])"
  by (simp add: state_checksum_def sample_codec_def)

lemma sample_persist_state:
  assumes "tx_transaction_id st = ''txn-1''" "world s = [1]"
  shows "persist_state sample_os (sample_codec other) path st (Some (''owner-a'', 1)) () s
    = (Done (st\<lparr>tx_generation := 2, tx_checksum := sha256_digest []\<rparr>), s\<lparr>temp_sequence := temp_sequence s + 1, world := [2]\<rparr>)"
proof -
  have two: "next_generation (Some (''owner-a'', 1)) = Inr 2" by (simp add: next_generation_def word_checked_add_def)
  have parse: "js_parse_state (sample_codec other) [1] = Inr sample_state"
    and pretty: "\<And>st. js_state_pretty (sample_codec other) st = Inr [ucast (tx_generation st)]"
    by (simp_all add: sample_codec_def)
  have "compare_durable sample_os (sample_codec other) st ''owner-a'' 1 () s = (Done (), s)"
    by (simp add: compare_durable_def sample_simps sample_read assms(2) parse sample_checksum)
      (simp add: sample_state_def assms(1))
  then show ?thesis
    by (simp add: persist_state_def two sample_checksum pretty sample_simps sample_write Let_def)
qed

lemma sample_persist:
  assumes "tx_owner_epoch (ws_state ws) = ''owner-a''" "tx_generation (ws_state ws) = 1" "tx_transaction_id (ws_state ws) = ''txn-1''"
    "world p = [1]" "ws_root_dir ws = ()"
  shows "persist sample_os (sample_codec other) (ws, p)
    = (Done (), (ws\<lparr>ws_state := (ws_state ws)\<lparr>tx_generation := 2, tx_checksum := sha256_digest []\<rparr>\<rparr>,
        p\<lparr>temp_sequence := temp_sequence p + 1, world := [2]\<rparr>))"
  using assms
  by (simp add: persist_def sbind_def sget_def sret_def on_io_def set_state_def smodify_def Let_def sample_persist_state)

lemma sample_interrupted:
  "mark_interrupted sample_os (sample_codec other) (sample_workspace, sample_session [1])
    = (Done (), (sample_workspace\<lparr>ws_state := (push_event ''lifecycle'' ''transaction'' ''interrupted''
          (sample_state\<lparr>tx_phase := Interrupted\<rparr>))\<lparr>tx_generation := 2, tx_checksum := sha256_digest []\<rparr>\<rparr>,
        (sample_session [1])\<lparr>temp_sequence := 1, world := [2]\<rparr>))"
  by (simp add: mark_interrupted_def require_active_def the_state_def sget_def sbind_def sret_def set_state_def smodify_def
      record_event_def sample_workspace_def sample_session_def sample_persist push_event_def)
    (simp add: sample_state_def sample_persist push_event_def)

section \<open>The journal\<close>

text \<open>
  C8. Whatever calls are made on a transaction and however the system answers them, the journal only
  grows: the old events stay, the new ones are numbered consecutively and carry no secret, the base
  commit, the policy, the task and the owner stay the same, the generation never falls, and a
  committed or aborted transaction stays so.
\<close>

theorem transaction_journal_append_only:
  assumes "reachable (\<lambda>s. s = s0) (ws_perform os js) (\<lambda>_. True) s"
  shows "\<exists>new. tx_events (ws_state (fst s)) = tx_events (ws_state (fst s0)) @ new
      \<and> numbered_from (length (tx_events (ws_state (fst s0)))) new \<and> list_all redacted new
    \<and> same_identity (ws_state (fst s0)) (ws_state (fst s))
    \<and> tx_generation (ws_state (fst s0)) \<le> tx_generation (ws_state (fst s))
    \<and> (tx_phase (ws_state (fst s0)) \<in> {Committed, Aborted} \<longrightarrow> tx_phase (ws_state (fst s)) = tx_phase (ws_state (fst s0)))"
proof -
  have "grown s0 s" by (rule grow.leaves_reachable [OF grown_perform assms])
  then show ?thesis by (auto simp: grown_def state_extends_def journal_extends_def phase_after_def)
qed

theorem transaction_journal_append_only_witness:
  "\<exists>s. reachable (\<lambda>s. s = (sample_workspace, sample_session [1])) (ws_perform sample_os (sample_codec sample_state)) (\<lambda>_. True) s
     \<and> tx_phase (ws_state (fst s)) = Interrupted \<and> numbered_from 0 (tx_events (ws_state (fst s)))
     \<and> length (tx_events (ws_state (fst s))) = 1"
proof -
  let ?start = "(sample_workspace, sample_session [1])"
  let ?s = "snd (mark_interrupted sample_os (sample_codec sample_state) ?start)"
  have "reachable (\<lambda>s. s = ?start) (ws_perform sample_os (sample_codec sample_state)) (\<lambda>_. True) ?start"
    by (rule reachable_init) simp
  from reachable_step [OF this, of MarkInterrupted]
  have r: "reachable (\<lambda>s. s = ?start) (ws_perform sample_os (sample_codec sample_state)) (\<lambda>_. True) ?s"
    by (simp add: sample_interrupted)
  have "tx_events (ws_state sample_workspace) = []" by (simp add: sample_workspace_def sample_state_def)
  then show ?thesis
    using transaction_journal_append_only [OF r] r unfolding sample_interrupted
    by (intro exI [of _ ?s]) (auto simp: sample_interrupted push_event_def sample_state_def)
qed

section \<open>The task scope\<close>










section \<open>Interrupted effects\<close>































section \<open>Recovery and stale owners\<close>

lemma new_owner_epoch_Done: "new_owner_epoch os s = (Done e, t) \<Longrightarrow> starts_with e ''owner-''"
  by (auto simp: new_owner_epoch_def done_simps simp del: append.simps)







section \<open>The sample transaction is recovered\<close>










section \<open>The audit record\<close>















text \<open>With an arrow in the source path the record names another source and another destination.\<close>

lemma audit_rename_arrow:
  "split_first ''->'' (''a->b.ax'' @ ''->'' @ ''c.ax'') = (''a'', Some ''b.ax->c.ax'') \<and> validate_relative ''a->b.ax'' = Inr ()"
  by code_simp

end
