(* ===== verification/Bounded_Executor.thy ===== *)
theory Bounded_Executor
  imports Transactional_Workspace Agent_Task
begin

text \<open>
  The executor of one approved task, \<open>bounded_executor.rs\<close>: its sealed state, the hash chain of its
  events, the budgets, the single edit it can make through a workspace transaction, and the
  verification and delivery evidence that resolve a task. The SHA-256 and HMAC crates and the JSON
  codec are the fields of a record. A method maps the executor, or the executor together with the
  workspace, to an outcome and to what it leaves of them.
\<close>

unbundle bit_operations_syntax

section \<open>Data\<close>

datatype execution_mode = Deterministic | Assisted

datatype execution_state =
    Planned | DryRun | Edited | EvidenceFailed | VerificationPassed | Resolved | RolledBack | Rejected | Escalated | Interrupted

datatype failure_cause = Code | Evidence | Environment | Conflict | Policy | Unknown

datatype rollback_outcome = NotRequired | Succeeded | RollbackFailed

datatype verdict_status = VerdictPassed | VerdictFailed

record budget_usage =
  bu_time_seconds :: u64
  bu_tokens :: u64
  bu_retries :: u32
  bu_cost_usd_micros :: u64

record executor_budgets =
  eb_limits :: budgets
  eb_consumed :: budget_usage

record replace_text_proposal =
  rt_path :: string
  rt_expected_before_digest :: string
  rt_find :: string
  rt_replacement :: string
  rt_candidate_digest :: string

record execution_failure =
  ef_cause :: failure_cause
  ef_fingerprint :: string
  ef_message :: string
  ef_attempt :: u32

record execution_event =
  ev_sequence :: u64
  ev_kind :: string
  ev_detail :: string
  ev_state :: execution_state
  ev_budget_usage :: budget_usage
  ev_candidate_digest :: "string option"
  ev_previous_digest :: string
  ev_event_digest :: string

record signed_delivery_evidence =
  de_provider_id :: string
  de_candidate_digest :: string
  de_plan_digest :: string
  de_delivered_head_sha :: string
  de_transaction_id :: string
  de_policy_digest :: string
  de_fetched_at_epoch_seconds :: u64
  de_required_checks_passed :: bool
  de_review_satisfied :: bool
  de_conversations_resolved :: bool
  de_evidence_mac :: string

record executor_seal_key =
  sk_key_id :: string
  sk_secret :: "byte list"

record delivery_evidence_key =
  dk_provider_id :: string
  dk_secret :: "byte list"

record delivery_evidence_provider =
  tp_key :: delivery_evidence_key
  tp_max_age_seconds :: u64

record candidate_binding =
  cb_candidate_digest :: string
  cb_delivered_head_sha :: string
  cb_transaction_id :: string
  cb_policy_digest :: string
  cb_plan_digest :: string
  cb_binding_digest :: string

record retry_policy =
  ry_approved_causes :: "failure_cause list"

record verification_verdict =
  vv_schema_version :: string
  vv_plan_digest :: string
  vv_status :: verdict_status
  vv_source_head_sha :: string
  vv_delivered_head_sha :: string
  vv_missing :: "string list"
  vv_duplicate :: "string list"
  vv_invalid :: "string list"
  vv_failed :: "string list"

record executor_request =
  rq_schema_version :: string
  rq_task_contract_digest :: string
  rq_transaction_id :: string
  rq_transaction_digest :: string
  rq_base_sha :: string
  rq_mode :: execution_mode
  rq_dry_run :: bool
  rq_budgets :: budgets
  rq_retry_policy :: retry_policy
  rq_proposal :: "replace_text_proposal option"

record executor_resume_request =
  rr_schema_version :: string
  rr_executor_state_mac :: string
  rr_seal_key_id :: string
  rr_task_contract_digest :: string
  rr_transaction_id :: string
  rr_transaction_digest :: string
  rr_candidate_digest :: "string option"
  rr_remaining_budgets :: budget_usage
  rr_next_event_sequence :: u64

record bounded_executor =
  bx_schema_version :: string
  bx_task_contract_digest :: string
  bx_base_sha :: string
  bx_dry_run :: bool
  bx_state :: execution_state
  bx_budgets :: executor_budgets
  bx_proposal :: "replace_text_proposal option"
  bx_candidate_digest :: "string option"
  bx_verification :: "verification_verdict option"
  bx_candidate_binding :: "candidate_binding option"
  bx_delivery :: "signed_delivery_evidence option"
  bx_transaction_id :: "string option"
  bx_policy_digest :: "string option"
  bx_rollback :: rollback_outcome
  bx_failures :: "execution_failure list"
  bx_events :: "execution_event list"
  bx_state_digest :: string
  bx_seal_key_id :: string
  bx_seal_mac :: string
  bx_seal_key :: "executor_seal_key option"
  bx_retry_policy :: retry_policy
  bx_allowed_files :: "string list"
  bx_repair_allowed_files :: "string list option"
  bx_interrupted_from :: "execution_state option"

section \<open>Digests and keys\<close>

text \<open>
  \<open>xc_sha256\<close> and \<open>xc_hmac\<close> are the crates; the other fields encode and decode JSON. The event is
  encoded as the tuple that the source builds of it.
\<close>

type_synonym event_tuple = "u64 \<times> string \<times> string \<times> execution_state \<times> budget_usage \<times> string option \<times> string"

record executor_codec =
  xc_sha256 :: "byte list \<Rightarrow> byte list"
  xc_hmac :: "byte list \<Rightarrow> byte list \<Rightarrow> byte list"
  xc_event :: "event_tuple \<Rightarrow> (string, byte list) result"
  xc_evidence :: "signed_delivery_evidence \<Rightarrow> (string, byte list) result"
  xc_executor :: "bounded_executor \<Rightarrow> (string, byte list) result"
  xc_parse_executor :: "byte list \<Rightarrow> (string, bounded_executor) result"
  xc_parse_request :: "byte list \<Rightarrow> (string, executor_request) result"
  xc_parse_resume :: "byte list \<Rightarrow> (string, executor_resume_request) result"

definition executor_schema_version :: string where "executor_schema_version = ''axiom.bounded_executor.v0''"
definition request_schema_version :: string where "request_schema_version = ''axiom.executor_request.v0''"
definition resume_schema_version :: string where "resume_schema_version = ''axiom.executor_resume.v0''"
definition verdict_schema_version :: string where "verdict_schema_version = ''axiom.verification_verdict.v0''"

definition hex_bytes :: "byte list \<Rightarrow> string" where
  "hex_bytes bytes = concat (map (\<lambda>b. [hex_digit (unat b div 16), hex_digit (unat b mod 16)]) bytes)"

definition constant_time_eq :: "byte list \<Rightarrow> byte list \<Rightarrow> bool" where
  "constant_time_eq left right \<longleftrightarrow>
     length left = length right \<and> fold (\<lambda>(a, b) diff. diff OR (a XOR b)) (zip left right) (0 :: byte) = 0"

datatype hmac_domain = DeliveryEvidenceV0 | ExecutorStateV0

fun domain_bytes :: "hmac_domain \<Rightarrow> byte list" where
  "domain_bytes DeliveryEvidenceV0 = str_bytes ''axiom-delivery-evidence-v0''"
| "domain_bytes ExecutorStateV0 = str_bytes ''axiom-executor-state-v0''"

definition ex_digest :: "executor_codec \<Rightarrow> byte list \<Rightarrow> string" where
  "ex_digest xc bytes = ''sha256:'' @ hex_bytes (xc_sha256 xc bytes)"

definition empty_digest :: "executor_codec \<Rightarrow> string" where
  "empty_digest xc = ex_digest xc []"

definition hmac_digest :: "executor_codec \<Rightarrow> byte list \<Rightarrow> hmac_domain \<Rightarrow> byte list \<Rightarrow> string" where
  "hmac_digest xc key domain payload =
     ''hmac-sha256:'' @ hex_bytes (xc_hmac xc key (domain_bytes domain @ 0 # payload))"

definition hmac_matches :: "executor_codec \<Rightarrow> byte list \<Rightarrow> hmac_domain \<Rightarrow> byte list \<Rightarrow> string \<Rightarrow> bool" where
  "hmac_matches xc key domain payload provided \<longleftrightarrow>
     starts_with provided ''hmac-sha256:''
     \<and> constant_time_eq (str_bytes (hmac_digest xc key domain payload)) (str_bytes provided)"

definition event_digest :: "executor_codec \<Rightarrow> execution_event \<Rightarrow> string \<Rightarrow> (string, string) result" where
  "event_digest xc event previous =
     rbind (xc_event xc (ev_sequence event, ev_kind event, ev_detail event, ev_state event,
         ev_budget_usage event, ev_candidate_digest event, previous)) (\<lambda>snapshot.
       Inr (ex_digest xc snapshot))"

definition candidate_binding_digest :: "executor_codec \<Rightarrow> string \<Rightarrow> string \<Rightarrow> string \<Rightarrow> string \<Rightarrow> string \<Rightarrow> string" where
  "candidate_binding_digest xc candidate head transaction policy plan =
     ex_digest xc (str_bytes (nul_join [candidate, head, transaction, policy, plan]))"

definition new_binding :: "executor_codec \<Rightarrow> string \<Rightarrow> string \<Rightarrow> string \<Rightarrow> string \<Rightarrow> string \<Rightarrow> candidate_binding" where
  "new_binding xc candidate head transaction policy plan =
     \<lparr>cb_candidate_digest = candidate, cb_delivered_head_sha = head, cb_transaction_id = transaction,
      cb_policy_digest = policy, cb_plan_digest = plan,
      cb_binding_digest = candidate_binding_digest xc candidate head transaction policy plan\<rparr>"

definition key_char :: "char \<Rightarrow> bool" where
  "key_char c \<longleftrightarrow> CHR ''a'' \<le> c \<and> c \<le> CHR ''z'' \<or> is_ascii_digit c \<or> c \<in> set ''._-''"

definition validate_key :: "string \<Rightarrow> byte list \<Rightarrow> (string, unit) result" where
  "validate_key key_id secret =
     (if key_id = '''' \<or> 64 < length key_id \<or> \<not> list_all key_char key_id
      then Inl ''key ID must be 1-64 canonical lowercase ASCII characters''
      else if length secret < 32 then Inl ''authentication keys must contain at least 32 bytes''
      else Inr ())"

definition seal_key_from_secret :: "string \<Rightarrow> byte list \<Rightarrow> (string, executor_seal_key) result" where
  "seal_key_from_secret key_id secret =
     rbind (validate_key key_id secret) (\<lambda>_. Inr \<lparr>sk_key_id = key_id, sk_secret = secret\<rparr>)"

definition evidence_key_from_secret :: "string \<Rightarrow> byte list \<Rightarrow> (string, delivery_evidence_key) result" where
  "evidence_key_from_secret provider_id secret =
     rbind (validate_key provider_id secret) (\<lambda>_. Inr \<lparr>dk_provider_id = provider_id, dk_secret = secret\<rparr>)"

definition sign_evidence :: "executor_codec \<Rightarrow> delivery_evidence_key \<Rightarrow> signed_delivery_evidence \<Rightarrow> (string, signed_delivery_evidence) result" where
  "sign_evidence xc key evidence =
     (if de_provider_id evidence \<noteq> dk_provider_id key then Inl ''delivery provider ID mismatch''
      else rbind (xc_evidence xc (evidence\<lparr>de_evidence_mac := ''''\<rparr>)) (\<lambda>bytes.
        Inr (evidence\<lparr>de_evidence_mac := hmac_digest xc (dk_secret key) DeliveryEvidenceV0 bytes\<rparr>)))"

definition new_provider :: "delivery_evidence_key \<Rightarrow> u64 \<Rightarrow> (string, delivery_evidence_provider) result" where
  "new_provider key max_age_seconds =
     (if max_age_seconds = 0 then Inl ''delivery evidence freshness window must be positive''
      else Inr \<lparr>tp_key = key, tp_max_age_seconds = max_age_seconds\<rparr>)"

text \<open>The clock is \<open>None\<close> when it is before the Unix epoch.\<close>

definition verify_evidence ::
  "executor_codec \<Rightarrow> u64 option \<Rightarrow> delivery_evidence_provider \<Rightarrow> signed_delivery_evidence \<Rightarrow> (string, unit) result" where
  "verify_evidence xc clock provider evidence =
     (if de_provider_id evidence \<noteq> dk_provider_id (tp_key provider) then Inl ''untrusted delivery evidence provider''
      else rbind (xc_evidence xc (evidence\<lparr>de_evidence_mac := ''''\<rparr>)) (\<lambda>bytes.
        if \<not> hmac_matches xc (dk_secret (tp_key provider)) DeliveryEvidenceV0 bytes (de_evidence_mac evidence)
        then Inl ''delivery evidence MAC mismatch''
        else (case clock of
            None \<Rightarrow> Inl ''system clock is before the Unix epoch''
          | Some now \<Rightarrow>
              if now < de_fetched_at_epoch_seconds evidence
                \<or> tp_max_age_seconds provider < now - de_fetched_at_epoch_seconds evidence
              then Inl ''delivery evidence is stale or future-dated''
              else if \<not> de_required_checks_passed evidence \<or> \<not> de_review_satisfied evidence
                \<or> \<not> de_conversations_resolved evidence
              then Inl ''delivery evidence is not satisfactory''
              else Inr ())))"

section \<open>The sealed state\<close>

type_synonym 'a ex_m = "(bounded_executor, string, 'a) rust_m"

definition compute_seal :: "executor_codec \<Rightarrow> bounded_executor \<Rightarrow> (string, string) result" where
  "compute_seal xc x =
     (case bx_seal_key x of
        None \<Rightarrow> Inl ''executor seal key is unavailable''
      | Some key \<Rightarrow>
          if sk_key_id key \<noteq> bx_seal_key_id x then Inl ''executor seal key ID mismatch''
          else rbind (xc_executor xc (x\<lparr>bx_seal_mac := ''''\<rparr>)) (\<lambda>bytes.
            Inr (hmac_digest xc (sk_secret key) ExecutorStateV0 bytes)))"

definition ex_record :: "executor_codec \<Rightarrow> string \<Rightarrow> string \<Rightarrow> unit ex_m" where
  "ex_record xc kind detail =
     sbind (sget (\<lambda>x. x)) (\<lambda>x.
       let event = \<lparr>ev_sequence = of_nat (length (bx_events x)), ev_kind = kind, ev_detail = detail,
             ev_state = bx_state x, ev_budget_usage = eb_consumed (bx_budgets x),
             ev_candidate_digest = bx_candidate_digest x, ev_previous_digest = bx_state_digest x, ev_event_digest = ''''\<rparr> in
       sbind (of_result (event_digest xc event (ev_previous_digest event))) (\<lambda>d.
       sbind (smodify (\<lambda>x. x\<lparr>bx_events := bx_events x @ [event\<lparr>ev_event_digest := d\<rparr>], bx_state_digest := d\<rparr>)) (\<lambda>_.
       sbind (sget (compute_seal xc)) (\<lambda>seal.
       sbind (of_result seal) (\<lambda>mac.
         smodify (\<lambda>x. x\<lparr>bx_seal_mac := mac\<rparr>))))))"

definition usage_less :: "budget_usage \<Rightarrow> budget_usage \<Rightarrow> bool" where
  "usage_less usage prior \<longleftrightarrow>
     bu_time_seconds usage < bu_time_seconds prior \<or> bu_tokens usage < bu_tokens prior
     \<or> bu_retries usage < bu_retries prior \<or> bu_cost_usd_micros usage < bu_cost_usd_micros prior"

definition no_usage :: budget_usage where
  "no_usage = \<lparr>bu_time_seconds = 0, bu_tokens = 0, bu_retries = 0, bu_cost_usd_micros = 0\<rparr>"

text \<open>The loop over the events returns the digest of the last one.\<close>

fun chain_loop :: "executor_codec \<Rightarrow> nat \<Rightarrow> string \<Rightarrow> budget_usage \<Rightarrow> execution_event list \<Rightarrow> (string, string) result" where
  "chain_loop xc index previous prior_usage [] = Inr previous"
| "chain_loop xc index previous prior_usage (event # events) =
     (if ev_sequence event \<noteq> of_nat index \<or> ev_previous_digest event \<noteq> previous
      then Inl ''executor event chain is discontinuous''
      else if usage_less (ev_budget_usage event) prior_usage then Inl ''executor event budgets are not monotonic''
      else rbind (event_digest xc event previous) (\<lambda>expected.
        if ev_event_digest event \<noteq> expected then Inl ''executor event digest mismatch''
        else chain_loop xc (Suc index) expected (ev_budget_usage event) events))"

definition last_event :: "bounded_executor \<Rightarrow> execution_event option" where
  "last_event x = (if bx_events x = [] then None else Some (last (bx_events x)))"

definition validate_chain :: "executor_codec \<Rightarrow> bounded_executor \<Rightarrow> (string, unit) result" where
  "validate_chain xc x =
     rbind (chain_loop xc 0 (empty_digest xc) no_usage (bx_events x)) (\<lambda>previous.
       if bx_state_digest x \<noteq> previous then Inl ''executor state digest mismatch''
       else (case last_event x of
           None \<Rightarrow> Inr ()
         | Some e \<Rightarrow>
             if ev_state e \<noteq> bx_state x \<or> ev_budget_usage e \<noteq> eb_consumed (bx_budgets x)
               \<or> ev_candidate_digest e \<noteq> bx_candidate_digest x
             then Inl ''executor state does not match its final chained snapshot''
             else Inr ()))"

definition validate_integrity :: "executor_codec \<Rightarrow> bounded_executor \<Rightarrow> (string, unit) result" where
  "validate_integrity xc x =
     rbind (validate_chain xc x) (\<lambda>_.
     rbind (compute_seal xc x) (\<lambda>expected.
       if \<not> constant_time_eq (str_bytes (bx_seal_mac x)) (str_bytes expected)
       then Inl ''executor authority-state seal mismatch'' else Inr ()))"

definition guard :: "executor_codec \<Rightarrow> unit ex_m" where
  "guard xc = sbind (sget (validate_integrity xc)) of_result"

section \<open>Guards and failures\<close>

fun show_state :: "execution_state \<Rightarrow> string" where
  "show_state Planned = ''Planned''"
| "show_state DryRun = ''DryRun''"
| "show_state Edited = ''Edited''"
| "show_state EvidenceFailed = ''EvidenceFailed''"
| "show_state VerificationPassed = ''VerificationPassed''"
| "show_state Resolved = ''Resolved''"
| "show_state RolledBack = ''RolledBack''"
| "show_state Rejected = ''Rejected''"
| "show_state Escalated = ''Escalated''"
| "show_state Interrupted = ''Interrupted''"

fun show_cause :: "failure_cause \<Rightarrow> string" where
  "show_cause Code = ''Code''"
| "show_cause Evidence = ''Evidence''"
| "show_cause Environment = ''Environment''"
| "show_cause Conflict = ''Conflict''"
| "show_cause Policy = ''Policy''"
| "show_cause Unknown = ''Unknown''"

definition require_state :: "execution_state \<Rightarrow> unit ex_m" where
  "require_state expected =
     sbind (sget bx_state) (\<lambda>state.
       if state = expected then sret () else sfail (''executor must be in '' @ show_state expected @ '' state''))"

definition terminal :: "execution_state \<Rightarrow> bool" where
  "terminal state \<longleftrightarrow> state \<in> {Resolved, RolledBack, Rejected, Escalated}"

definition ensure_nonterminal :: "unit ex_m" where
  "ensure_nonterminal = sbind (sget bx_state) (\<lambda>state. if terminal state then sfail ''executor is terminal'' else sret ())"

text \<open>\<open>let _ = \<dots>\<close>: the error is dropped and its mutations stay.\<close>

definition ignoring :: "('s, 'e, 'a) rust_m \<Rightarrow> ('s, 'e, unit) rust_m" where
  "ignoring m = sbind (attempt m) (\<lambda>_. sret ())"

definition set_ex_state :: "execution_state \<Rightarrow> unit ex_m" where
  "set_ex_state state = smodify (\<lambda>x. x\<lparr>bx_state := state\<rparr>)"

definition push_failure :: "execution_failure \<Rightarrow> unit ex_m" where
  "push_failure failure = smodify (\<lambda>x. x\<lparr>bx_failures := bx_failures x @ [failure]\<rparr>)"

definition reject :: "executor_codec \<Rightarrow> string \<Rightarrow> 'a ex_m" where
  "reject xc message =
     sbind (set_ex_state Rejected) (\<lambda>_.
     sbind (sget (\<lambda>x. bu_retries (eb_consumed (bx_budgets x)))) (\<lambda>retries.
     sbind (push_failure \<lparr>ef_cause = Policy, ef_fingerprint = ex_digest xc (str_bytes message), ef_message = message,
         ef_attempt = retries\<rparr>) (\<lambda>_.
     sbind (ignoring (ex_record xc ''rejected'' message)) (\<lambda>_.
       sfail message))))"

definition exceeds :: "budget_usage \<Rightarrow> budgets \<Rightarrow> bool" where
  "exceeds usage limits \<longleftrightarrow>
     bg_time_seconds limits < bu_time_seconds usage \<or> bg_tokens limits < bu_tokens usage
     \<or> bg_retries limits < bu_retries usage \<or> bg_cost_usd_micros limits < bu_cost_usd_micros usage"

definition checked :: "'a option \<Rightarrow> string \<Rightarrow> (string, 'a) result" where
  "checked v message = (case v of None \<Rightarrow> Inl message | Some a \<Rightarrow> Inr a)"

definition add_usage :: "budget_usage \<Rightarrow> budget_usage \<Rightarrow> (string, budget_usage) result" where
  "add_usage consumed usage =
     rbind (checked (word_checked_add (bu_time_seconds consumed) (bu_time_seconds usage)) ''time budget overflow'') (\<lambda>time.
     rbind (checked (word_checked_add (bu_tokens consumed) (bu_tokens usage)) ''token budget overflow'') (\<lambda>tokens.
     rbind (checked (word_checked_add (bu_retries consumed) (bu_retries usage)) ''retry budget overflow'') (\<lambda>retries.
     rbind (checked (word_checked_add (bu_cost_usd_micros consumed) (bu_cost_usd_micros usage)) ''cost budget overflow'') (\<lambda>cost.
       Inr \<lparr>bu_time_seconds = time, bu_tokens = tokens, bu_retries = retries, bu_cost_usd_micros = cost\<rparr>))))"

definition set_consumed :: "budget_usage \<Rightarrow> unit ex_m" where
  "set_consumed usage = smodify (\<lambda>x. x\<lparr>bx_budgets := (bx_budgets x)\<lparr>eb_consumed := usage\<rparr>\<rparr>)"

definition charge_budget :: "executor_codec \<Rightarrow> budget_usage \<Rightarrow> unit ex_m" where
  "charge_budget xc usage =
     sbind (guard xc) (\<lambda>_.
     sbind ensure_nonterminal (\<lambda>_.
     sbind (sget bx_budgets) (\<lambda>b.
     sbind (of_result (add_usage (eb_consumed b) usage)) (\<lambda>total.
       if exceeds total (eb_limits b)
       then sbind (set_ex_state Escalated) (\<lambda>_.
         sbind (ex_record xc ''budget_exhausted'' ''execution'') (\<lambda>_.
           sfail ''execution budget exhausted; escalation required''))
       else sbind (set_consumed total) (\<lambda>_. ex_record xc ''budget_charged'' ''execution'')))))"

definition u32_saturating_succ :: "u32 \<Rightarrow> u32" where
  "u32_saturating_succ n = (case word_checked_add n 1 of None \<Rightarrow> n | Some m \<Rightarrow> m)"

definition failure_fingerprint :: "executor_codec \<Rightarrow> failure_cause \<Rightarrow> string \<Rightarrow> string \<Rightarrow> string" where
  "failure_fingerprint xc cause code message = ex_digest xc (str_bytes (nul_join [show_cause cause, code, message]))"

definition retry_failure :: "executor_codec \<Rightarrow> failure_cause \<Rightarrow> string \<Rightarrow> string \<Rightarrow> unit ex_m" where
  "retry_failure xc cause code message =
     sbind (guard xc) (\<lambda>_.
     sbind ensure_nonterminal (\<lambda>_.
     sbind (sget (\<lambda>x. x)) (\<lambda>x.
       let fingerprint = failure_fingerprint xc cause code message;
           repeated = bx_failures x \<noteq> [] \<and> ef_fingerprint (last (bx_failures x)) = fingerprint;
           retries = bu_retries (eb_consumed (bx_budgets x)) in
       sbind (push_failure \<lparr>ef_cause = cause, ef_fingerprint = fingerprint, ef_message = message,
           ef_attempt = u32_saturating_succ retries\<rparr>) (\<lambda>_.
         if cause \<in> {Unknown, Policy} \<or> cause \<notin> set (ry_approved_causes (bx_retry_policy x)) \<or> repeated
         then sbind (set_ex_state Escalated) (\<lambda>_.
           sbind (ex_record xc ''failure_escalated'' code) (\<lambda>_.
             sfail ''failure requires escalation''))
         else sbind (of_result (checked (word_checked_add retries 1) ''retry budget overflow'')) (\<lambda>attempts.
           if bg_retries (eb_limits (bx_budgets x)) < attempts
           then sbind (set_ex_state Escalated) (\<lambda>_.
             sbind (ex_record xc ''budget_exhausted'' ''retry'') (\<lambda>_.
               sfail ''execution retry budget exhausted; escalation required''))
           else sbind (set_consumed ((eb_consumed (bx_budgets x))\<lparr>bu_retries := attempts\<rparr>)) (\<lambda>_.
             ex_record xc ''retry_approved'' code))))))"

definition failure_error :: "executor_codec \<Rightarrow> failure_cause \<Rightarrow> string \<Rightarrow> string \<Rightarrow> string ex_m" where
  "failure_error xc cause code message = sbind (ignoring (retry_failure xc cause code message)) (\<lambda>_. sret message)"

text \<open>\<open>return Err(self.failure_error(\<dots>))\<close>.\<close>

definition fail_recorded :: "executor_codec \<Rightarrow> failure_cause \<Rightarrow> string \<Rightarrow> string \<Rightarrow> 'a ex_m" where
  "fail_recorded xc cause code message = sbind (failure_error xc cause code message) sfail"

definition canonical_relative :: "string \<Rightarrow> bool" where
  "canonical_relative path \<longleftrightarrow>
     path \<noteq> '''' \<and> \<not> starts_with path ''/''
     \<and> list_all (\<lambda>part. part \<noteq> '''' \<and> part \<noteq> ''.'' \<and> part \<noteq> ''..'') (split_on CHR ''/'' path)"

definition outside_repair :: "string list option \<Rightarrow> string \<Rightarrow> bool" where
  "outside_repair repair path \<longleftrightarrow> (case repair of None \<Rightarrow> False | Some allowed \<Rightarrow> path \<notin> set allowed)"

definition authorize_path :: "executor_codec \<Rightarrow> string \<Rightarrow> unit ex_m" where
  "authorize_path xc path =
     sbind (sget (\<lambda>x. x)) (\<lambda>x.
       if \<not> canonical_relative path \<or> path \<notin> set (bx_allowed_files x)
       then reject xc ''proposal path is outside the task allowed_files''
       else if outside_repair (bx_repair_allowed_files x) path
       then reject xc ''proposal path is outside the repair-plan allowed_files''
       else sret ())"

definition validate_workspace :: "executor_codec \<Rightarrow> transaction_state \<Rightarrow> unit ex_m" where
  "validate_workspace xc state =
     sbind (sget (\<lambda>x. x)) (\<lambda>x.
       if tx_task_contract_digest state \<noteq> bx_task_contract_digest x
       then reject xc ''workspace is bound to another task contract''
       else if tx_base_sha state \<noteq> bx_base_sha x then reject xc ''workspace is bound to another base SHA''
       else if tx_phase state \<noteq> Active then reject xc ''workspace transaction is not active''
       else if (case bx_transaction_id x of None \<Rightarrow> False
           | Some transaction_id \<Rightarrow> transaction_id \<noteq> tx_transaction_id state \<or> bx_policy_digest x \<noteq> Some (tx_policy_digest state))
       then reject xc ''workspace no longer matches the sealed transaction binding''
       else if wp_network (tx_policy state) then reject xc ''workspace policy grants forbidden network authority''
       else if wp_commands (tx_policy state) \<noteq> [] then reject xc ''workspace policy grants unsupported command authority''
       else if list_ex (\<lambda>path. path \<notin> set (bx_allowed_files x)) (wp_write_paths (tx_policy state))
       then reject xc ''workspace write policy exceeds the task allowed_files''
       else if list_ex (outside_repair (bx_repair_allowed_files x)) (wp_write_paths (tx_policy state))
       then reject xc ''workspace write policy exceeds the repair allowed_files''
       else sret ())"

section \<open>Proposals, evidence and recovery of the executor alone\<close>

definition candidate_text :: "replace_text_proposal \<Rightarrow> string \<Rightarrow> byte list" where
  "candidate_text proposal source = str_bytes (replace_first source (rt_find proposal) (rt_replacement proposal))"

definition propose_replace ::
  "executor_codec \<Rightarrow> string \<Rightarrow> byte list \<Rightarrow> string \<Rightarrow> string \<Rightarrow> replace_text_proposal ex_m" where
  "propose_replace xc path current find_text replacement =
     sbind (guard xc) (\<lambda>_.
     sbind (require_state Planned) (\<lambda>_.
     sbind (authorize_path xc path) (\<lambda>_.
       if find_text = '''' then reject xc ''replacement search text must not be empty''
       else (case from_utf8 current of
           None \<Rightarrow> sfail ''replace-text proposals require UTF-8 input''
         | Some source \<Rightarrow>
             if count_matches source find_text \<noteq> 1
             then reject xc ''replacement search text must occur exactly once''
             else
               let proposal = \<lparr>rt_path = path, rt_expected_before_digest = ex_digest xc current, rt_find = find_text,
                     rt_replacement = replacement,
                     rt_candidate_digest = ex_digest xc (str_bytes (replace_first source find_text replacement))\<rparr> in
               sbind (smodify (\<lambda>x. x\<lparr>bx_proposal := Some proposal, bx_candidate_digest := Some (rt_candidate_digest proposal)\<rparr>)) (\<lambda>_.
               sbind (sget bx_dry_run) (\<lambda>dry.
               sbind (if dry then set_ex_state DryRun else sret ()) (\<lambda>_.
               sbind (ex_record xc ''proposal_validated'' path) (\<lambda>_.
                 sret proposal))))))))"

definition bind_transaction :: "executor_codec \<Rightarrow> transaction_state \<Rightarrow> unit ex_m" where
  "bind_transaction xc state =
     sbind (guard xc) (\<lambda>_.
     sbind (require_state Planned) (\<lambda>_.
     sbind (validate_workspace xc state) (\<lambda>_.
     sbind (smodify (\<lambda>x. x\<lparr>bx_transaction_id := Some (tx_transaction_id state), bx_policy_digest := Some (tx_policy_digest state)\<rparr>)) (\<lambda>_.
       ex_record xc ''transaction_bound'' (tx_transaction_id state)))))"

definition ex_interrupt :: "executor_codec \<Rightarrow> unit ex_m" where
  "ex_interrupt xc =
     sbind (guard xc) (\<lambda>_.
     sbind ensure_nonterminal (\<lambda>_.
     sbind (sget bx_state) (\<lambda>prior.
       if prior = Interrupted then sfail ''executor is already interrupted''
       else sbind (smodify (\<lambda>x. x\<lparr>bx_interrupted_from := Some prior, bx_state := Interrupted\<rparr>)) (\<lambda>_.
         ex_record xc ''interrupted'' (show_state prior)))))"

definition ex_resume :: "executor_codec \<Rightarrow> unit ex_m" where
  "ex_resume xc =
     sbind (guard xc) (\<lambda>_.
     sbind (require_state Interrupted) (\<lambda>_.
     sbind (sget bx_interrupted_from) (\<lambda>prior.
     sbind (smodify (\<lambda>x. x\<lparr>bx_interrupted_from := None\<rparr>)) (\<lambda>_.
     sbind (of_result (checked prior ''interrupted executor is missing its prior state'')) (\<lambda>restored.
     sbind (set_ex_state restored) (\<lambda>_.
       ex_record xc ''resumed'' ''execution''))))))"

definition ex_validate_sha :: "string \<Rightarrow> (string, unit) result" where
  "ex_validate_sha value =
     (if is_sha value then Inr () else Inl ''base SHA must be 40 lowercase hexadecimal characters'')"

definition ex_validate_digest :: "string \<Rightarrow> (string, unit) result" where
  "ex_validate_digest value =
     (if is_digest value then Inr () else Inl ''digest must use sha256:<64 lowercase hex> form'')"

definition any_delivery :: "delivery_permissions \<Rightarrow> bool" where
  "any_delivery d \<longleftrightarrow>
     dp_commit d \<or> dp_push d \<or> dp_pull_request d \<or> dp_merge d \<or> dp_review d \<or> dp_deploy d
     \<or> dp_approve_own_pull_request d \<or> dp_force_push d \<or> dp_direct_push_protected d \<or> dp_irreversible_actions d"

text \<open>The JSON encoder of the contract is an argument, as it is for the compiler of tasks.\<close>

definition validate_contract ::
  "executor_codec \<Rightarrow> ('v agent_task_contract \<Rightarrow> string + byte list) \<Rightarrow> 'v agent_task_contract \<Rightarrow> (string, unit) result" where
  "validate_contract xc to_json contract =
     (if ct_schema_version contract \<noteq> task_schema_version then Inl ''unsupported agent task contract schema''
      else rbind (ex_validate_digest (ct_contract_digest contract)) (\<lambda>_.
      rbind (to_json (contract\<lparr>ct_contract_digest := ''''\<rparr>)) (\<lambda>encoded.
        if ex_digest xc encoded \<noteq> ct_contract_digest contract then Inl ''agent task contract digest mismatch''
        else if sp_allowed_files (ct_scope contract) = [] then Inl ''task has no allowed files''
        else if (case ct_repair_plan contract of None \<Rightarrow> False
            | Some repair \<Rightarrow> rpl_allowed_files repair = []
                \<or> list_ex (\<lambda>path. path \<notin> set (sp_allowed_files (ct_scope contract))) (rpl_allowed_files repair))
        then Inl ''repair-plan scope is not a non-empty task-scope subset''
        else if any_delivery (ct_delivery_permissions contract)
        then Inl ''bounded executor refuses delivery or irreversible authority''
        else Inr ())))"

definition validate_retry_policy :: "retry_policy \<Rightarrow> (string, unit) result" where
  "validate_retry_policy policy =
     (if list_ex (\<lambda>cause. cause \<in> {Unknown, Policy}) (ry_approved_causes policy)
      then Inl ''unknown and policy failures may never be approved for retry''
      else if length (remdups_adj (sort_key show_cause (ry_approved_causes policy))) \<noteq> length (ry_approved_causes policy)
      then Inl ''retry policy contains duplicate causes''
      else Inr ())"

definition authorized_retry_causes :: "'v agent_task_contract \<Rightarrow> failure_cause list" where
  "authorized_retry_causes contract =
     map snd (filter (\<lambda>(name, cause). name \<in> set (ps_required (ct_capabilities contract)))
       [(''executor.retry.code'', Code), (''executor.retry.evidence'', Evidence),
        (''executor.retry.environment'', Environment), (''executor.retry.conflict'', Conflict)])"

definition planned_executor :: "executor_codec \<Rightarrow> 'v agent_task_contract \<Rightarrow> string \<Rightarrow> bool \<Rightarrow> retry_policy \<Rightarrow> executor_seal_key \<Rightarrow> bounded_executor" where
  "planned_executor xc contract base_sha dry_run policy seal_key =
     \<lparr>bx_schema_version = executor_schema_version, bx_task_contract_digest = ct_contract_digest contract,
      bx_base_sha = base_sha, bx_dry_run = dry_run, bx_state = Planned,
      bx_budgets = \<lparr>eb_limits = ct_budgets contract, eb_consumed = no_usage\<rparr>,
      bx_proposal = None, bx_candidate_digest = None, bx_verification = None, bx_candidate_binding = None,
      bx_delivery = None, bx_transaction_id = None, bx_policy_digest = None, bx_rollback = NotRequired,
      bx_failures = [], bx_events = [], bx_state_digest = empty_digest xc, bx_seal_key_id = sk_key_id seal_key,
      bx_seal_mac = '''', bx_seal_key = Some seal_key, bx_retry_policy = policy,
      bx_allowed_files = sp_allowed_files (ct_scope contract),
      bx_repair_allowed_files = map_option rpl_allowed_files (ct_repair_plan contract), bx_interrupted_from = None\<rparr>"

text \<open>Run a method on an executor and hand out the executor and the value.\<close>

definition building :: "'a ex_m \<Rightarrow> bounded_executor \<Rightarrow> ('s, string, bounded_executor \<times> 'a) rust_m" where
  "building m x s =
     (case m x of
        (Done a, x') \<Rightarrow> (Done (x', a), s)
      | (Fail e, _) \<Rightarrow> (Fail e, s)
      | (Panicked, _) \<Rightarrow> (Panicked, s)
      | (OutOfFuel, _) \<Rightarrow> (OutOfFuel, s))"

definition new_with_retry_policy ::
  "executor_codec \<Rightarrow> ('v agent_task_contract \<Rightarrow> string + byte list) \<Rightarrow> 'v agent_task_contract \<Rightarrow> string \<Rightarrow> bool \<Rightarrow>
    retry_policy \<Rightarrow> executor_seal_key \<Rightarrow> ('s, string, bounded_executor) rust_m" where
  "new_with_retry_policy xc to_json contract base_sha dry_run policy seal_key =
     sbind (of_result (ex_validate_sha base_sha)) (\<lambda>_.
     sbind (of_result (validate_contract xc to_json contract)) (\<lambda>_.
     sbind (of_result (validate_retry_policy policy)) (\<lambda>_.
       if list_ex (\<lambda>cause. cause \<notin> set (authorized_retry_causes contract)) (ry_approved_causes policy)
       then sfail ''retry policy is not authorized by the signed task contract''
       else if au_source_revision (ct_authority contract) \<noteq> base_sha
       then sfail ''task authority source_revision does not match executor base SHA''
       else sbind (building (ex_record xc ''planned'' (ct_id contract))
           (planned_executor xc contract base_sha dry_run policy seal_key)) (\<lambda>(x, _).
         sret x))))"

definition new_executor ::
  "executor_codec \<Rightarrow> ('v agent_task_contract \<Rightarrow> string + byte list) \<Rightarrow> 'v agent_task_contract \<Rightarrow> string \<Rightarrow> bool \<Rightarrow>
    executor_seal_key \<Rightarrow> ('s, string, bounded_executor) rust_m" where
  "new_executor xc to_json contract base_sha dry_run seal_key =
     new_with_retry_policy xc to_json contract base_sha dry_run \<lparr>ry_approved_causes = []\<rparr> seal_key"

definition parse_request :: "executor_codec \<Rightarrow> byte list \<Rightarrow> (string, executor_request) result" where
  "parse_request xc bytes =
     (case xc_parse_request xc bytes of
        Inl e \<Rightarrow> Inl (''invalid executor request: '' @ e)
      | Inr request \<Rightarrow>
          if rq_schema_version request \<noteq> request_schema_version then Inl ''unsupported executor request schema''
          else Inr request)"

definition parse_resume_request :: "executor_codec \<Rightarrow> byte list \<Rightarrow> (string, executor_resume_request) result" where
  "parse_resume_request xc bytes =
     (case xc_parse_resume xc bytes of
        Inl e \<Rightarrow> Inl (''invalid executor resume request: '' @ e)
      | Inr request \<Rightarrow>
          if rr_schema_version request \<noteq> resume_schema_version then Inl ''unsupported executor resume schema''
          else Inr request)"

definition from_request ::
  "executor_codec \<Rightarrow> ('v agent_task_contract \<Rightarrow> string + byte list) \<Rightarrow> executor_request \<Rightarrow> 'v agent_task_contract \<Rightarrow>
    transaction_state \<Rightarrow> byte list option \<Rightarrow> executor_seal_key \<Rightarrow> ('s, string, bounded_executor) rust_m" where
  "from_request xc to_json request contract state current seal_key =
     (if rq_schema_version request \<noteq> request_schema_version
        \<or> rq_task_contract_digest request \<noteq> ct_contract_digest contract
        \<or> rq_transaction_id request \<noteq> tx_transaction_id state
        \<or> rq_transaction_digest request \<noteq> tx_policy_digest state
        \<or> rq_base_sha request \<noteq> tx_base_sha state
        \<or> rq_budgets request \<noteq> ct_budgets contract \<or> rq_mode request \<noteq> Deterministic
      then sfail ''executor request exceeds or mismatches approved authority''
      else
        sbind (new_with_retry_policy xc to_json contract (rq_base_sha request) (rq_dry_run request)
            (rq_retry_policy request) seal_key) (\<lambda>x.
        sbind (building (bind_transaction xc state) x) (\<lambda>(x, _).
          (case (rq_proposal request, current) of
             (Some proposal, Some bytes) \<Rightarrow>
               sbind (building (propose_replace xc (rt_path proposal) bytes (rt_find proposal) (rt_replacement proposal)) x)
                 (\<lambda>(x, validated).
                   if validated \<noteq> proposal then sfail ''executor request proposal digest does not match observed bytes''
                   else sret x)
           | (None, None) \<Rightarrow> sret x
           | (Some _, None) \<Rightarrow> sfail ''replace-text request requires observed current bytes''
           | (None, Some _) \<Rightarrow> sfail ''current bytes supplied without a typed proposal''))))"

definition word_checked_sub :: "'w::len word \<Rightarrow> 'w word \<Rightarrow> 'w word option" where
  "word_checked_sub a b = (if b \<le> a then Some (a - b) else None)"

definition remaining_budgets :: "bounded_executor \<Rightarrow> (string, budget_usage) result" where
  "remaining_budgets x =
     (let limits = eb_limits (bx_budgets x); consumed = eb_consumed (bx_budgets x) in
      rbind (checked (word_checked_sub (bg_time_seconds limits) (bu_time_seconds consumed)) ''invalid time consumption'') (\<lambda>time.
      rbind (checked (word_checked_sub (bg_tokens limits) (bu_tokens consumed)) ''invalid token consumption'') (\<lambda>tokens.
      rbind (checked (word_checked_sub (bg_retries limits) (bu_retries consumed)) ''invalid retry consumption'') (\<lambda>retries.
      rbind (checked (word_checked_sub (bg_cost_usd_micros limits) (bu_cost_usd_micros consumed)) ''invalid cost consumption'') (\<lambda>cost.
        Inr \<lparr>bu_time_seconds = time, bu_tokens = tokens, bu_retries = retries, bu_cost_usd_micros = cost\<rparr>)))))"

definition resume_request :: "executor_codec \<Rightarrow> bounded_executor \<Rightarrow> (string, executor_resume_request) result" where
  "resume_request xc x =
     rbind (validate_integrity xc x) (\<lambda>_.
     rbind (checked (bx_transaction_id x) ''executor is not transaction-bound'') (\<lambda>transaction_id.
     rbind (checked (bx_policy_digest x) ''executor is not policy-bound'') (\<lambda>policy_digest.
     rbind (remaining_budgets x) (\<lambda>remaining.
       Inr \<lparr>rr_schema_version = resume_schema_version, rr_executor_state_mac = bx_seal_mac x,
         rr_seal_key_id = bx_seal_key_id x, rr_task_contract_digest = bx_task_contract_digest x,
         rr_transaction_id = transaction_id, rr_transaction_digest = policy_digest,
         rr_candidate_digest = bx_candidate_digest x, rr_remaining_budgets = remaining,
         rr_next_event_sequence = of_nat (length (bx_events x))\<rparr>))))"

definition recover_authority :: "'v agent_task_contract \<Rightarrow> transaction_state \<Rightarrow> bounded_executor \<Rightarrow> (string, unit) result" where
  "recover_authority contract state x =
     (if bx_schema_version x \<noteq> executor_schema_version
        \<or> bx_task_contract_digest x \<noteq> ct_contract_digest contract
        \<or> bx_base_sha x \<noteq> tx_base_sha state \<or> eb_limits (bx_budgets x) \<noteq> ct_budgets contract
        \<or> bx_allowed_files x \<noteq> sp_allowed_files (ct_scope contract)
        \<or> bx_repair_allowed_files x \<noteq> map_option rpl_allowed_files (ct_repair_plan contract)
      then Inl ''executor state authority does not match the approved task contract''
      else if tx_task_contract_digest state \<noteq> bx_task_contract_digest x
        \<or> bx_transaction_id x \<noteq> Some (tx_transaction_id state) \<or> bx_policy_digest x \<noteq> Some (tx_policy_digest state)
      then Inl ''executor recovery does not match the transaction binding''
      else if exceeds (eb_consumed (bx_budgets x)) (eb_limits (bx_budgets x))
      then Inl ''executor state contains widened budget consumption''
      else if bx_state x = Interrupted \<and> bx_interrupted_from x = None
      then Inl ''interrupted executor is missing its prior state''
      else if bx_state x \<noteq> Interrupted \<and> bx_interrupted_from x \<noteq> None
      then Inl ''non-interrupted executor contains stale recovery state''
      else Inr ())"

definition recover_proposal :: "bounded_executor \<Rightarrow> (string, unit) result" where
  "recover_proposal x =
     (case bx_proposal x of
        None \<Rightarrow> Inr ()
      | Some proposal \<Rightarrow>
          rbind (ex_validate_digest (rt_expected_before_digest proposal)) (\<lambda>_.
          rbind (ex_validate_digest (rt_candidate_digest proposal)) (\<lambda>_.
            if rt_path proposal \<notin> set (bx_allowed_files x) \<or> outside_repair (bx_repair_allowed_files x) (rt_path proposal)
            then Inl ''serialized proposal escapes approved task scope'' else Inr ())))"

definition recover_executor ::
  "executor_codec \<Rightarrow> ('v agent_task_contract \<Rightarrow> string + byte list) \<Rightarrow> byte list \<Rightarrow> executor_resume_request \<Rightarrow>
    'v agent_task_contract \<Rightarrow> transaction_state \<Rightarrow> executor_seal_key \<Rightarrow> (string, bounded_executor) result" where
  "recover_executor xc to_json bytes request contract state seal_key =
     rbind (validate_contract xc to_json contract) (\<lambda>_.
     rbind (ex_validate_sha (tx_base_sha state)) (\<lambda>_.
     (case xc_parse_executor xc bytes of
        Inl e \<Rightarrow> Inl (''invalid executor state: '' @ e)
      | Inr parsed \<Rightarrow>
          let x = parsed\<lparr>bx_seal_key := Some seal_key\<rparr> in
          if rr_schema_version request \<noteq> resume_schema_version \<or> rr_executor_state_mac request \<noteq> bx_seal_mac x
            \<or> rr_seal_key_id request \<noteq> bx_seal_key_id x \<or> rr_seal_key_id request \<noteq> sk_key_id seal_key
            \<or> rr_task_contract_digest request \<noteq> bx_task_contract_digest x
            \<or> rr_transaction_id request \<noteq> tx_transaction_id state
            \<or> rr_transaction_digest request \<noteq> tx_policy_digest state
            \<or> rr_candidate_digest request \<noteq> bx_candidate_digest x
          then Inl ''resume request does not match sealed executor state''
          else rbind (remaining_budgets x) (\<lambda>remaining.
            if rr_remaining_budgets request \<noteq> remaining \<or> rr_next_event_sequence request \<noteq> of_nat (length (bx_events x))
            then Inl ''resume request does not match sealed executor state''
            else rbind (recover_authority contract state x) (\<lambda>_.
              rbind (recover_proposal x) (\<lambda>_.
              rbind (validate_integrity xc x) (\<lambda>_. Inr x)))))))"

definition delivery_bound :: "signed_delivery_evidence \<Rightarrow> verification_verdict \<Rightarrow> candidate_binding \<Rightarrow> bool" where
  "delivery_bound evidence verification binding \<longleftrightarrow>
     de_plan_digest evidence = vv_plan_digest verification
     \<and> de_delivered_head_sha evidence = vv_delivered_head_sha verification
     \<and> de_transaction_id evidence = cb_transaction_id binding
     \<and> de_policy_digest evidence = cb_policy_digest binding \<and> is_sha (de_delivered_head_sha evidence)"

definition submit_delivery ::
  "executor_codec \<Rightarrow> u64 option \<Rightarrow> transaction_state \<Rightarrow> signed_delivery_evidence \<Rightarrow> delivery_evidence_provider \<Rightarrow> unit ex_m" where
  "submit_delivery xc clock state evidence provider =
     sbind (guard xc) (\<lambda>_.
     sbind (require_state VerificationPassed) (\<lambda>_.
     sbind (validate_workspace xc state) (\<lambda>_.
     sbind (case verify_evidence xc clock provider evidence of
         Inl e \<Rightarrow> fail_recorded xc Evidence ''delivery_provider'' e | Inr _ \<Rightarrow> sret ()) (\<lambda>_.
     sbind (sget (\<lambda>x. x)) (\<lambda>x.
       if bx_candidate_digest x \<noteq> Some (de_candidate_digest evidence)
       then fail_recorded xc Conflict ''delivery_candidate'' ''delivery verdict is bound to another candidate''
       else
     sbind (of_result (checked (bx_verification x) ''delivery recheck requires a verification verdict'')) (\<lambda>verification.
     sbind (of_result (checked (bx_candidate_binding x) ''delivery recheck requires a candidate binding'')) (\<lambda>binding.
       if \<not> delivery_bound evidence verification binding
       then fail_recorded xc Evidence ''delivery_binding'' ''delivery verdict is not bound to the verified plan and head''
       else
     sbind (smodify (\<lambda>x. x\<lparr>bx_delivery := Some evidence, bx_state := Resolved\<rparr>)) (\<lambda>_.
       ex_record xc ''resolved'' (de_candidate_digest evidence)))))))))"

section \<open>The executor and its workspace\<close>

type_synonym ('d, 'w, 'a) xw_m = "(bounded_executor \<times> 'd workspace \<times> 'w session, string, 'a) rust_m"

definition on_ex :: "'a ex_m \<Rightarrow> ('d, 'w, 'a) xw_m" where
  "on_ex m s = (case m (fst s) of (r, x) \<Rightarrow> (r, (x, snd s)))"

definition on_ws :: "('d, 'w, 'a) ws_m \<Rightarrow> ('d, 'w, 'a) xw_m" where
  "on_ws m s = (case m (snd s) of (r, w) \<Rightarrow> (r, (fst s, w)))"

text \<open>The executor methods that are given the workspace read its state only.\<close>

definition with_state :: "(transaction_state \<Rightarrow> 'a ex_m) \<Rightarrow> ('d, 'w, 'a) xw_m" where
  "with_state m = sbind (on_ws (the_state (\<lambda>st. st))) (\<lambda>st. on_ex (m st))"

text \<open>\<open>map_err\<close> with a closure that records the failure.\<close>

definition or_recorded :: "executor_codec \<Rightarrow> failure_cause \<Rightarrow> string \<Rightarrow> ('d, 'w, 'a) ws_m \<Rightarrow> ('d, 'w, 'a) xw_m" where
  "or_recorded xc cause code m =
     sbind (attempt (on_ws m)) (\<lambda>result.
       (case result of Inr a \<Rightarrow> sret a | Inl e \<Rightarrow> on_ex (fail_recorded xc cause code e)))"

definition apply_proposal :: "('d, 'w) os \<Rightarrow> workspace_codec \<Rightarrow> executor_codec \<Rightarrow> ('d, 'w, unit) xw_m" where
  "apply_proposal os js xc =
     sbind (on_ex (guard xc)) (\<lambda>_.
     sbind (on_ex (sget (\<lambda>x. x))) (\<lambda>x.
       if bx_dry_run x then sfail ''dry-run is side-effect free and cannot apply a proposal''
       else
     sbind (on_ex (require_state Planned)) (\<lambda>_.
     sbind (of_result (checked (bx_proposal x) ''no validated proposal exists'')) (\<lambda>proposal.
     sbind (with_state (validate_workspace xc)) (\<lambda>_.
     sbind (or_recorded xc Environment ''workspace_read'' (read_file os js (rt_path proposal))) (\<lambda>current.
       if ex_digest xc current \<noteq> rt_expected_before_digest proposal
       then on_ex (fail_recorded xc Conflict ''candidate_base_changed'' ''workspace content differs from the proposed base'')
       else (case from_utf8 current of
           None \<Rightarrow> sfail ''workspace content is no longer UTF-8''
         | Some source \<Rightarrow>
             if count_matches source (rt_find proposal) \<noteq> 1
             then on_ex (fail_recorded xc Conflict ''candidate_match_changed'' ''replacement search text no longer occurs exactly once'')
             else if ex_digest xc (candidate_text proposal source) \<noteq> rt_candidate_digest proposal
             then on_ex (fail_recorded xc Policy ''candidate_digest_mismatch'' ''proposal does not reproduce its exact candidate digest'')
             else
     sbind (or_recorded xc Policy ''workspace_write'' (write_file os js (rt_path proposal) (candidate_text proposal source))) (\<lambda>_.
     sbind (with_state (\<lambda>st. smodify (\<lambda>x. x\<lparr>bx_transaction_id := Some (tx_transaction_id st),
         bx_policy_digest := Some (tx_policy_digest st), bx_state := Edited\<rparr>))) (\<lambda>_.
       on_ex (ex_record xc ''proposal_applied'' (rt_candidate_digest proposal)))))))))))"

definition verdict_malformed :: "verification_verdict \<Rightarrow> bool" where
  "verdict_malformed verdict \<longleftrightarrow>
     vv_schema_version verdict \<noteq> verdict_schema_version \<or> \<not> is_digest (vv_plan_digest verdict)
     \<or> \<not> is_sha (vv_source_head_sha verdict) \<or> \<not> is_sha (vv_delivered_head_sha verdict)"

definition has_failures :: "verification_verdict \<Rightarrow> bool" where
  "has_failures verdict \<longleftrightarrow>
     vv_missing verdict \<noteq> [] \<or> vv_duplicate verdict \<noteq> [] \<or> vv_invalid verdict \<noteq> [] \<or> vv_failed verdict \<noteq> []"

definition conclude_verification :: "executor_codec \<Rightarrow> verification_verdict \<Rightarrow> unit ex_m" where
  "conclude_verification xc verdict =
     (if vv_status verdict = VerdictPassed \<and> has_failures verdict \<or> vv_status verdict = VerdictFailed \<and> \<not> has_failures verdict
      then sbind (set_ex_state Escalated) (\<lambda>_.
        sbind (ex_record xc ''verification_contradictory'' (vv_plan_digest verdict)) (\<lambda>_.
          sfail ''contradictory verification evidence requires escalation''))
      else if vv_status verdict = VerdictFailed
      then sbind (set_ex_state EvidenceFailed) (\<lambda>_. ex_record xc ''verification_failed'' (vv_plan_digest verdict))
      else sbind (set_ex_state VerificationPassed) (\<lambda>_. ex_record xc ''verification_passed'' (vv_plan_digest verdict)))"

definition submit_verification ::
  "('d, 'w) os \<Rightarrow> workspace_codec \<Rightarrow> executor_codec \<Rightarrow> verification_verdict \<Rightarrow> ('d, 'w, unit) xw_m" where
  "submit_verification os js xc verdict =
     sbind (on_ex (guard xc)) (\<lambda>_.
     sbind (on_ex (require_state Edited)) (\<lambda>_.
     sbind (with_state (validate_workspace xc)) (\<lambda>_.
     sbind (on_ex (sget (\<lambda>x. x))) (\<lambda>x.
       if verdict_malformed verdict
       then on_ex (fail_recorded xc Evidence ''verification_schema'' ''unsupported verification verdict schema'')
       else if vv_source_head_sha verdict \<noteq> bx_base_sha x
       then on_ex (fail_recorded xc Conflict ''verification_base'' ''verification verdict is bound to another source head'')
       else if vv_delivered_head_sha verdict = bx_base_sha x
       then on_ex (fail_recorded xc Evidence ''verification_unchanged_head''
         ''verification must cover a delivered head containing the candidate edit'')
       else
     sbind (of_result (checked (bx_proposal x) ''verification requires an applied proposal'')) (\<lambda>proposal.
     sbind (or_recorded xc Evidence ''candidate_head_proof''
         (authorize_verified_candidate_commit os js (rt_path proposal) (vv_delivered_head_sha verdict) (rt_candidate_digest proposal))) (\<lambda>_.
     sbind (of_result (checked (bx_transaction_id x) ''executor is not transaction-bound'')) (\<lambda>transaction_id.
     sbind (of_result (checked (bx_policy_digest x) ''executor is not policy-bound'')) (\<lambda>policy_digest.
     sbind (on_ex (smodify (\<lambda>x. x\<lparr>bx_verification := Some verdict,
         bx_candidate_binding := Some (new_binding xc (rt_candidate_digest proposal) (vv_delivered_head_sha verdict)
           transaction_id policy_digest (vv_plan_digest verdict))\<rparr>))) (\<lambda>_.
       on_ex (conclude_verification xc verdict))))))))))"

definition ex_rollback :: "('d, 'w) os \<Rightarrow> workspace_codec \<Rightarrow> executor_codec \<Rightarrow> ('d, 'w, unit) xw_m" where
  "ex_rollback os js xc =
     sbind (on_ex (guard xc)) (\<lambda>_.
     sbind (on_ex (sget bx_state)) (\<lambda>state.
       if state \<in> {Resolved, DryRun, RolledBack} then sfail ''executor state cannot be rolled back''
       else
     sbind (with_state (validate_workspace xc)) (\<lambda>_.
     sbind (attempt (on_ws (abort os js))) (\<lambda>result.
       (case result of
          Inr _ \<Rightarrow>
            sbind (on_ex (smodify (\<lambda>x. x\<lparr>bx_rollback := Succeeded, bx_state := RolledBack\<rparr>))) (\<lambda>_.
              with_state (\<lambda>st. ex_record xc ''rolled_back'' (tx_transaction_id st)))
        | Inl e \<Rightarrow>
            sbind (on_ex (smodify (\<lambda>x. x\<lparr>bx_rollback := RollbackFailed, bx_state := Escalated\<rparr>))) (\<lambda>_.
            sbind (on_ex (ignoring (ex_record xc ''rollback_failed'' e))) (\<lambda>_.
              sfail e)))))))"

end
