(* ===== verification/Method_Posts.thy ===== *)
theory Method_Posts
  imports Anchored_Files
begin

text \<open>
  Postconditions of a method for each way in which it can end: with a value, with an error, or with
  a panic or an exhausted bound. Unlike the weakest preconditions of \<open>Rust_Monad\<close> they do not rule
  out the last two, so that they speak about every run of a method, whatever the system does.
\<close>

named_theorems post_simps \<open>postconditions of methods\<close>

definition post :: "('s, 'e, 'a) rust_m \<Rightarrow> ('a \<Rightarrow> 's \<Rightarrow> bool) \<Rightarrow> ('e \<Rightarrow> 's \<Rightarrow> bool) \<Rightarrow> ('s \<Rightarrow> bool) \<Rightarrow> 's \<Rightarrow> bool" where
  "post m Q E C s \<longleftrightarrow>
     (case m s of
        (Done a, t) \<Rightarrow> Q a t
      | (Fail e, t) \<Rightarrow> E e t
      | (Panicked, t) \<Rightarrow> C t
      | (OutOfFuel, t) \<Rightarrow> C t)"

lemma post_sret [post_simps]: "post (sret a) Q E C = Q a"
  and post_sfail [post_simps]: "post (sfail e) Q E C = E e"
  and post_sget [post_simps]: "post (sget f) Q E C = (\<lambda>s. Q (f s) s)"
  by (simp_all add: post_def sret_def sfail_def sget_def fun_eq_iff)

lemma post_smodify [post_simps]: "post (smodify g) Q E C = (\<lambda>s. Q () (g s))"
  by (simp add: post_def smodify_def fun_eq_iff)

lemma post_of_result [post_simps]: "post (of_result r) Q E C = (case r of Inl e \<Rightarrow> E e | Inr a \<Rightarrow> Q a)"
  by (cases r) (simp_all add: of_result_def post_simps)

lemma post_sbind [post_simps]: "post (sbind m f) Q E C = post m (\<lambda>a. post (f a) Q E C) E C"
  by (auto simp: post_def sbind_def fun_eq_iff split: prod.splits outcome.splits)

lemma post_attempt [post_simps]: "post (attempt m) Q E C = post m (\<lambda>a. Q (Inr a)) (\<lambda>e. Q (Inl e)) C"
  by (auto simp: post_def attempt_def fun_eq_iff split: prod.splits outcome.splits)

lemma post_if [post_simps]: "post (if b then m else n) Q E C = (if b then post m Q E C else post n Q E C)"
  by simp

lemma post_case_option [post_simps]:
  "post (case x of None \<Rightarrow> m | Some a \<Rightarrow> f a) Q E C = (case x of None \<Rightarrow> post m Q E C | Some a \<Rightarrow> post (f a) Q E C)"
  by (cases x) simp_all

lemma post_case_sum [post_simps]:
  "post (case r of Inl e \<Rightarrow> f e | Inr a \<Rightarrow> g a) Q E C = (case r of Inl e \<Rightarrow> post (f e) Q E C | Inr a \<Rightarrow> post (g a) Q E C)"
  by (cases r) simp_all

lemma post_mono:
  assumes "post m Q E C s" "\<And>a t. Q a t \<Longrightarrow> Q' a t" "\<And>e t. E e t \<Longrightarrow> E' e t" "\<And>t. C t \<Longrightarrow> C' t"
  shows "post m Q' E' C' s"
  using assms by (auto simp: post_def split: prod.splits outcome.splits)

lemma post_all: "post m (\<lambda>_. R) (\<lambda>_. R) R s \<longleftrightarrow> R (snd (m s))"
  by (auto simp: post_def split: prod.splits outcome.splits)

lemma post_Done: "post m Q E C s \<Longrightarrow> m s = (Done a, t) \<Longrightarrow> Q a t"
  by (simp add: post_def)

lemma post_wp: "post m Q E (\<lambda>_. False) s \<longleftrightarrow> wp m Q E s"
  by (auto simp: post_def wp_def split: prod.splits outcome.splits)

end
