(* ===== verification/Executor_Protocol.thy ===== *)
theory Executor_Protocol
  imports Bounded_Executor Workspace_Journal Method_Posts
begin

text \<open>
  What the executor promises, as a protocol: a small state with guarded steps. The proof that every
  call of the executor is a sequence of protocol steps carries the invariants of the protocol over
  to the executor, for every answer of the workspace and also when a call fails midway.
\<close>

section \<open>The protocol\<close>

record task_protocol =
  pr_phase :: execution_state
  pr_prior :: "execution_state option"
  pr_dry_run :: bool
  pr_base :: string
  pr_files :: "string list"
  pr_repair :: "string list option"
  pr_limits :: budgets
  pr_used :: budget_usage
  pr_edit :: "replace_text_proposal option"
  pr_candidate :: "string option"
  pr_transaction :: "string option"
  pr_policy :: "string option"
  pr_verdict :: "verification_verdict option"
  pr_binding :: "candidate_binding option"
  pr_delivery :: "signed_delivery_evidence option"
  pr_schema :: string
  pr_contract :: string
  pr_key :: "executor_seal_key option"
  pr_key_id :: string

definition protocol :: "bounded_executor \<Rightarrow> task_protocol" where
  "protocol x =
     \<lparr>pr_phase = bx_state x, pr_prior = bx_interrupted_from x, pr_dry_run = bx_dry_run x, pr_base = bx_base_sha x,
      pr_files = bx_allowed_files x, pr_repair = bx_repair_allowed_files x, pr_limits = eb_limits (bx_budgets x),
      pr_used = eb_consumed (bx_budgets x), pr_edit = bx_proposal x, pr_candidate = bx_candidate_digest x,
      pr_transaction = bx_transaction_id x, pr_policy = bx_policy_digest x, pr_verdict = bx_verification x,
      pr_binding = bx_candidate_binding x, pr_delivery = bx_delivery x,
      pr_schema = bx_schema_version x, pr_contract = bx_task_contract_digest x, pr_key = bx_seal_key x,
      pr_key_id = bx_seal_key_id x\<rparr>"

definition in_scope :: "task_protocol \<Rightarrow> string \<Rightarrow> bool" where
  "in_scope p path \<longleftrightarrow> canonical_relative path \<and> path \<in> set (pr_files p) \<and> \<not> outside_repair (pr_repair p) path"

definition digests_of :: "executor_codec \<Rightarrow> replace_text_proposal \<Rightarrow> bool" where
  "digests_of xc e \<longleftrightarrow> (\<exists>before after. rt_expected_before_digest e = ex_digest xc before \<and> rt_candidate_digest e = ex_digest xc after)"

definition contradictory :: "verification_verdict \<Rightarrow> bool" where
  "contradictory v \<longleftrightarrow> vv_status v = VerdictPassed \<and> has_failures v \<or> vv_status v = VerdictFailed \<and> \<not> has_failures v"

definition phase_of_verdict :: "verification_verdict \<Rightarrow> execution_state" where
  "phase_of_verdict v =
     (if contradictory v then Escalated else if vv_status v = VerdictFailed then EvidenceFailed else VerificationPassed)"

text \<open>The evidence that the provider accepts at some time.\<close>

definition trusted :: "executor_codec \<Rightarrow> delivery_evidence_provider \<Rightarrow> signed_delivery_evidence \<Rightarrow> bool" where
  "trusted xc provider evidence \<longleftrightarrow> (\<exists>clock. verify_evidence xc clock provider evidence = Inr ())"

inductive protocol_step :: "executor_codec \<Rightarrow> delivery_evidence_provider \<Rightarrow> task_protocol \<Rightarrow> task_protocol \<Rightarrow> bool"
  for xc provider where
  propose: "pr_phase p = Planned \<Longrightarrow> in_scope p (rt_path e) \<Longrightarrow> digests_of xc e \<Longrightarrow>
     protocol_step xc provider p (p\<lparr>pr_edit := Some e, pr_candidate := Some (rt_candidate_digest e),
       pr_phase := if pr_dry_run p then DryRun else Planned\<rparr>)"
| bind: "pr_phase p = Planned \<Longrightarrow> pr_transaction p \<in> {None, Some t} \<Longrightarrow>
     protocol_step xc provider p (p\<lparr>pr_transaction := Some t, pr_policy := Some d\<rparr>)"
| apply_edit: "pr_phase p = Planned \<Longrightarrow> \<not> pr_dry_run p \<Longrightarrow> pr_edit p = Some e \<Longrightarrow> pr_transaction p \<in> {None, Some t} \<Longrightarrow>
     protocol_step xc provider p (p\<lparr>pr_transaction := Some t, pr_policy := Some d, pr_phase := Edited\<rparr>)"
| verify: "pr_phase p = Edited \<Longrightarrow> pr_edit p = Some e \<Longrightarrow> pr_transaction p = Some t \<Longrightarrow> pr_policy p = Some d \<Longrightarrow>
     \<not> verdict_malformed v \<Longrightarrow> vv_source_head_sha v = pr_base p \<Longrightarrow> vv_delivered_head_sha v \<noteq> pr_base p \<Longrightarrow>
     protocol_step xc provider p (p\<lparr>pr_verdict := Some v,
       pr_binding := Some (new_binding xc (rt_candidate_digest e) (vv_delivered_head_sha v) t d (vv_plan_digest v)),
       pr_phase := phase_of_verdict v\<rparr>)"
| deliver: "pr_phase p = VerificationPassed \<Longrightarrow> pr_candidate p = Some (de_candidate_digest evidence) \<Longrightarrow>
     pr_verdict p = Some v \<Longrightarrow> pr_binding p = Some b \<Longrightarrow> delivery_bound evidence v b \<Longrightarrow> trusted xc provider evidence \<Longrightarrow>
     protocol_step xc provider p (p\<lparr>pr_delivery := Some evidence, pr_phase := Resolved\<rparr>)"
| spend: "\<not> terminal (pr_phase p) \<Longrightarrow> \<not> usage_less u (pr_used p) \<Longrightarrow> \<not> exceeds u (pr_limits p) \<Longrightarrow>
     protocol_step xc provider p (p\<lparr>pr_used := u\<rparr>)"
| escalate: "pr_phase p \<notin> {Resolved, RolledBack} \<Longrightarrow> protocol_step xc provider p (p\<lparr>pr_phase := Escalated\<rparr>)"
| refuse: "pr_phase p \<notin> {Resolved, DryRun, RolledBack} \<Longrightarrow> protocol_step xc provider p (p\<lparr>pr_phase := Rejected\<rparr>)"
| undo: "pr_phase p \<notin> {Resolved, DryRun, RolledBack} \<Longrightarrow> protocol_step xc provider p (p\<lparr>pr_phase := RolledBack\<rparr>)"
| interrupt: "\<not> terminal (pr_phase p) \<Longrightarrow> pr_phase p \<noteq> Interrupted \<Longrightarrow>
     protocol_step xc provider p (p\<lparr>pr_prior := Some (pr_phase p), pr_phase := Interrupted\<rparr>)"
| continue: "pr_phase p = Interrupted \<Longrightarrow> pr_prior p = Some q \<Longrightarrow>
     protocol_step xc provider p (p\<lparr>pr_prior := None, pr_phase := q\<rparr>)"

abbreviation protocol_steps :: "executor_codec \<Rightarrow> delivery_evidence_provider \<Rightarrow> task_protocol \<Rightarrow> task_protocol \<Rightarrow> bool" where
  "protocol_steps xc provider \<equiv> (protocol_step xc provider)\<^sup>*\<^sup>*"

section \<open>Calls\<close>

datatype ex_call =
    ProposeReplace string "byte list" string string | BindTransaction | ApplyProposal
  | SubmitVerification verification_verdict | SubmitDelivery "u64 option" signed_delivery_evidence
  | Rollback | ChargeBudget budget_usage | RetryFailure failure_cause string string
  | InterruptExecution | ResumeExecution | OnWorkspace ws_call

fun ex_perform ::
  "('d, 'w) os \<Rightarrow> workspace_codec \<Rightarrow> executor_codec \<Rightarrow> delivery_evidence_provider \<Rightarrow> ex_call \<Rightarrow> ('d, 'w, unit) xw_m" where
  "ex_perform os js xc provider (ProposeReplace path current find_text replacement) =
     on_ex (discarding (propose_replace xc path current find_text replacement))"
| "ex_perform os js xc provider BindTransaction = with_state (bind_transaction xc)"
| "ex_perform os js xc provider ApplyProposal = apply_proposal os js xc"
| "ex_perform os js xc provider (SubmitVerification verdict) = submit_verification os js xc verdict"
| "ex_perform os js xc provider (SubmitDelivery clock evidence) =
     with_state (\<lambda>st. submit_delivery xc clock st evidence provider)"
| "ex_perform os js xc provider Rollback = ex_rollback os js xc"
| "ex_perform os js xc provider (ChargeBudget usage) = on_ex (charge_budget xc usage)"
| "ex_perform os js xc provider (RetryFailure cause code message) = on_ex (retry_failure xc cause code message)"
| "ex_perform os js xc provider InterruptExecution = on_ex (ex_interrupt xc)"
| "ex_perform os js xc provider ResumeExecution = on_ex (ex_resume xc)"
| "ex_perform os js xc provider (OnWorkspace call) = on_ws (ws_perform os js call)"

definition started :: "executor_codec \<Rightarrow> ('v agent_task_contract \<Rightarrow> string + byte list) \<Rightarrow> 'v agent_task_contract \<Rightarrow> bounded_executor \<Rightarrow> bool" where
  "started xc to_json contract x \<longleftrightarrow>
     (\<exists>base_sha dry_run policy key. new_with_retry_policy xc to_json contract base_sha dry_run policy key () = (Done x, ()))"

abbreviation executor_run ::
  "('d, 'w) os \<Rightarrow> workspace_codec \<Rightarrow> executor_codec \<Rightarrow> delivery_evidence_provider \<Rightarrow>
    ('v agent_task_contract \<Rightarrow> string + byte list) \<Rightarrow> 'v agent_task_contract \<Rightarrow> bounded_executor \<times> 'd workspace \<times> 'w session \<Rightarrow> bool" where
  "executor_run os js xc provider to_json contract \<equiv>
     reachable (\<lambda>s. started xc to_json contract (fst s)) (ex_perform os js xc provider) (\<lambda>_. True)"

section \<open>Every call follows the protocol\<close>

text \<open>What \<open>ex_record\<close> may change.\<close>

definition resealed :: "bounded_executor \<Rightarrow> bounded_executor \<Rightarrow> bool" where
  "resealed x y \<longleftrightarrow> (\<exists>events d mac. y = x\<lparr>bx_events := events, bx_state_digest := d, bx_seal_mac := mac\<rparr>)"

lemma resealed_refl: "resealed x x"
  unfolding resealed_def by (rule exI [of _ "bx_events x"], rule exI [of _ "bx_state_digest x"], rule exI [of _ "bx_seal_mac x"]) simp

lemma resealed_protocol: "resealed x y \<Longrightarrow> protocol y = protocol x"
  by (auto simp: resealed_def protocol_def)

lemma ex_record_resealed: "resealed x (snd (ex_record xc kind detail x))"
proof -
  have mac: "resealed (x\<lparr>bx_events := events, bx_state_digest := d\<rparr>) (x\<lparr>bx_events := events, bx_state_digest := d, bx_seal_mac := mac\<rparr>)"
    and keep: "resealed x (x\<lparr>bx_events := events, bx_state_digest := d, bx_seal_mac := mac\<rparr>)"
    "resealed x (x\<lparr>bx_events := events, bx_state_digest := d\<rparr>)" for events d mac
    using resealed_refl [of "x\<lparr>bx_events := events, bx_state_digest := d\<rparr>"]
    by (fastforce simp: resealed_def)+
  have "post (ex_record xc kind detail) (\<lambda>_. resealed x) (\<lambda>_. resealed x) (resealed x) x"
    using keep resealed_refl by (simp add: ex_record_def post_simps Let_def split: sum.splits)
  then show ?thesis by (simp add: post_all)
qed

lemma post_record:
  assumes "\<And>y. resealed x y \<Longrightarrow> Q () y" "\<And>e y. resealed x y \<Longrightarrow> E e y" "\<And>y. resealed x y \<Longrightarrow> C y"
  shows "post (ex_record xc kind detail) Q E C x"
  using ex_record_resealed [of x xc kind detail] assms
  unfolding post_def by (auto split: prod.splits outcome.splits)

lemma post_guard: "(validate_integrity xc x = Inr () \<Longrightarrow> Q () x) \<Longrightarrow> (\<And>e. E e x) \<Longrightarrow> post (guard xc) Q E C x"
  by (auto simp: guard_def post_simps split: sum.splits)

lemma post_require_state: "(bx_state x = s \<Longrightarrow> Q () x) \<Longrightarrow> (\<And>e. E e x) \<Longrightarrow> post (require_state s) Q E C x"
  by (simp add: require_state_def post_simps)

lemma post_nonterminal: "(\<not> terminal (bx_state x) \<Longrightarrow> Q () x) \<Longrightarrow> (\<And>e. E e x) \<Longrightarrow> post ensure_nonterminal Q E C x"
  by (simp add: ensure_nonterminal_def post_simps)

lemma post_ignoring: "post m (\<lambda>_. Q ()) (\<lambda>_. Q ()) C s \<Longrightarrow> post (ignoring m) Q E C s"
  by (simp add: ignoring_def post_simps)

lemma protocol_updates [simp]:
  "protocol (x\<lparr>bx_state := s\<rparr>) = (protocol x)\<lparr>pr_phase := s\<rparr>"
  "protocol (x\<lparr>bx_failures := f\<rparr>) = protocol x"
  "protocol (x\<lparr>bx_rollback := rb\<rparr>) = protocol x"
  "protocol (x\<lparr>bx_budgets := (bx_budgets x)\<lparr>eb_consumed := u\<rparr>\<rparr>) = (protocol x)\<lparr>pr_used := u\<rparr>"
  "protocol (x\<lparr>bx_interrupted_from := q\<rparr>) = (protocol x)\<lparr>pr_prior := q\<rparr>"
  "protocol (x\<lparr>bx_proposal := e\<rparr>) = (protocol x)\<lparr>pr_edit := e\<rparr>"
  "protocol (x\<lparr>bx_candidate_digest := c\<rparr>) = (protocol x)\<lparr>pr_candidate := c\<rparr>"
  "protocol (x\<lparr>bx_transaction_id := t\<rparr>) = (protocol x)\<lparr>pr_transaction := t\<rparr>"
  "protocol (x\<lparr>bx_policy_digest := d\<rparr>) = (protocol x)\<lparr>pr_policy := d\<rparr>"
  "protocol (x\<lparr>bx_verification := v\<rparr>) = (protocol x)\<lparr>pr_verdict := v\<rparr>"
  "protocol (x\<lparr>bx_candidate_binding := b\<rparr>) = (protocol x)\<lparr>pr_binding := b\<rparr>"
  "protocol (x\<lparr>bx_delivery := ev\<rparr>) = (protocol x)\<lparr>pr_delivery := ev\<rparr>"
  by (simp_all add: protocol_def)

lemma protocol_fields [simp]:
  "pr_phase (protocol x) = bx_state x" "pr_prior (protocol x) = bx_interrupted_from x"
  "pr_dry_run (protocol x) = bx_dry_run x" "pr_base (protocol x) = bx_base_sha x"
  "pr_files (protocol x) = bx_allowed_files x" "pr_repair (protocol x) = bx_repair_allowed_files x"
  "pr_limits (protocol x) = eb_limits (bx_budgets x)" "pr_used (protocol x) = eb_consumed (bx_budgets x)"
  "pr_edit (protocol x) = bx_proposal x" "pr_candidate (protocol x) = bx_candidate_digest x"
  "pr_transaction (protocol x) = bx_transaction_id x" "pr_policy (protocol x) = bx_policy_digest x"
  "pr_verdict (protocol x) = bx_verification x" "pr_binding (protocol x) = bx_candidate_binding x"
  "pr_delivery (protocol x) = bx_delivery x" "pr_schema (protocol x) = bx_schema_version x"
  "pr_contract (protocol x) = bx_task_contract_digest x" "pr_key (protocol x) = bx_seal_key x"
  "pr_key_id (protocol x) = bx_seal_key_id x"
  by (simp_all add: protocol_def)

text \<open>A failure keeps the phase, escalates, or spends a retry; a refusal ends in \<open>Rejected\<close>.\<close>

lemma post_reject:
  assumes "\<And>e y. protocol y = (protocol x)\<lparr>pr_phase := Rejected\<rparr> \<Longrightarrow> E e y"
    "\<And>y. protocol y = (protocol x)\<lparr>pr_phase := Rejected\<rparr> \<Longrightarrow> C y"
  shows "post (reject xc message) Q E C x"
  unfolding reject_def set_ex_state_def push_failure_def post_simps
  by (rule post_ignoring, rule post_record) (auto dest!: resealed_protocol intro: assms)

text \<open>The relation that every call keeps; the protocol itself never leaves the budget.\<close>

definition in_budget :: "task_protocol \<Rightarrow> bool" where
  "in_budget p \<longleftrightarrow> \<not> exceeds (pr_used p) (pr_limits p)"

definition follows :: "executor_codec \<Rightarrow> delivery_evidence_provider \<Rightarrow> bounded_executor \<Rightarrow> bounded_executor \<Rightarrow> bool" where
  "follows xc provider x y \<longleftrightarrow> (in_budget (protocol x) \<longrightarrow> protocol_steps xc provider (protocol x) (protocol y))"

lemma step_in_budget: "protocol_step xc provider p q \<Longrightarrow> in_budget p \<Longrightarrow> in_budget q"
  by (induction rule: protocol_step.induct) (simp_all add: in_budget_def)

lemma steps_in_budget: "protocol_steps xc provider p q \<Longrightarrow> in_budget p \<Longrightarrow> in_budget q"
  by (induction rule: rtranclp_induct) (blast intro: step_in_budget)+

interpretation follow: step_frame "follows xc provider"
proof
  show "follows xc provider x x" for x by (simp add: follows_def)
  show "follows xc provider x z" if "follows xc provider x y" "follows xc provider y z" for x y z
    using that steps_in_budget unfolding follows_def by (blast intro: rtranclp_trans)
qed

lemma follows_same: "protocol y = protocol x \<Longrightarrow> follows xc provider x y"
  by (simp add: follows_def)

lemma follows_step: "protocol_step xc provider (protocol x) p \<Longrightarrow> protocol y = p \<Longrightarrow> follows xc provider x y"
  by (auto simp: follows_def)

lemma follows_escalate: "bx_state x \<notin> {Resolved, RolledBack} \<Longrightarrow> protocol y = (protocol x)\<lparr>pr_phase := Escalated\<rparr> \<Longrightarrow> follows xc provider x y"
  by (rule follows_step, rule protocol_step.escalate) simp_all

lemma follows_refuse: "bx_state x \<notin> {Resolved, DryRun, RolledBack} \<Longrightarrow> protocol y = (protocol x)\<lparr>pr_phase := Rejected\<rparr> \<Longrightarrow> follows xc provider x y"
  by (rule follows_step, rule protocol_step.refuse) simp_all

lemma follows_spend:
  "\<not> terminal (bx_state x) \<Longrightarrow> \<not> usage_less u (eb_consumed (bx_budgets x)) \<Longrightarrow> \<not> exceeds u (eb_limits (bx_budgets x)) \<Longrightarrow>
    protocol y = (protocol x)\<lparr>pr_used := u\<rparr> \<Longrightarrow> follows xc provider x y"
  by (rule follows_step, rule protocol_step.spend) simp_all

lemma follows_give_up: "\<not> terminal (bx_state x) \<Longrightarrow> protocol y = (protocol x)\<lparr>pr_phase := Escalated\<rparr> \<Longrightarrow> follows xc provider x y"
  by (rule follows_escalate) (simp_all add: terminal_def)

lemma leaves_followsI:
  "(\<And>x. post m (\<lambda>_. follows xc provider x) (\<lambda>_. follows xc provider x) (follows xc provider x) x) \<Longrightarrow> leaves (follows xc provider) m"
  by (simp add: leaves_def post_all)

lemma post_follows:
  assumes "leaves (follows xc provider) m" "\<And>a y. follows xc provider x y \<Longrightarrow> Q a y"
    "\<And>e y. follows xc provider x y \<Longrightarrow> E e y" "\<And>y. follows xc provider x y \<Longrightarrow> C y"
  shows "post m Q E C x"
  using follow.at_leaves [OF assms(1), of x] assms(2-4) unfolding post_def by (auto split: prod.splits outcome.splits)

lemma post_record_follows:
  assumes "follows xc provider x y" "\<And>a z. follows xc provider x z \<Longrightarrow> Q a z"
    "\<And>e z. follows xc provider x z \<Longrightarrow> E e z" "\<And>z. follows xc provider x z \<Longrightarrow> C z"
  shows "post (ex_record xc kind detail) Q E C y"
  using assms(1) by (intro post_record assms(2-4)) (auto dest: resealed_protocol simp: follows_def)

lemma add_usage_grows: "add_usage consumed usage = Inr u \<Longrightarrow> \<not> usage_less u consumed"
  by (auto simp: add_usage_def checked_def rbind_Inr_iff usage_less_def word_less_nat_alt dest!: word_checked_add_Some
      split: option.splits)

lemma follows_charge_budget: "leaves (follows xc provider) (charge_budget xc usage)"
proof (rule leaves_followsI)
  fix x
  show "post (charge_budget xc usage) (\<lambda>_. follows xc provider x) (\<lambda>_. follows xc provider x) (follows xc provider x) x"
    unfolding charge_budget_def set_ex_state_def set_consumed_def post_simps
    by (rule post_guard, rule post_nonterminal)
      (auto simp: post_simps follow.R_refl split: sum.splits dest!: add_usage_grows
        intro!: post_record_follows [of xc provider x] intro: follows_give_up follows_spend)
qed

lemma u32_succ_grows: "word_checked_add r 1 = Some n \<Longrightarrow> r < (n :: u32)"
  by (auto dest!: word_checked_add_Some simp: word_less_nat_alt)

lemma retry_usage:
  assumes "word_checked_add (bu_retries u) 1 = Some n"
  shows "\<not> usage_less (u\<lparr>bu_retries := n\<rparr>) u"
  using u32_succ_grows [OF assms] by (auto simp: usage_less_def)

lemma retry_budget:
  assumes "\<not> exceeds u limits" "\<not> bg_retries limits < n"
  shows "\<not> exceeds (u\<lparr>bu_retries := n\<rparr>) limits"
  using assms by (simp add: exceeds_def)

lemma post_True: "post m (\<lambda>_ _. True) (\<lambda>_ _. True) (\<lambda>_. True) s"
  by (simp add: post_def split: prod.splits outcome.splits)

lemma follows_retry_failure: "leaves (follows xc provider) (retry_failure xc cause code message)"
proof (rule leaves_followsI)
  fix x
  show "post (retry_failure xc cause code message) (\<lambda>_. follows xc provider x) (\<lambda>_. follows xc provider x) (follows xc provider x) x"
  proof (cases "in_budget (protocol x)")
    case False
    then have "follows xc provider x = (\<lambda>_. True)" by (simp add: follows_def fun_eq_iff)
    then show ?thesis by (simp add: post_True)
  next
    case True
    then have budget: "\<not> exceeds (eb_consumed (bx_budgets x)) (eb_limits (bx_budgets x))" by (simp add: in_budget_def)
    have spend: "follows xc provider x y"
      if "\<not> terminal (bx_state x)" "word_checked_add (bu_retries (eb_consumed (bx_budgets x))) 1 = Some n"
        "\<not> bg_retries (eb_limits (bx_budgets x)) < n" "protocol y = (protocol x)\<lparr>pr_used := (eb_consumed (bx_budgets x))\<lparr>bu_retries := n\<rparr>\<rparr>" for n y
      by (rule follows_spend [OF that(1) retry_usage [OF that(2)] retry_budget [OF budget that(3)] that(4)])
    show ?thesis
      unfolding retry_failure_def set_ex_state_def set_consumed_def push_failure_def post_simps Let_def
      by (rule post_guard, rule post_nonterminal)
        (auto simp: post_simps follow.R_refl checked_def split: sum.splits option.splits
          intro!: post_record_follows [of xc provider x] intro: follows_give_up spend follows_same)
  qed
qed

lemma post_fail_recorded:
  assumes "follows xc provider x y" "\<And>e z. follows xc provider x z \<Longrightarrow> E e z" "\<And>z. follows xc provider x z \<Longrightarrow> C z"
  shows "post (fail_recorded xc cause code message) Q E C y"
  unfolding fail_recorded_def failure_error_def post_simps
  by (rule post_ignoring, rule post_follows [OF follows_retry_failure [of xc provider]])
    (blast intro: follow.R_trans [OF assms(1)] assms(2,3))+

definition workspace_ok :: "bounded_executor \<Rightarrow> transaction_state \<Rightarrow> bool" where
  "workspace_ok x st \<longleftrightarrow> tx_task_contract_digest st = bx_task_contract_digest x \<and> tx_base_sha st = bx_base_sha x
     \<and> tx_phase st = Active \<and> bx_transaction_id x \<in> {None, Some (tx_transaction_id st)}
     \<and> (bx_transaction_id x \<noteq> None \<longrightarrow> bx_policy_digest x = Some (tx_policy_digest st))
     \<and> \<not> wp_network (tx_policy st) \<and> wp_commands (tx_policy st) = []
     \<and> (\<forall>path \<in> set (wp_write_paths (tx_policy st)). path \<in> set (bx_allowed_files x) \<and> \<not> outside_repair (bx_repair_allowed_files x) path)"

lemma post_validate_workspace:
  assumes "bx_state x \<notin> {Resolved, DryRun, RolledBack}" "workspace_ok x st \<Longrightarrow> Q () x"
    "\<And>e y. follows xc provider x y \<Longrightarrow> E e y" "\<And>y. follows xc provider x y \<Longrightarrow> C y"
  shows "post (validate_workspace xc st) Q E C x"
proof -
  have "post (reject xc message) Q E C x" for message
    by (rule post_reject) (auto intro: assms(3,4) follows_refuse [OF assms(1)])
  then show ?thesis
    unfolding validate_workspace_def post_simps
    using assms(2) by (auto simp: workspace_ok_def list_ex_iff split: option.splits)
qed

lemma post_authorize_path:
  assumes "bx_state x \<notin> {Resolved, DryRun, RolledBack}" "in_scope (protocol x) path \<Longrightarrow> Q () x"
    "\<And>e y. follows xc provider x y \<Longrightarrow> E e y" "\<And>y. follows xc provider x y \<Longrightarrow> C y"
  shows "post (authorize_path xc path) Q E C x"
proof -
  have "post (reject xc message) Q E C x" for message
    by (rule post_reject) (auto intro: assms(3,4) follows_refuse [OF assms(1)])
  then show ?thesis
    unfolding authorize_path_def post_simps using assms(2) by (auto simp: in_scope_def)
qed

lemma follows_propose_replace: "leaves (follows xc provider) (propose_replace xc path current find_text replacement)"
proof (rule leaves_followsI)
  fix x
  have refused: "post (reject xc message) (\<lambda>_. follows xc provider x) (\<lambda>_. follows xc provider x) (follows xc provider x) x"
    if "bx_state x = Planned" for message
    using that by (intro post_reject) (auto intro: follows_refuse)
  have dry: "follows xc provider x (x\<lparr>bx_proposal := Some e, bx_candidate_digest := Some c, bx_state := DryRun\<rparr>)"
    if "bx_dry_run x" "bx_state x = Planned" "in_scope (protocol x) (rt_path e)" "digests_of xc e" "c = rt_candidate_digest e" for e c
    by (rule follows_step, rule protocol_step.propose [of _ e]) (simp_all add: that)
  have live: "follows xc provider x (x\<lparr>bx_proposal := Some e, bx_candidate_digest := Some c\<rparr>)"
    if "\<not> bx_dry_run x" "bx_state x = Planned" "in_scope (protocol x) (rt_path e)" "digests_of xc e" "c = rt_candidate_digest e" for e c
    by (rule follows_step, rule protocol_step.propose [of _ e], simp add: that(2), rule that(3), rule that(4))
      (simp add: that(1,2,5) protocol_def)
  show "post (propose_replace xc path current find_text replacement) (\<lambda>_. follows xc provider x) (\<lambda>_. follows xc provider x) (follows xc provider x) x"
    unfolding propose_replace_def post_simps set_ex_state_def Let_def
    by (rule post_guard, rule post_require_state, rule post_authorize_path [of _ _ _ _ provider])
      (auto simp: post_simps follow.R_refl digests_of_def split: option.splits intro!: refused post_record_follows [of xc provider x]
        dry live)
qed

lemma follows_bind_transaction: "leaves (follows xc provider) (bind_transaction xc st)"
proof (rule leaves_followsI)
  fix x
  have bound: "follows xc provider x y"
    if "bx_state x = Planned" "workspace_ok x st"
      "protocol y = (protocol x)\<lparr>pr_transaction := Some (tx_transaction_id st), pr_policy := Some (tx_policy_digest st)\<rparr>" for y
    by (rule follows_step, rule protocol_step.bind) (use that in \<open>auto simp: workspace_ok_def\<close>)
  show "post (bind_transaction xc st) (\<lambda>_. follows xc provider x) (\<lambda>_. follows xc provider x) (follows xc provider x) x"
    unfolding bind_transaction_def post_simps
    by (rule post_guard, rule post_require_state, rule post_validate_workspace [of _ _ _ _ provider])
      (auto simp: follow.R_refl intro!: post_record_follows [of xc provider x] intro: bound)
qed

lemma follows_interrupt: "leaves (follows xc provider) (ex_interrupt xc)"
proof (rule leaves_followsI)
  fix x
  have "follows xc provider x (x\<lparr>bx_interrupted_from := Some (bx_state x), bx_state := Interrupted\<rparr>)"
    if "\<not> terminal (bx_state x)" "bx_state x \<noteq> Interrupted"
    by (rule follows_step, rule protocol_step.interrupt) (simp_all add: that)
  then show "post (ex_interrupt xc) (\<lambda>_. follows xc provider x) (\<lambda>_. follows xc provider x) (follows xc provider x) x"
    unfolding ex_interrupt_def post_simps
    by (intro post_guard post_nonterminal)
      (auto simp: post_simps follow.R_refl intro!: post_record_follows [of xc provider x])
qed

lemma follows_resume: "leaves (follows xc provider) (ex_resume xc)"
proof (rule leaves_followsI)
  fix x
  have restored: "follows xc provider x (x\<lparr>bx_interrupted_from := None, bx_state := q\<rparr>)"
    if "bx_state x = Interrupted" "bx_interrupted_from x = Some q" for q
    by (rule follows_step, rule protocol_step.continue [of _ q]) (simp_all add: that)
  have missing: "follows xc provider x (x\<lparr>bx_interrupted_from := None\<rparr>)" if "bx_interrupted_from x = None"
    using that by (intro follows_same) (simp add: protocol_def)
  show "post (ex_resume xc) (\<lambda>_. follows xc provider x) (\<lambda>_. follows xc provider x) (follows xc provider x) x"
    unfolding ex_resume_def post_simps set_ex_state_def
    by (intro post_guard post_require_state)
      (auto simp: post_simps follow.R_refl checked_def missing restored split: option.splits
        intro!: post_record_follows [of xc provider x])
qed

lemma follows_submit_delivery: "leaves (follows xc provider) (submit_delivery xc clock st evidence provider)"
proof (rule leaves_followsI)
  fix x
  have delivered: "follows xc provider x y"
    if "bx_state x = VerificationPassed" "verify_evidence xc clock provider evidence = Inr ()"
      "bx_candidate_digest x = Some (de_candidate_digest evidence)" "bx_verification x = Some v" "bx_candidate_binding x = Some b"
      "delivery_bound evidence v b" "protocol y = (protocol x)\<lparr>pr_delivery := Some evidence, pr_phase := Resolved\<rparr>" for y v b
    by (rule follows_step, rule protocol_step.deliver [of _ evidence v b]) (use that in \<open>auto simp: trusted_def\<close>)
  show "post (submit_delivery xc clock st evidence provider) (\<lambda>_. follows xc provider x) (\<lambda>_. follows xc provider x) (follows xc provider x) x"
    unfolding submit_delivery_def post_simps
    by (rule post_guard, rule post_require_state, rule post_validate_workspace [of _ _ _ _ provider])
      (auto simp: post_simps follow.R_refl checked_def split: sum.splits option.splits
        intro!: post_fail_recorded [of xc provider x] post_record_follows [of xc provider x] intro: delivered)
qed

section \<open>Calls on the executor and the workspace\<close>

lemma post_on_ex [post_simps]:
  "post (on_ex m) Q E C = (\<lambda>(x, w). post m (\<lambda>a y. Q a (y, w)) (\<lambda>e y. E e (y, w)) (\<lambda>y. C (y, w)) x)"
  by (auto simp: post_def on_ex_def fun_eq_iff split: prod.splits outcome.splits)

lemma post_on_ws [post_simps]:
  "post (on_ws m) Q E C = (\<lambda>(x, w). post m (\<lambda>a v. Q a (x, v)) (\<lambda>e v. E e (x, v)) (\<lambda>v. C (x, v)) w)"
  by (auto simp: post_def on_ws_def fun_eq_iff split: prod.splits outcome.splits)

lemma post_the_state [post_simps]: "post (the_state f) Q E C = (\<lambda>w. Q (f (ws_state (fst w))) w)"
  by (simp add: the_state_def post_simps)

lemma post_with_state [post_simps]:
  "post (with_state m) Q E C = (\<lambda>(x, w). post (m (ws_state (fst w))) (\<lambda>a y. Q a (y, w)) (\<lambda>e y. E e (y, w)) (\<lambda>y. C (y, w)) x)"
  by (auto simp: with_state_def post_simps fun_eq_iff)

definition follows_with :: "executor_codec \<Rightarrow> delivery_evidence_provider \<Rightarrow>
    bounded_executor \<times> 'b \<Rightarrow> bounded_executor \<times> 'b \<Rightarrow> bool" where
  "follows_with xc provider s t \<longleftrightarrow> follows xc provider (fst s) (fst t)"

lemma leaves_withI:
  assumes "\<And>x w. post m (\<lambda>_ t. follows xc provider x (fst t)) (\<lambda>_ t. follows xc provider x (fst t)) (\<lambda>t. follows xc provider x (fst t)) (x, w)"
  shows "leaves (follows_with xc provider) m"
proof -
  have "follows xc provider x (fst (snd (m (x, w))))" for x w
    using assms [of x w] post_all [of m "\<lambda>t. follows xc provider x (fst t)" "(x, w)"] by blast
  then show ?thesis by (simp add: leaves_def follows_with_def)
qed

lemma follows_on_ex: "leaves (follows xc provider) m \<Longrightarrow> leaves (follows_with xc provider) (on_ex m)"
  by (simp add: leaves_def follows_with_def on_ex_def case_prod_beta)

lemma follows_on_ws: "leaves (follows_with xc provider) (on_ws m)"
  by (simp add: leaves_def follows_with_def on_ws_def follow.R_refl case_prod_beta)

lemma follows_with_state: "(\<And>st. leaves (follows xc provider) (m st)) \<Longrightarrow> leaves (follows_with xc provider) (with_state m)"
  by (simp add: leaves_def follows_with_def with_state_def sbind_def on_ws_def on_ex_def the_state_def sget_def case_prod_beta)

lemma post_grown:
  assumes "leaves grown m" "\<And>a v. grown w v \<Longrightarrow> Q a v" "\<And>e v. grown w v \<Longrightarrow> E e v" "\<And>v. grown w v \<Longrightarrow> C v"
  shows "post m Q E C w"
  using grow.at_leaves [OF assms(1), of w] assms(2-4) unfolding post_def by (auto split: prod.splits outcome.splits)

lemma post_or_recorded:
  assumes "leaves grown m" "\<And>a v. grown w v \<Longrightarrow> Q a (x, v)" "\<And>e y v. follows xc provider x y \<Longrightarrow> E e (y, v)"
    "\<And>y v. follows xc provider x y \<Longrightarrow> C (y, v)"
  shows "post (or_recorded xc cause code m) Q E C (x, w)"
  unfolding or_recorded_def post_simps case_prod_conv
  by (rule post_grown [OF assms(1)])
    (auto simp: post_simps intro!: post_fail_recorded [of xc provider x] follow.R_refl assms(2-4))

lemma grown_identity:
  "grown w v \<Longrightarrow> tx_transaction_id (ws_state (fst v)) = tx_transaction_id (ws_state (fst w))
    \<and> tx_policy_digest (ws_state (fst v)) = tx_policy_digest (ws_state (fst w))"
  by (simp add: grown_def state_extends_def same_identity_def)

abbreviation ends :: "executor_codec \<Rightarrow> delivery_evidence_provider \<Rightarrow> ('d, 'w, unit) xw_m \<Rightarrow> bounded_executor \<Rightarrow> 'd workspace \<times> 'w session \<Rightarrow> bool" where
  "ends xc provider m x w \<equiv> post m (\<lambda>_ t. follows xc provider x (fst t)) (\<lambda>_ t. follows xc provider x (fst t)) (\<lambda>t. follows xc provider x (fst t)) (x, w)"

lemma follows_apply_proposal:
  fixes os :: "('d, 'w) os"
  shows "leaves (follows_with xc provider) (apply_proposal os js xc)"
proof (rule leaves_withI)
  fix x and w :: "'d workspace \<times> 'w session"
  have edited: "follows xc provider x (x\<lparr>bx_transaction_id := Some (tx_transaction_id (ws_state ws)),
      bx_policy_digest := Some (tx_policy_digest (ws_state ws)), bx_state := Edited\<rparr>)"
    if "bx_state x = Planned" "\<not> bx_dry_run x" "bx_proposal x \<noteq> None" "workspace_ok x (ws_state (fst w))" "grown w v" "grown v (ws, p)" for v ws p
  proof -
    from that(3) obtain e where e: "bx_proposal x = Some e" by blast
    have t: "bx_transaction_id x \<in> {None, Some (tx_transaction_id (ws_state ws))}"
      using that(4) grown_identity [OF that(5)] grown_identity [OF that(6)] by (simp add: workspace_ok_def)
    show ?thesis
      by (rule follows_step, rule protocol_step.apply_edit [of _ e]) (use that(1,2) e t in simp_all)
  qed
  show "ends xc provider (apply_proposal os js xc) x w"
    unfolding apply_proposal_def post_simps case_prod_conv fst_conv
    by (rule post_guard)
      (auto simp: post_simps follow.R_refl checked_def split: option.splits
        intro!: post_require_state post_validate_workspace [of x _ _ xc provider] post_or_recorded [OF grown_files(1), of _ _ x xc provider]
          post_or_recorded [OF grown_files(2), of _ _ x xc provider] post_fail_recorded [of xc provider x]
          post_record_follows [of xc provider x] edited)
qed

lemma follows_submit_verification:
  fixes os :: "('d, 'w) os"
  shows "leaves (follows_with xc provider) (submit_verification os js xc verdict)"
proof (rule leaves_withI)
  fix x and w :: "'d workspace \<times> 'w session"
  have judged: "follows xc provider x (x\<lparr>bx_verification := Some verdict,
      bx_candidate_binding := Some (new_binding xc (rt_candidate_digest e) (vv_delivered_head_sha verdict) t d (vv_plan_digest verdict)),
      bx_state := phase_of_verdict verdict\<rparr>)"
    if "bx_state x = Edited" "\<not> verdict_malformed verdict" "vv_source_head_sha verdict = bx_base_sha x"
      "vv_delivered_head_sha verdict \<noteq> bx_base_sha x" "bx_proposal x = Some e" "bx_transaction_id x = Some t" "bx_policy_digest x = Some d" for e t d
    by (rule follows_step, rule protocol_step.verify [of _ e t d verdict]) (simp_all add: that)
  have concluded: "post (conclude_verification xc verdict) (\<lambda>_. follows xc provider x) (\<lambda>_. follows xc provider x) (follows xc provider x) y"
    if "follows xc provider x (y\<lparr>bx_state := phase_of_verdict verdict\<rparr>)" for y
    using that unfolding conclude_verification_def post_simps set_ex_state_def phase_of_verdict_def contradictory_def
    by (auto intro!: post_record_follows [of xc provider x])
  show "ends xc provider (submit_verification os js xc verdict) x w"
    unfolding submit_verification_def post_simps case_prod_conv fst_conv
    by (rule post_guard)
      (auto simp: post_simps follow.R_refl checked_def split: option.splits
        intro!: post_require_state post_validate_workspace [of x _ _ xc provider]
          post_or_recorded [OF grown_authorize_candidate, of _ _ x xc provider] post_fail_recorded [of xc provider x]
          concluded judged)
qed

lemma follows_rollback:
  fixes os :: "('d, 'w) os"
  shows "leaves (follows_with xc provider) (ex_rollback os js xc)"
proof (rule leaves_withI)
  fix x and w :: "'d workspace \<times> 'w session"
  have undone: "follows xc provider x (x\<lparr>bx_rollback := Succeeded, bx_state := RolledBack\<rparr>)"
    if "bx_state x \<notin> {Resolved, DryRun, RolledBack}"
    by (rule follows_step, rule protocol_step.undo) (use that in simp_all)
  have stuck: "follows xc provider x (x\<lparr>bx_rollback := RollbackFailed, bx_state := Escalated\<rparr>)"
    if "bx_state x \<notin> {Resolved, RolledBack}"
    by (rule follows_escalate) (use that in simp_all)
  show "ends xc provider (ex_rollback os js xc) x w"
    unfolding ex_rollback_def post_simps case_prod_conv fst_conv
    by (rule post_guard)
      (auto simp: post_simps follow.R_refl intro!: post_validate_workspace [of x _ _ xc provider] post_grown [OF grown_abort]
        post_ignoring post_record_follows [of xc provider x] undone stuck)
qed

lemma follows_discarding: "leaves (follows xc provider) m \<Longrightarrow> leaves (follows xc provider) (discarding m)"
  unfolding discarding_def by (intro follow.leaves_rules)

lemma follows_perform: "leaves (follows_with xc provider) (ex_perform os js xc provider c)"
  by (cases c) (simp_all add: follows_on_ex follows_on_ws follows_with_state follows_discarding follows_propose_replace
      follows_bind_transaction follows_apply_proposal follows_submit_verification follows_submit_delivery follows_rollback
      follows_charge_budget follows_retry_failure follows_interrupt follows_resume)

end
