(* ===== verification/Executor_Seal.thy ===== *)
theory Executor_Seal
  imports Executor_Protocol
begin

text \<open>
  The integrity of an executor: the hash chain of its events and the seal over its state. Under
  encoders that do not fail, every call leaves an executor that passes its own integrity check,
  whatever the workspace answers and wherever the call ends.
\<close>

section \<open>Comparing without a shortcut\<close>

lemma xor_zero_iff: "a XOR b = 0 \<longleftrightarrow> a = (b :: byte)"
  by (auto simp: bit_eq_iff bit_xor_iff)

lemma fold_or_zero:
  fixes d :: byte
  shows "fold (\<lambda>(a, b) diff. diff OR (a XOR b)) ps d = 0 \<longleftrightarrow> d = 0 \<and> list_all (\<lambda>(a, b). a = b) ps"
proof (induction ps arbitrary: d)
  case (Cons p ps)
  obtain a b where p: "p = (a, b)" by (cases p)
  have "d OR (a XOR b) = 0 \<longleftrightarrow> d = 0 \<and> a = b" unfolding or_eq_0_iff xor_zero_iff by (rule refl)
  then show ?case
    using Cons.IH [of "d OR (a XOR b)"] unfolding p fold_simps list.pred_inject(2) case_prod_conv by blast
qed simp

lemma zip_equal: "length left = length right \<Longrightarrow> list_all (\<lambda>(a, b). a = b) (zip left right) \<longleftrightarrow> left = right"
  by (induction left right rule: list_induct2) auto

lemma constant_time_eq_iff: "constant_time_eq left right \<longleftrightarrow> left = right"
  unfolding constant_time_eq_def fold_or_zero using zip_equal by blast

lemma str_bytes_inj: "str_bytes s = str_bytes t \<longleftrightarrow> s = t"
  by (metis bytes_str_bytes)

section \<open>The chain\<close>

definition last_usage :: "bounded_executor \<Rightarrow> budget_usage" where
  "last_usage x = (if bx_events x = [] then no_usage else ev_budget_usage (last (bx_events x)))"

lemma chain_loop_snoc:
  "chain_loop xc i previous usage (events @ [e]) =
     rbind (chain_loop xc i previous usage events) (\<lambda>d.
       chain_loop xc (i + length events) d (if events = [] then usage else ev_budget_usage (last events)) [e])"
  by (induction events arbitrary: i previous usage) (auto simp: rbind_def split: sum.splits)

lemma chain_loop_last: "chain_loop xc i previous usage events = Inr d \<Longrightarrow> events \<noteq> [] \<Longrightarrow> ev_event_digest (last events) = d"
  by (induction events arbitrary: i previous usage) (auto simp: rbind_Inr_iff split: if_splits)

text \<open>What an executor satisfies between a mutation and the record of it.\<close>

definition sealable :: "executor_codec \<Rightarrow> bounded_executor \<Rightarrow> bool" where
  "sealable xc x \<longleftrightarrow>
     chain_loop xc 0 (empty_digest xc) no_usage (bx_events x) = Inr (bx_state_digest x)
     \<and> \<not> usage_less (eb_consumed (bx_budgets x)) (last_usage x)
     \<and> (\<exists>key. bx_seal_key x = Some key \<and> sk_key_id key = bx_seal_key_id x)
     \<and> in_budget (protocol x) \<and> bg_retries (eb_limits (bx_budgets x)) < - 1"

definition sealed :: "executor_codec \<Rightarrow> bounded_executor \<Rightarrow> bool" where
  "sealed xc x \<longleftrightarrow> validate_integrity xc x = Inr () \<and> in_budget (protocol x) \<and> bg_retries (eb_limits (bx_budgets x)) < - 1"

definition total_codec :: "executor_codec \<Rightarrow> bool" where
  "total_codec xc \<longleftrightarrow> (\<forall>t. \<exists>bytes. xc_event xc t = Inr bytes) \<and> (\<forall>x. \<exists>bytes. xc_executor xc x = Inr bytes)"

lemma compute_seal_Inr:
  "compute_seal xc x = Inr mac \<longleftrightarrow>
     (\<exists>key bytes. bx_seal_key x = Some key \<and> sk_key_id key = bx_seal_key_id x
       \<and> xc_executor xc (x\<lparr>bx_seal_mac := ''''\<rparr>) = Inr bytes \<and> mac = hmac_digest xc (sk_secret key) ExecutorStateV0 bytes)"
  by (auto simp: compute_seal_def rbind_Inr_iff split: option.splits)

lemma compute_seal_mac [simp]: "compute_seal xc (x\<lparr>bx_seal_mac := mac\<rparr>) = compute_seal xc x"
  by (simp add: compute_seal_def split: option.splits)

lemma validate_integrity_Inr:
  "validate_integrity xc x = Inr () \<longleftrightarrow> validate_chain xc x = Inr () \<and> compute_seal xc x = Inr (bx_seal_mac x)"
  by (auto simp: validate_integrity_def rbind_Inr_iff constant_time_eq_iff str_bytes_inj)

lemma validate_chain_Inr:
  "validate_chain xc x = Inr () \<longleftrightarrow>
     chain_loop xc 0 (empty_digest xc) no_usage (bx_events x) = Inr (bx_state_digest x)
     \<and> (bx_events x \<noteq> [] \<longrightarrow> ev_state (last (bx_events x)) = bx_state x
         \<and> ev_budget_usage (last (bx_events x)) = eb_consumed (bx_budgets x)
         \<and> ev_candidate_digest (last (bx_events x)) = bx_candidate_digest x)"
  by (auto simp: validate_chain_def rbind_Inr_iff last_event_def)

lemma sealed_sealable: "sealed xc x \<Longrightarrow> sealable xc x"
  by (auto simp: sealed_def sealable_def validate_integrity_Inr validate_chain_Inr compute_seal_Inr last_usage_def
      usage_less_def no_usage_def)

lemma seal_exists:
  "total_codec xc \<Longrightarrow> bx_seal_key y = Some key \<Longrightarrow> sk_key_id key = bx_seal_key_id y \<Longrightarrow> \<exists>mac. compute_seal xc y = Inr mac"
  by (simp add: compute_seal_Inr total_codec_def)

lemma ex_record_seals:
  assumes "total_codec xc" "sealable xc x"
  obtains y where "ex_record xc kind detail x = (Done (), y)" "sealed xc y"
proof -
  let ?e = "\<lparr>ev_sequence = of_nat (length (bx_events x)), ev_kind = kind, ev_detail = detail, ev_state = bx_state x,
      ev_budget_usage = eb_consumed (bx_budgets x), ev_candidate_digest = bx_candidate_digest x,
      ev_previous_digest = bx_state_digest x, ev_event_digest = ''''\<rparr>"
  obtain snapshot where "xc_event xc (ev_sequence ?e, kind, detail, bx_state x, eb_consumed (bx_budgets x),
      bx_candidate_digest x, bx_state_digest x) = Inr snapshot"
    using assms(1) unfolding total_codec_def by blast
  then obtain d where d: "event_digest xc ?e (bx_state_digest x) = Inr d"
    by (simp add: event_digest_def)
  let ?y = "x\<lparr>bx_events := bx_events x @ [?e\<lparr>ev_event_digest := d\<rparr>], bx_state_digest := d\<rparr>"
  obtain mac where mac: "compute_seal xc ?y = Inr mac"
    using seal_exists [OF assms(1), of ?y] assms(2) by (auto simp: sealable_def)
  have "event_digest xc (?e\<lparr>ev_event_digest := d\<rparr>) (bx_state_digest x) = Inr d"
    using d by (simp add: event_digest_def)
  then have chain: "chain_loop xc 0 (empty_digest xc) no_usage (bx_events ?y) = Inr d"
    using assms(2) by (auto simp: chain_loop_snoc sealable_def last_usage_def)
  have "ex_record xc kind detail x = (Done (), ?y\<lparr>bx_seal_mac := mac\<rparr>)"
    using d mac by (simp add: ex_record_def sbind_def sget_def smodify_def of_result_def sret_def Let_def)
  moreover have "sealed xc (?y\<lparr>bx_seal_mac := mac\<rparr>)"
    using chain mac assms(2) by (simp add: sealed_def validate_integrity_Inr validate_chain_Inr sealable_def in_budget_def protocol_def)
  ultimately show ?thesis by (rule that)
qed

section \<open>Every call reseals\<close>

lemma sealable_updates [simp]:
  "sealable xc (x\<lparr>bx_state := s\<rparr>) = sealable xc x"
  "sealable xc (x\<lparr>bx_failures := f\<rparr>) = sealable xc x"
  "sealable xc (x\<lparr>bx_rollback := rb\<rparr>) = sealable xc x"
  "sealable xc (x\<lparr>bx_interrupted_from := q\<rparr>) = sealable xc x"
  "sealable xc (x\<lparr>bx_proposal := e\<rparr>) = sealable xc x"
  "sealable xc (x\<lparr>bx_candidate_digest := c\<rparr>) = sealable xc x"
  "sealable xc (x\<lparr>bx_transaction_id := t\<rparr>) = sealable xc x"
  "sealable xc (x\<lparr>bx_policy_digest := d\<rparr>) = sealable xc x"
  "sealable xc (x\<lparr>bx_verification := v\<rparr>) = sealable xc x"
  "sealable xc (x\<lparr>bx_candidate_binding := b\<rparr>) = sealable xc x"
  "sealable xc (x\<lparr>bx_delivery := ev\<rparr>) = sealable xc x"
  by (simp_all add: sealable_def last_usage_def in_budget_def)

lemma usage_trans: "\<not> usage_less a b \<Longrightarrow> \<not> usage_less b c \<Longrightarrow> \<not> usage_less a c"
  by (auto simp: usage_less_def)

lemma sealable_spend:
  assumes "sealable xc x" "\<not> usage_less u (eb_consumed (bx_budgets x))" "\<not> exceeds u (eb_limits (bx_budgets x))"
  shows "sealable xc (x\<lparr>bx_budgets := (bx_budgets x)\<lparr>eb_consumed := u\<rparr>\<rparr>)"
  using assms usage_trans [of u "eb_consumed (bx_budgets x)" "last_usage x"]
  by (auto simp: sealable_def in_budget_def last_usage_def)

definition keeps_seal :: "executor_codec \<Rightarrow> bounded_executor \<Rightarrow> bounded_executor \<Rightarrow> bool" where
  "keeps_seal xc x y \<longleftrightarrow> (total_codec xc \<longrightarrow> sealed xc x \<longrightarrow> sealed xc y)"

interpretation seal: step_frame "keeps_seal xc"
  by unfold_locales (auto simp: keeps_seal_def)

lemma leaves_sealI:
  assumes "\<And>x. total_codec xc \<Longrightarrow> sealed xc x \<Longrightarrow> post m (\<lambda>_. sealed xc) (\<lambda>_. sealed xc) (sealed xc) x"
  shows "leaves (keeps_seal xc) m"
proof -
  have "sealed xc (snd (m x))" if "total_codec xc" "sealed xc x" for x
    by (rule iffD1 [OF post_all assms [OF that]])
  then show ?thesis unfolding leaves_def keeps_seal_def by blast
qed

lemma post_record_sealed:
  assumes "total_codec xc" "sealable xc y" "\<And>z. sealed xc z \<Longrightarrow> Q () z"
  shows "post (ex_record xc kind detail) Q E C y"
proof -
  obtain z where "ex_record xc kind detail y = (Done (), z)" "sealed xc z" by (rule ex_record_seals [OF assms(1,2)])
  then show ?thesis using assms(3) by (simp add: post_def)
qed

lemma post_reject_sealed:
  assumes "total_codec xc" "sealed xc x" "\<And>e y. sealed xc y \<Longrightarrow> E e y"
  shows "post (reject xc message) Q E C x"
  unfolding reject_def set_ex_state_def push_failure_def post_simps
  by (rule post_ignoring, rule post_record_sealed [OF assms(1)]) (use assms(2,3) sealed_sealable in auto)

lemma seal_charge_budget: "leaves (keeps_seal xc) (charge_budget xc usage)"
proof (rule leaves_sealI)
  fix x assume t: "total_codec xc" and s: "sealed xc x"
  show "post (charge_budget xc usage) (\<lambda>_. sealed xc) (\<lambda>_. sealed xc) (sealed xc) x"
    unfolding charge_budget_def set_ex_state_def set_consumed_def post_simps
    by (rule post_guard, rule post_nonterminal)
      (auto simp: post_simps s sealed_sealable split: sum.splits dest!: add_usage_grows
        intro!: post_record_sealed [OF t] sealable_spend)
qed

lemma retries_room:
  assumes "sealed xc x"
  obtains n where "word_checked_add (bu_retries (eb_consumed (bx_budgets x))) 1 = Some n"
proof -
  let ?r = "bu_retries (eb_consumed (bx_budgets x))"
  have "?r < - 1" using assms by (auto simp: sealed_def in_budget_def exceeds_def)
  then have "unat ?r + 1 < 2 ^ 32" by (simp add: word_less_nat_alt unsigned_minus_1_eq_mask mask_eq_exp_minus_1)
  then show ?thesis using that by (simp add: word_checked_add_def)
qed

lemma seal_retry_failure: "leaves (keeps_seal xc) (retry_failure xc cause code message)"
proof (rule leaves_sealI)
  fix x assume t: "total_codec xc" and s: "sealed xc x"
  obtain n where n: "word_checked_add (bu_retries (eb_consumed (bx_budgets x))) 1 = Some n"
    using retries_room [OF s] by blast
  have budget: "\<not> exceeds (eb_consumed (bx_budgets x)) (eb_limits (bx_budgets x))" using s by (simp add: sealed_def in_budget_def)
  have spend: "sealable xc (x\<lparr>bx_failures := f, bx_budgets := (bx_budgets x)\<lparr>eb_consumed := (eb_consumed (bx_budgets x))\<lparr>bu_retries := n\<rparr>\<rparr>\<rparr>)"
    if "\<not> bg_retries (eb_limits (bx_budgets x)) < n" for f
    using sealable_spend [of xc "x\<lparr>bx_failures := f\<rparr>" "(eb_consumed (bx_budgets x))\<lparr>bu_retries := n\<rparr>"]
      retry_budget [OF budget that] retry_usage [OF n] sealed_sealable [OF s] by simp
  show "post (retry_failure xc cause code message) (\<lambda>_. sealed xc) (\<lambda>_. sealed xc) (sealed xc) x"
    unfolding retry_failure_def set_ex_state_def set_consumed_def push_failure_def post_simps Let_def
    by (rule post_guard, rule post_nonterminal)
      (auto simp: post_simps s sealed_sealable n checked_def intro!: post_record_sealed [OF t] spend)
qed

lemma post_sealed:
  assumes "leaves (keeps_seal xc) m" "total_codec xc" "sealed xc x" "\<And>a y. sealed xc y \<Longrightarrow> Q a y"
    "\<And>e y. sealed xc y \<Longrightarrow> E e y" "\<And>y. sealed xc y \<Longrightarrow> C y"
  shows "post m Q E C x"
  using seal.at_leaves [OF assms(1), of x] assms(2-6) unfolding post_def keeps_seal_def
  by (auto split: prod.splits outcome.splits)

lemma post_fail_sealed:
  assumes "total_codec xc" "sealed xc x" "\<And>e y. sealed xc y \<Longrightarrow> E e y" "\<And>y. sealed xc y \<Longrightarrow> C y"
  shows "post (fail_recorded xc cause code message) Q E C x"
  unfolding fail_recorded_def failure_error_def post_simps
  by (rule post_ignoring, rule post_sealed [OF seal_retry_failure assms(1,2)]) (use assms(3,4) in auto)

lemma post_workspace_sealed:
  assumes "total_codec xc" "sealed xc x" "Q () x" "\<And>e y. sealed xc y \<Longrightarrow> E e y"
  shows "post (validate_workspace xc st) Q E C x"
proof -
  have "post (reject xc message) Q E C x" for message
    by (rule post_reject_sealed [OF assms(1,2,4)])
  then show ?thesis unfolding validate_workspace_def post_simps using assms(3) by auto
qed

lemma post_path_sealed:
  assumes "total_codec xc" "sealed xc x" "Q () x" "\<And>e y. sealed xc y \<Longrightarrow> E e y"
  shows "post (authorize_path xc path) Q E C x"
proof -
  have "post (reject xc message) Q E C x" for message
    by (rule post_reject_sealed [OF assms(1,2,4)])
  then show ?thesis unfolding authorize_path_def post_simps using assms(3) by auto
qed

lemma seal_propose_replace: "leaves (keeps_seal xc) (propose_replace xc path current find_text replacement)"
proof (rule leaves_sealI)
  fix x assume t: "total_codec xc" and s: "sealed xc x"
  show "post (propose_replace xc path current find_text replacement) (\<lambda>_. sealed xc) (\<lambda>_. sealed xc) (sealed xc) x"
    unfolding propose_replace_def post_simps set_ex_state_def Let_def
    by (rule post_guard, rule post_require_state, rule post_path_sealed [OF t s])
      (auto simp: post_simps s sealed_sealable split: option.splits
        intro!: post_reject_sealed [OF t s] post_record_sealed [OF t])
qed

lemma seal_bind_transaction: "leaves (keeps_seal xc) (bind_transaction xc st)"
proof (rule leaves_sealI)
  fix x assume t: "total_codec xc" and s: "sealed xc x"
  show "post (bind_transaction xc st) (\<lambda>_. sealed xc) (\<lambda>_. sealed xc) (sealed xc) x"
    unfolding bind_transaction_def post_simps
    by (rule post_guard, rule post_require_state, rule post_workspace_sealed [OF t s])
      (auto simp: s sealed_sealable intro!: post_record_sealed [OF t])
qed

lemma seal_interrupt: "leaves (keeps_seal xc) (ex_interrupt xc)"
proof (rule leaves_sealI)
  fix x assume t: "total_codec xc" and s: "sealed xc x"
  show "post (ex_interrupt xc) (\<lambda>_. sealed xc) (\<lambda>_. sealed xc) (sealed xc) x"
    unfolding ex_interrupt_def post_simps
    by (intro post_guard post_nonterminal) (auto simp: post_simps s sealed_sealable intro!: post_record_sealed [OF t])
qed

lemma seal_resume: "leaves (keeps_seal xc) (ex_resume xc)"
proof (rule leaves_sealI)
  fix x assume t: "total_codec xc" and s: "sealed xc x"
  have same: "x\<lparr>bx_interrupted_from := None\<rparr> = x" if "bx_interrupted_from x = None"
    using that by (cases x) simp
  show "post (ex_resume xc) (\<lambda>_. sealed xc) (\<lambda>_. sealed xc) (sealed xc) x"
    unfolding ex_resume_def post_simps set_ex_state_def
    by (intro post_guard post_require_state)
      (auto simp: post_simps s sealed_sealable checked_def same split: option.splits intro!: post_record_sealed [OF t])
qed

lemma seal_submit_delivery: "leaves (keeps_seal xc) (submit_delivery xc clock st evidence provider)"
proof (rule leaves_sealI)
  fix x assume t: "total_codec xc" and s: "sealed xc x"
  show "post (submit_delivery xc clock st evidence provider) (\<lambda>_. sealed xc) (\<lambda>_. sealed xc) (sealed xc) x"
    unfolding submit_delivery_def post_simps
    by (rule post_guard, rule post_require_state, rule post_workspace_sealed [OF t s])
      (auto simp: post_simps s sealed_sealable checked_def split: sum.splits option.splits
        intro!: post_fail_sealed [OF t s] post_record_sealed [OF t])
qed

section \<open>Calls on the executor and the workspace\<close>

definition keeps_seal_with :: "executor_codec \<Rightarrow> bounded_executor \<times> 'b \<Rightarrow> bounded_executor \<times> 'b \<Rightarrow> bool" where
  "keeps_seal_with xc s t \<longleftrightarrow> keeps_seal xc (fst s) (fst t)"

abbreviation ends_sealed :: "executor_codec \<Rightarrow> ('d, 'w, unit) xw_m \<Rightarrow> bounded_executor \<Rightarrow> 'd workspace \<times> 'w session \<Rightarrow> bool" where
  "ends_sealed xc m x w \<equiv> post m (\<lambda>_ t. sealed xc (fst t)) (\<lambda>_ t. sealed xc (fst t)) (\<lambda>t. sealed xc (fst t)) (x, w)"

lemma leaves_seal_withI:
  assumes "\<And>x w. total_codec xc \<Longrightarrow> sealed xc x \<Longrightarrow> ends_sealed xc m x w"
  shows "leaves (keeps_seal_with xc) m"
proof -
  have "sealed xc (fst (snd (m (x, w))))" if "total_codec xc" "sealed xc x" for x w
    using assms [OF that, of w] post_all [of m "\<lambda>t. sealed xc (fst t)" "(x, w)"] by blast
  then show ?thesis unfolding leaves_def keeps_seal_with_def keeps_seal_def by (metis prod.collapse)
qed

lemma seal_on_ex: "leaves (keeps_seal xc) m \<Longrightarrow> leaves (keeps_seal_with xc) (on_ex m)"
  by (simp add: leaves_def keeps_seal_with_def on_ex_def case_prod_beta)

lemma seal_on_ws: "leaves (keeps_seal_with xc) (on_ws m)"
  by (simp add: leaves_def keeps_seal_with_def on_ws_def seal.R_refl case_prod_beta)

lemma seal_with_state: "(\<And>st. leaves (keeps_seal xc) (m st)) \<Longrightarrow> leaves (keeps_seal_with xc) (with_state m)"
  by (simp add: leaves_def keeps_seal_with_def with_state_def sbind_def on_ws_def on_ex_def the_state_def sget_def case_prod_beta)

lemma post_or_sealed:
  assumes "total_codec xc" "sealed xc x" "\<And>a v. Q a (x, v)" "\<And>e y v. sealed xc y \<Longrightarrow> E e (y, v)" "\<And>y v. sealed xc y \<Longrightarrow> C (y, v)"
  shows "post (or_recorded xc cause code m) Q E C (x, w)"
proof -
  have "post (fail_recorded xc cause code e) (\<lambda>a y. Q a (y, v)) (\<lambda>e y. E e (y, v)) (\<lambda>y. C (y, v)) x" for e v
    by (rule post_fail_sealed [OF assms(1,2)]) (rule assms(4,5), assumption)+
  then have "post m (\<lambda>a v. Q a (x, v)) (\<lambda>e v. post (fail_recorded xc cause code e) (\<lambda>a y. Q a (y, v)) (\<lambda>e y. E e (y, v)) (\<lambda>y. C (y, v)) x)
      (\<lambda>v. C (x, v)) w"
    using assms(2,3,5) unfolding post_def [of m] by (auto split: prod.splits outcome.splits)
  then show ?thesis unfolding or_recorded_def post_simps by (simp add: post_simps)
qed

lemma seal_apply_proposal:
  fixes os :: "('d, 'w) os"
  shows "leaves (keeps_seal_with xc) (apply_proposal os js xc)"
proof (rule leaves_seal_withI)
  fix x and w :: "'d workspace \<times> 'w session"
  assume t: "total_codec xc" and s: "sealed xc x"
  show "ends_sealed xc (apply_proposal os js xc) x w"
    unfolding apply_proposal_def post_simps case_prod_conv fst_conv
    by (rule post_guard)
      (auto simp: post_simps s sealed_sealable checked_def split: option.splits
        intro!: post_require_state post_workspace_sealed [OF t s] post_or_sealed [OF t s] post_fail_sealed [OF t s]
          post_record_sealed [OF t])
qed

lemma seal_submit_verification:
  fixes os :: "('d, 'w) os"
  shows "leaves (keeps_seal_with xc) (submit_verification os js xc verdict)"
proof (rule leaves_seal_withI)
  fix x and w :: "'d workspace \<times> 'w session"
  assume t: "total_codec xc" and s: "sealed xc x"
  have concluded: "post (conclude_verification xc verdict) (\<lambda>_. sealed xc) (\<lambda>_. sealed xc) (sealed xc) y" if "sealable xc y" for y
    unfolding conclude_verification_def post_simps set_ex_state_def using that by (auto intro!: post_record_sealed [OF t])
  show "ends_sealed xc (submit_verification os js xc verdict) x w"
    unfolding submit_verification_def post_simps case_prod_conv fst_conv
    by (rule post_guard)
      (auto simp: post_simps s sealed_sealable checked_def split: option.splits
        intro!: post_require_state post_workspace_sealed [OF t s] post_or_sealed [OF t s] post_fail_sealed [OF t s] concluded)
qed

lemma post_any: "(\<And>a v. Q a v) \<Longrightarrow> (\<And>e v. E e v) \<Longrightarrow> (\<And>v. C v) \<Longrightarrow> post m Q E C w"
  by (simp add: post_def split: prod.splits outcome.splits)

lemma seal_rollback:
  fixes os :: "('d, 'w) os"
  shows "leaves (keeps_seal_with xc) (ex_rollback os js xc)"
proof (rule leaves_seal_withI)
  fix x and w :: "'d workspace \<times> 'w session"
  assume t: "total_codec xc" and s: "sealed xc x"
  show "ends_sealed xc (ex_rollback os js xc) x w"
    unfolding ex_rollback_def post_simps case_prod_conv fst_conv
    by (rule post_guard)
      (auto simp: post_simps s sealed_sealable intro!: post_workspace_sealed [OF t s] post_any [where m = "abort os js"]
        post_ignoring post_record_sealed [OF t])
qed

lemma seal_discarding: "leaves (keeps_seal xc) m \<Longrightarrow> leaves (keeps_seal xc) (discarding m)"
  unfolding discarding_def by (intro seal.leaves_rules)

lemma seal_perform: "leaves (keeps_seal_with xc) (ex_perform os js xc provider c)"
  by (cases c) (simp_all add: seal_on_ex seal_on_ws seal_with_state seal_discarding seal_propose_replace seal_bind_transaction
      seal_apply_proposal seal_submit_verification seal_submit_delivery seal_rollback seal_charge_budget seal_retry_failure
      seal_interrupt seal_resume)

end
