(* ===== verification/Executor_Contract.thy ===== *)
theory Executor_Contract
  imports Executor_Seal Agent_Task_Theorems
begin

text \<open>
  Creating an executor: the digests of the hash crate, the contracts that the executor accepts, and
  that an accepted contract gives an executor.
\<close>

section \<open>Digests\<close>

definition hash_lengths :: "executor_codec \<Rightarrow> bool" where
  "hash_lengths xc \<longleftrightarrow> (\<forall>bytes. length (xc_sha256 xc bytes) = 32) \<and> (\<forall>key bytes. length (xc_hmac xc key bytes) = 32)"

lemma hex_bytes_lower: "length (hex_bytes bytes) = 2 * length bytes \<and> list_all is_lower_hex (hex_bytes bytes)"
proof (induction bytes)
  case (Cons b bytes)
  have "unat b < 256" using unsigned_less [of b] by simp
  then have "is_lower_hex (hex_digit (unat b div 16))" "is_lower_hex (hex_digit (unat b mod 16))"
    by (intro hex_digit_lower; simp)+
  then show ?case using Cons by (simp add: hex_bytes_def)
qed (simp add: hex_bytes_def)

lemma is_digest_sha256: "is_digest (sha256_digest bytes)"
  using stable_digest_hex [of bytes] by (simp add: is_digest_def sha256_digest_tagged starts_with_def list_all_iff)

lemma ex_digest_stable:
  "\<forall>bytes. hex_bytes (xc_sha256 xc bytes) = stable_digest bytes \<Longrightarrow> ex_digest xc bytes = sha256_digest bytes"
  by (simp add: ex_digest_def sha256_digest_tagged)

section \<open>Contracts\<close>

lemma contract_accepted:
  assumes "\<forall>bytes. hex_bytes (xc_sha256 xc bytes) = stable_digest bytes" "task_wf nodes t" "to_json (contract_of t) = Inr bytes"
    "\<not> any_delivery (ts_delivery_permissions t)"
  shows "validate_contract xc to_json ((contract_of t)\<lparr>ct_contract_digest := ''sha256:'' @ stable_digest bytes\<rparr>) = Inr ()"
proof -
  let ?c = "(contract_of t)\<lparr>ct_contract_digest := ''sha256:'' @ stable_digest bytes\<rparr>"
  have clear: "?c\<lparr>ct_contract_digest := ''''\<rparr> = contract_of t" by (simp add: contract_of_def)
  have "ex_validate_digest (''sha256:'' @ stable_digest bytes) = Inr ()"
    using is_digest_sha256 [of bytes] by (simp add: ex_validate_digest_def sha256_digest_tagged)
  moreover have "ex_digest xc bytes = ''sha256:'' @ stable_digest bytes"
    using ex_digest_stable [OF assms(1)] by (simp add: sha256_digest_tagged)
  moreover have "sp_allowed_files (ts_scope t) \<noteq> []" using assms(2) by (simp add: task_wf_def scope_wf_def)
  moreover have "rpl_allowed_files r \<noteq> [] \<and> set (rpl_allowed_files r) \<subseteq> set (sp_allowed_files (ts_scope t))"
    if "ts_repair_plan t = Some r" for r
    using assms(2) that by (simp add: task_wf_def repair_wf_def)
  ultimately show ?thesis
    unfolding validate_contract_def clear using assms(3,4)
    by (auto simp: contract_of_def list_ex_iff split: option.splits)
qed

lemma planned_sealable:
  "bg_retries (ct_budgets contract) < - 1 \<Longrightarrow> sealable xc (planned_executor xc contract base_sha dry_run policy key)"
  by (simp add: sealable_def planned_executor_def last_usage_def usage_less_def no_usage_def in_budget_def exceeds_def protocol_def)

lemma new_executor_accepts:
  assumes "total_codec xc" "validate_contract xc to_json contract = Inr ()" "is_sha (au_source_revision (ct_authority contract))"
    "bg_retries (ct_budgets contract) < - 1"
  shows "\<exists>x. new_executor xc to_json contract (au_source_revision (ct_authority contract)) dry_run key s = (Done x, s)"
proof -
  let ?x = "planned_executor xc contract (au_source_revision (ct_authority contract)) dry_run \<lparr>ry_approved_causes = []\<rparr> key"
  obtain y where "ex_record xc ''planned'' (ct_id contract) ?x = (Done (), y)"
    by (rule ex_record_seals [OF assms(1) planned_sealable [OF assms(4)]])
  then show ?thesis
    using assms(2,3) by (simp add: new_executor_def new_with_retry_policy_def sbind_def of_result_def sret_def
        ex_validate_sha_def validate_retry_policy_def building_def)
qed

end
