(* ===== verification/Executor_Sample.thy ===== *)
theory Executor_Sample
  imports Executor_Contract Sample_System
begin

text \<open>
  A run of an executor from its creation to a resolved task, on a small system with one file and the
  state file of the transaction. It shows that the assumptions of the properties can hold together.
\<close>

section \<open>The system\<close>

record demo_world =
  dw_state :: "byte list"
  dw_file :: "byte list"
  dw_temp :: "byte list"

definition head_sha :: string where
  "head_sha = replicate 40 (CHR ''b'')"

definition old_text :: string where "old_text = ''x = 1''"
definition new_text :: string where "new_text = ''x = 2''"

definition demo_git :: "string list \<Rightarrow> string" where
  "demo_git args = (if hd args = ''show'' then new_text else if hd args = ''diff'' then ''a.ax'' @ [CHR 0x00] else head_sha)"

text \<open>A descriptor is the name it was opened with; a write goes to a temporary buffer, and a
  renaming publishes the buffer.\<close>

definition demo_os :: "(string, demo_world) os" where
  "demo_os =
     \<lparr>os_fstatat = (\<lambda>d n w. (Inr plain_file, w)), os_mkdirat = (\<lambda>d n m w. (Inr (), w)),
      os_openat = (\<lambda>d n flags m w. (Inr n, w)), os_dup = (\<lambda>d w. (Inr d, w)),
      os_read_to_end = (\<lambda>d w. (Inr (if d = state_file then dw_state w else dw_file w), w)),
      os_write_all = (\<lambda>d bytes w. (Inr (), w\<lparr>dw_temp := bytes\<rparr>)),
      os_fsync = (\<lambda>d w. (Inr (), w)), os_unlinkat = (\<lambda>d n b w. (Inr (), w)),
      os_renameat = (\<lambda>d n d' n' w. (Inr (), if n' = state_file then w\<lparr>dw_state := dw_temp w\<rparr> else w\<lparr>dw_file := dw_temp w\<rparr>)),
      os_fchmod = (\<lambda>d m w. (Inr (), w)),
      os_fstat = (\<lambda>d w. (Inr plain_file, w)), os_flock = (\<lambda>d w. (Inr (), w)),
      os_past_deadline = (\<lambda>w. (False, w)), os_descriptor_path = (\<lambda>d. ''/w''),
      os_open_root = (\<lambda>p w. (Inr p, w)), os_canonicalize = (\<lambda>p w. (Inr p, w)),
      os_create_dir_all = (\<lambda>p w. (Inr (), w)), os_exists = (\<lambda>p w. (False, w)),
      os_symlink_metadata = (\<lambda>p w. (Inl missing_error, w)), os_read_dir = (\<lambda>p w. (Inr [], w)),
      os_read_link = (\<lambda>p w. (Inr p, w)), os_read_file = (\<lambda>p w. (Inr (dw_file w), w)),
      os_git = (\<lambda>dir args w. (Inr \<lparr>co_success = True, co_stdout = str_bytes (demo_git args), co_stderr = []\<rparr>, w)),
      os_process_id = 1, os_epoch_nanos = (\<lambda>w. (0, w)), os_walk_bound = 2\<rparr>"

lemma demo_calls [simp]:
  "os_fstatat demo_os d n w = (Inr plain_file, w)" "os_openat demo_os d n flags m w = (Inr n, w)"
  "os_dup demo_os d w = (Inr d, w)"
  "os_read_to_end demo_os d w = (Inr (if d = state_file then dw_state w else dw_file w), w)"
  "os_write_all demo_os d bytes w = (Inr (), w\<lparr>dw_temp := bytes\<rparr>)" "os_fsync demo_os d w = (Inr (), w)"
  "os_renameat demo_os d n d' n' w = (Inr (), if n' = state_file then w\<lparr>dw_state := dw_temp w\<rparr> else w\<lparr>dw_file := dw_temp w\<rparr>)"
  "os_exists demo_os p w = (False, w)" "os_symlink_metadata demo_os p w = (Inl missing_error, w)"
  "os_read_dir demo_os p w = (Inr [], w)"
  "os_git demo_os dir args w = (Inr \<lparr>co_success = True, co_stdout = str_bytes (demo_git args), co_stderr = []\<rparr>, w)"
  "os_process_id demo_os = 1" "os_walk_bound demo_os = 2"
  by (simp_all add: demo_os_def)

lemma demo_parts: "relative_components state_file = Inr [state_file]" "relative_components ''a.ax'' = Inr [''a.ax'']"
  by code_simp+

lemma demo_file [simp]: "file_kind plain_file = s_ifreg" "st_nlink plain_file = 1" "s_ifreg \<noteq> s_iflnk" "''a.ax'' \<noteq> state_file"
  by (simp_all add: file_kind_def plain_file_def s_ifreg_def s_iflnk_def state_file_def)

lemmas demo_simps = sbind_def sret_def sfail_def of_result_def sys_or_def sys_def attempt_def sthen_def

lemma demo_stat: "anchored_entry_stat demo_os d n s = (Done (Some plain_file), s)"
  by (simp add: anchored_entry_stat_def demo_simps)

lemma demo_parent: "relative_components n = Inr [n] \<Longrightarrow> open_anchored_parent demo_os d n b s = (Done (d, n), s)"
  by (simp add: open_anchored_parent_def duplicate_root_def demo_simps)

lemma demo_open: "relative_components n = Inr [n] \<Longrightarrow> open_anchored_file demo_os d n s = (Done n, s)"
  by (simp add: open_anchored_file_def demo_simps demo_parent require_entry_def demo_stat)

lemma demo_read:
  "relative_components n = Inr [n] \<Longrightarrow>
    secure_read demo_os d n s = (Done (if n = state_file then dw_state (world s) else dw_file (world s)), s)"
  by (simp add: secure_read_def demo_open demo_simps)

lemma demo_digest: "secure_file_digest demo_os d ''a.ax'' s = (Done (Some (sha256_digest (dw_file (world s)))), s)"
  by (simp add: secure_file_digest_def demo_open demo_parts demo_simps)

definition demo_publish :: "string \<Rightarrow> byte list \<Rightarrow> demo_world session \<Rightarrow> demo_world session" where
  "demo_publish n bytes s = s\<lparr>temp_sequence := temp_sequence s + 1,
     world := if n = state_file then (world s)\<lparr>dw_temp := bytes, dw_state := bytes\<rparr> else (world s)\<lparr>dw_temp := bytes, dw_file := bytes\<rparr>\<rparr>"

lemma demo_write:
  assumes "relative_components n = Inr [n]"
  shows "secure_write demo_os d n bytes s = (Done (), demo_publish n bytes s)"
proof -
  have "[0..<32] = 0 # [1..<32]" by (simp add: upt_conv_Cons)
  then show ?thesis
    by (simp add: secure_write_def demo_simps demo_parent [OF assms] demo_stat next_temp_sequence_def Let_def publish_write_def
        or_unlink_def demo_publish_def)
qed

section \<open>The transaction\<close>

definition demo_policy :: workspace_policy where
  "demo_policy = \<lparr>wp_read_paths = [''a.ax''], wp_write_paths = [''a.ax''], wp_commands = [], wp_network = False, wp_sandbox = False\<rparr>"

definition demo_state :: "string \<Rightarrow> transaction_state" where
  "demo_state contract_digest =
     \<lparr>tx_schema_version = audit_schema, tx_base_sha = sample_sha, tx_source_checkout = ''/s'', tx_worktree = ''/w'',
      tx_policy = demo_policy, tx_phase = Active, tx_checkpoint_tree = sample_sha, tx_events = [], tx_artifacts = [],
      tx_rollback_result = None, tx_checksum = sha256_digest [], tx_transaction_id = ''txn-1'',
      tx_task_contract_digest = contract_digest, tx_policy_digest = sha256_digest [], tx_branch = ''detached'',
      tx_pending_effect = None, tx_workspace_fingerprint = '''', tx_path_fingerprints = [],
      tx_unscoped_fingerprint = rows_digest [],
      tx_source_fingerprint = '''', tx_owner_epoch = ''owner-a'', tx_generation = 1, tx_candidate_head = None\<rparr>"

text \<open>The state file holds as many bytes as its generation.\<close>

definition demo_codec :: "string \<Rightarrow> workspace_codec" where
  "demo_codec contract_digest =
     \<lparr>js_policy = (\<lambda>_. Inr []), js_state = (\<lambda>_. Inr []),
      js_state_pretty = (\<lambda>st. Inr (replicate (unat (tx_generation st)) 0)),
      js_parse_state = (\<lambda>bytes. Inr ((demo_state contract_digest)\<lparr>tx_generation := of_nat (length bytes)\<rparr>)), js_events = (\<lambda>_. Inr [])\<rparr>"

definition demo_ok :: "string \<Rightarrow> string option \<Rightarrow> byte list \<Rightarrow> nat \<Rightarrow> string workspace \<times> demo_world session \<Rightarrow> bool" where
  "demo_ok contract_digest pending content generation s \<longleftrightarrow>
     generation < 100 \<and> tx_generation (ws_state (fst s)) = of_nat generation \<and> generation \<noteq> 0
     \<and> dw_state (world (snd s)) = replicate generation 0 \<and> dw_file (world (snd s)) = content
     \<and> tx_phase (ws_state (fst s)) = Active \<and> tx_pending_effect (ws_state (fst s)) = pending
     \<and> tx_policy (ws_state (fst s)) = demo_policy \<and> tx_worktree (ws_state (fst s)) = ''/w''
     \<and> tx_base_sha (ws_state (fst s)) = sample_sha \<and> tx_transaction_id (ws_state (fst s)) = ''txn-1''
     \<and> tx_task_contract_digest (ws_state (fst s)) = contract_digest \<and> tx_policy_digest (ws_state (fst s)) = sha256_digest []
     \<and> tx_owner_epoch (ws_state (fst s)) = ''owner-a'' \<and> tx_unscoped_fingerprint (ws_state (fst s)) = rows_digest []"

lemma post_eval: "m s = (Done a, t) \<Longrightarrow> post m Q E C s = Q a t"
  by (simp add: post_def)

lemma post_on_io_at: "post (on_io m) Q E C s = post m (\<lambda>a q. Q a (fst s, q)) (\<lambda>e q. E e (fst s, q)) (\<lambda>q. C (fst s, q)) (snd s)"
  by (cases "m (snd s)"; cases "fst (m (snd s))") (simp_all add: post_def on_io_def)

lemma post_on_io [post_simps]: "post (on_io m) Q E C = (\<lambda>(ws, p). post m (\<lambda>a q. Q a (ws, q)) (\<lambda>e q. E e (ws, q)) (\<lambda>q. C (ws, q)) p)"
  by (rule ext) (simp add: post_on_io_at case_prod_beta)

lemma post_set_state [post_simps]: "post (set_state f) Q E C = (\<lambda>(ws, p). Q () (ws\<lparr>ws_state := f (ws_state ws)\<rparr>, p))"
  by (simp add: set_state_def post_simps case_prod_beta')

lemma post_the_root [post_simps]: "post the_root Q E C = (\<lambda>(ws, p). Q (ws_root_dir ws) (ws, p))"
  by (simp add: the_root_def post_simps case_prod_beta')

lemma demo_checksum: "state_checksum (demo_codec c) st = Inr (sha256_digest [])"
  by (simp add: state_checksum_def demo_codec_def)

lemma small_unat: "n \<le> 100 \<Longrightarrow> unat (of_nat n :: u64) = n"
  by (simp add: unsigned_of_nat take_bit_nat_eq_self)

lemma demo_persist_state:
  assumes "dw_state (world p) = replicate g 0" "g < 100" "tx_transaction_id st = ''txn-1''"
  shows "persist_state demo_os (demo_codec c) path st (Some (''owner-a'', of_nat g)) d p =
    (Done (st\<lparr>tx_generation := of_nat (Suc g), tx_checksum := sha256_digest []\<rparr>), demo_publish state_file (replicate (Suc g) 0) p)"
proof -
  have parse: "js_parse_state (demo_codec c) (replicate g 0) = Inr ((demo_state c)\<lparr>tx_generation := of_nat g\<rparr>)"
    and pretty: "js_state_pretty (demo_codec c) st' = Inr (replicate (unat (tx_generation st')) 0)" for st'
    by (simp_all add: demo_codec_def)
  have u1: "unat (of_nat g :: u64) = g" by (rule small_unat) (use assms(2) in linarith)
  have u2: "unat (of_nat (Suc g) :: u64) = Suc g" by (rule small_unat) (use assms(2) in linarith)
  have "g + unat (1 :: u64) < 2 ^ LENGTH(64)" using assms(2) by simp
  moreover have "of_nat g + 1 = (of_nat (Suc g) :: u64)" by (simp only: of_nat_Suc add.commute)
  ultimately have g: "word_checked_add (of_nat g :: u64) 1 = Some (of_nat (Suc g))"
    unfolding word_checked_add_def u1 by (simp only: if_True)
  have "compare_durable demo_os (demo_codec c) st ''owner-a'' (of_nat g) d p = (Done (), p)"
    by (simp add: compare_durable_def demo_simps demo_read demo_parts assms(1,3) parse demo_checksum) (simp add: demo_state_def)
  then show ?thesis
    using g u2 by (simp add: persist_state_def next_generation_def demo_simps demo_checksum pretty demo_write demo_parts Let_def del: of_nat_Suc)
qed

lemma demo_persist:
  assumes "demo_ok c pending content g s" "\<And>t. demo_ok c pending content (Suc g) t \<Longrightarrow> Q () t" "Suc g < 100"
  shows "post (persist demo_os (demo_codec c)) Q E C s"
proof -
  obtain ws p where s: "s = (ws, p)" by (cases s)
  let ?st = "(ws_state ws)\<lparr>tx_generation := of_nat (Suc g), tx_checksum := sha256_digest []\<rparr>"
  have "unat (of_nat g :: u64) \<noteq> 0" using assms(1) small_unat [of g] by (simp add: demo_ok_def)
  then have g: "tx_generation (ws_state ws) = of_nat g" "(of_nat g :: u64) \<noteq> 0"
    using assms(1) by (auto simp: demo_ok_def s simp del: of_nat_eq_0_iff)
  have "persist_state demo_os (demo_codec c) (ws_state_path ws) (ws_state ws) (Some (''owner-a'', of_nat g)) (ws_root_dir ws) p
      = (Done ?st, demo_publish state_file (replicate (Suc g) 0) p)"
    by (rule demo_persist_state) (use assms(1) in \<open>simp_all add: demo_ok_def s\<close>)
  then have "persist demo_os (demo_codec c) s = (Done (), (ws\<lparr>ws_state := ?st\<rparr>, demo_publish state_file (replicate (Suc g) 0) p))"
    using assms(1) g by (simp add: persist_def s sbind_def sget_def sret_def on_io_def set_state_def smodify_def Let_def demo_ok_def)
  moreover have "demo_ok c pending content (Suc g) (ws\<lparr>ws_state := ?st\<rparr>, demo_publish state_file (replicate (Suc g) 0) p)"
    using assms(1,3) by (simp add: demo_ok_def s demo_publish_def)
  ultimately show ?thesis using assms(2) by (simp add: post_eval)
qed

lemma demo_record:
  assumes "demo_ok c pending content g s" "\<And>t. demo_ok c pending content (Suc g) t \<Longrightarrow> Q () t" "Suc g < 100"
  shows "post (record_event demo_os (demo_codec c) operation subject result) Q E C s"
proof -
  obtain ws p where s: "s = (ws, p)" by (cases s)
  have "demo_ok c pending content g (ws\<lparr>ws_state := push_event operation subject result (ws_state ws)\<rparr>, p)"
    using assms(1) by (simp add: demo_ok_def s push_event_def)
  then show ?thesis
    unfolding record_event_def post_simps s case_prod_conv by (rule demo_persist) (rule assms(2,3), assumption?)+
qed

lemma demo_begin:
  assumes "demo_ok c None content g s" "\<And>t. demo_ok c (Some effect) content (Suc g) t \<Longrightarrow> Q () t" "Suc g < 100"
  shows "post (begin_effect demo_os (demo_codec c) effect) Q E C s"
proof -
  obtain ws p where s: "s = (ws, p)" by (cases s)
  have "demo_ok c (Some effect) content g (ws\<lparr>ws_state := (ws_state ws)\<lparr>tx_pending_effect := Some effect\<rparr>\<rparr>, p)"
    using assms(1) by (simp add: demo_ok_def s)
  moreover have "tx_pending_effect (ws_state ws) = None" using assms(1) by (simp add: demo_ok_def s)
  ultimately show ?thesis
    unfolding begin_effect_def post_simps s
    by (simp add: post_simps) (rule demo_persist, assumption, (rule assms(2,3), assumption?)+)
qed

lemma demo_constants:
  "policy_paths demo_policy = [''a.ax'']" "validate_relative ''a.ax'' = Inr ()" "from_utf8 (str_bytes head_sha) = Some head_sha"
  "trim head_sha = head_sha" "is_sha head_sha" "is_sha sample_sha" "head_sha \<noteq> sample_sha"
  "filter (\<lambda>p. p \<noteq> '''') (split_on (CHR 0x00) (''a.ax'' @ [CHR 0x00])) = [''a.ax'']"
  "from_utf8 (str_bytes ''a.ax'') = Some ''a.ax''"
  by code_simp+

lemma demo_git_head: "hd args \<noteq> ''show'' \<Longrightarrow> hd args \<noteq> ''diff'' \<Longrightarrow> git demo_os dir args p = (Done head_sha, p)"
  by (simp add: git_def demo_simps demo_git_def demo_constants)

lemma demo_fingerprint: "path_fingerprint demo_os root n p = (Done (rows_digest [nul_join [''M'', n]]), p)"
  by (simp add: path_fingerprint_def demo_simps Let_def missing_error_def)

lemma demo_unscoped: "unscoped_workspace_fingerprint demo_os root policy p = (Done (rows_digest []), p)"
  by (simp add: unscoped_workspace_fingerprint_def demo_simps numeral_2_eq_2)

lemma demo_scoped: "policy_scoped_fingerprint_from_head (demo_codec c) head policy cache \<noteq> Inl e"
  by (simp add: policy_scoped_fingerprint_from_head_def demo_codec_def)

lemma demo_finish:
  assumes "demo_ok c pending content g s" "\<And>t. demo_ok c None content (Suc (Suc g)) t \<Longrightarrow> Q () t" "Suc (Suc g) < 100"
  shows "post (finish_effect demo_os (demo_codec c) operation subject result changed False) Q E C s"
  unfolding finish_effect_def if_False post_sbind [of "record_event demo_os (demo_codec c) operation subject result"]
proof (rule demo_record [OF assms(1)])
  fix t :: "string workspace \<times> demo_world session"
  assume t: "demo_ok c pending content (Suc g) t"
  obtain ws p where t_def: "t = (ws, p)" by (cases t)
  have pol: "tx_policy (ws_state ws) = demo_policy" using t by (simp add: demo_ok_def t_def)
  have ok: "demo_ok c None content (Suc g) (ws\<lparr>ws_state := (ws_state ws)\<lparr>tx_pending_effect := None, tx_path_fingerprints := f, tx_workspace_fingerprint := w\<rparr>\<rparr>, p)"
      "demo_ok c None content (Suc g) (ws\<lparr>ws_state := (ws_state ws)\<lparr>tx_pending_effect := None, tx_workspace_fingerprint := w\<rparr>\<rparr>, p)" for f w
    using t by (simp_all add: demo_ok_def t_def)
  show "post (sbind (set_state (\<lambda>st. st\<lparr>tx_pending_effect := None\<rparr>)) (\<lambda>_.
     sbind (the_state (\<lambda>st. st)) (\<lambda>st.
     sbind (update_path_fingerprints demo_os (tx_worktree st) changed (policy_paths (tx_policy st))) (\<lambda>_.
     sbind (on_io (git demo_os (tx_worktree st) [''rev-parse'', ''HEAD''])) (\<lambda>head.
     sbind (the_state tx_path_fingerprints) (\<lambda>cache.
     sbind (of_result (policy_scoped_fingerprint_from_head (demo_codec c) (trim head) (tx_policy st) cache)) (\<lambda>scoped.
     sbind (set_state (\<lambda>st. st\<lparr>tx_workspace_fingerprint := scoped\<rparr>)) (\<lambda>_.
     sbind (sret ()) (\<lambda>_. persist demo_os (demo_codec c)))))))))) Q E C t"
    unfolding post_simps t_def
    by (auto simp: post_simps pol demo_constants demo_scoped post_eval [OF demo_git_head] post_eval [OF demo_fingerprint]
        split: sum.splits intro!: demo_persist [OF ok(1)] demo_persist [OF ok(2)] assms(2,3))
qed (use assms(3) in simp)

lemma demo_policy_fields [simp]:
  "wp_read_paths demo_policy = [''a.ax'']" "wp_write_paths demo_policy = [''a.ax'']" "wp_commands demo_policy = []"
  "\<not> wp_network demo_policy"
  by (simp_all add: demo_policy_def)

lemma demo_existing: "validate_anchored_existing_path demo_os d ''a.ax'' p = (Done (), p)"
  by (simp add: validate_anchored_existing_path_def demo_simps demo_parent demo_parts require_entry_def demo_stat)

lemma demo_write_path: "validate_anchored_write_path demo_os d ''a.ax'' p = (Done (), p)"
  by (simp add: validate_anchored_write_path_def demo_simps demo_parent demo_parts demo_stat)

lemma demo_ancestors: "creates_missing_ancestors demo_os d ''a.ax'' p = (Done False, p)"
  by (simp add: creates_missing_ancestors_def demo_simps demo_parts duplicate_root_def)

lemma post_require_active [post_simps]:
  "post require_active Q E C = (\<lambda>(ws, p). if tx_phase (ws_state ws) = Active then Q () (ws, p) else E ''transaction is not active'' (ws, p))"
  by (auto simp: require_active_def post_simps fun_eq_iff)

lemma post_below_root [post_simps]:
  "post (below_root f) Q E C = (\<lambda>(ws, p). post (f (ws_root_dir ws)) (\<lambda>a q. Q a (ws, q)) (\<lambda>e q. E e (ws, q)) (\<lambda>q. C (ws, q)) p)"
  by (auto simp: below_root_def post_simps fun_eq_iff)

lemma demo_read_file:
  assumes "demo_ok c None content g s" "\<And>t. demo_ok c None content (Suc g) t \<Longrightarrow> Q content t" "Suc g < 100"
  shows "post (read_file demo_os (demo_codec c) ''a.ax'') Q E C s"
proof -
  obtain ws p where s: "s = (ws, p)" by (cases s)
  have st: "tx_phase (ws_state ws) = Active" "tx_policy (ws_state ws) = demo_policy" "dw_file (world p) = content"
    using assms(1) by (simp_all add: demo_ok_def s)
  have rec: "post (record_event demo_os (demo_codec c) ''read'' ''a.ax'' d) (\<lambda>_. Q content) E C (ws, p)" for d
    using demo_record [OF assms(1), of "\<lambda>_. Q content"] assms(2,3) by (simp add: s)
  show ?thesis
    unfolding read_file_def authorize_existing_def post_simps s
    by (simp add: post_simps st demo_constants post_eval [OF demo_existing] post_eval [OF demo_read] demo_parts rec)
qed

lemma demo_write_file:
  assumes "demo_ok c None content g s" "\<And>t. demo_ok c None bytes (g + 4) t \<Longrightarrow> Q () t" "g + 4 < 100"
  shows "post (write_file demo_os (demo_codec c) ''a.ax'' bytes) Q E C s"
proof -
  obtain ws p where s: "s = (ws, p)" by (cases s)
  have st: "tx_phase (ws_state ws) = Active" "tx_policy (ws_state ws) = demo_policy"
    using assms(1) by (simp_all add: demo_ok_def s)
  have written: "post (below_root (\<lambda>d. secure_write demo_os d ''a.ax'' bytes)) (\<lambda>_.
      post (finish_effect demo_os (demo_codec c) ''write'' ''a.ax'' r [''a.ax''] False) Q E C) E C u"
    if "demo_ok c (Some e) content (Suc (Suc g)) u" for u r e
  proof -
    obtain v q where u: "u = (v, q)" by (cases u)
    have "demo_ok c (Some e) bytes (Suc (Suc g)) (v, demo_publish ''a.ax'' bytes q)"
      using that by (simp add: demo_ok_def u demo_publish_def)
    then have "post (finish_effect demo_os (demo_codec c) ''write'' ''a.ax'' r [''a.ax''] False) Q E C (v, demo_publish ''a.ax'' bytes q)"
      by (rule demo_finish) (use assms(2,3) in \<open>simp_all add: eval_nat_numeral\<close>)
    then show ?thesis by (simp add: post_simps u post_eval [OF demo_write] demo_parts)
  qed
  have begun: "post (begin_effect demo_os (demo_codec c) e) (\<lambda>_. post (below_root (\<lambda>d. secure_write demo_os d ''a.ax'' bytes)) (\<lambda>_.
      post (finish_effect demo_os (demo_codec c) ''write'' ''a.ax'' r [''a.ax''] False) Q E C) E C) E C u"
    if "demo_ok c None content (Suc g) u" for u r e
    by (rule demo_begin [OF that]) (rule written, assumption, use assms(3) in simp)
  have rec: "post (record_event demo_os (demo_codec c) ''checkpoint'' ''a.ax'' ''before_write'') (\<lambda>_. post (begin_effect demo_os (demo_codec c) e) (\<lambda>_. post (below_root (\<lambda>d. secure_write demo_os d ''a.ax'' bytes)) (\<lambda>_.
      post (finish_effect demo_os (demo_codec c) ''write'' ''a.ax'' r [''a.ax''] False) Q E C) E C) E C) E C (ws, p)" for r e
    by (rule demo_record [OF assms(1) [unfolded s]]) (rule begun, assumption, use assms(3) in simp)
  show ?thesis
    unfolding write_file_def authorize_write_def post_sbind s
    by (simp add: post_simps st demo_constants post_eval [OF demo_write_path] post_eval [OF demo_ancestors] post_eval [OF demo_digest]
       rec [unfolded post_simps])
qed

lemma demo_show: "run_git demo_os failed dir args p = (Done \<lparr>co_success = True, co_stdout = str_bytes (demo_git args), co_stderr = []\<rparr>, p)"
  by (simp add: run_git_def demo_simps)

lemma demo_commit_of: "git_commit_of demo_os dir sha p = (Done head_sha, p)"
  by (simp add: git_commit_of_def demo_git_head)

lemma demo_changed:
  "changed_scope [''a.ax''] ''a.ax'' (filter (\<lambda>p. p \<noteq> '''') (split_on (CHR 0x00) (''a.ax'' @ [CHR 0x00]))) False = Inr True"
  by (simp add: demo_constants rbind_def)

lemma demo_read_at_commit:
  assumes "demo_ok c None content g s" "\<And>t. demo_ok c None content (Suc g) t \<Longrightarrow> Q (str_bytes new_text) t" "Suc g < 100"
  shows "post (read_at_commit demo_os (demo_codec c) ''a.ax'' head_sha) Q E C s"
proof -
  obtain ws p where s: "s = (ws, p)" by (cases s)
  have st: "tx_phase (ws_state ws) = Active" "tx_policy (ws_state ws) = demo_policy"
    using assms(1) by (simp_all add: demo_ok_def s)
  have rec: "post (record_event demo_os (demo_codec c) ''read_commit'' k d) (\<lambda>_. Q (str_bytes new_text)) E C (ws, p)" for k d
    using demo_record [OF assms(1), of "\<lambda>_. Q (str_bytes new_text)"] assms(2,3) by (simp add: s)
  show ?thesis
    unfolding read_at_commit_def post_simps s
    by (simp add: post_simps st demo_constants post_eval [OF demo_commit_of] post_eval [OF demo_show] demo_git_def Let_def
        validate_commit_sha_def demo_changed [simplified] bytes_str_bytes rec)
qed

lemma demo_refresh:
  assumes "demo_ok c None content g s" "\<And>t. demo_ok c None content g t \<Longrightarrow> Q () t"
  shows "post (refresh_fingerprints demo_os (demo_codec c) dir) Q E C s"
proof -
  obtain ws p where s: "s = (ws, p)" by (cases s)
  have st: "tx_policy (ws_state ws) = demo_policy" using assms(1) by (simp add: demo_ok_def s)
  have ok: "demo_ok c None content g (ws\<lparr>ws_state := (ws_state ws)\<lparr>tx_path_fingerprints := f, tx_workspace_fingerprint := w\<rparr>\<rparr>, p)" for f w
    using assms(1) by (simp add: demo_ok_def s)
  show ?thesis
    unfolding refresh_fingerprints_def authorized_path_fingerprint_cache_def policy_scoped_fingerprint_def post_simps s
    by (auto simp: post_simps st demo_constants demo_scoped post_eval [OF demo_git_head] post_eval [OF demo_fingerprint]
        post_eval [OF demo_unscoped] split: sum.splits intro!: assms(2) ok)
qed

lemma demo_authorize:
  assumes "demo_ok c None content g s" "\<And>t. demo_ok c None content (Suc (Suc g)) t \<Longrightarrow> Q () t" "Suc (Suc g) < 100"
  shows "post (authorize_verified_candidate_commit demo_os (demo_codec c) ''a.ax'' head_sha (sha256_digest (str_bytes new_text))) Q E C s"
proof -
  let ?d = "sha256_digest (str_bytes new_text)"
  have rest: "post (record_event demo_os (demo_codec c) k head_sha ?d) Q E C u" if "demo_ok c None content (Suc g) u" for u k
    by (rule demo_record [OF that]) (use assms(2,3) in simp_all)
  have refreshed: "post (refresh_fingerprints demo_os (demo_codec c) dir) (\<lambda>_. post (record_event demo_os (demo_codec c) k head_sha ?d) Q E C) E C u"
    if "demo_ok c None content (Suc g) u" for u k dir
    by (rule demo_refresh [OF that]) (rule rest)
  have "post (read_at_commit demo_os (demo_codec c) ''a.ax'' head_sha) (\<lambda>candidate. post (if sha256_digest candidate \<noteq> ?d
       then sfail ''delivered head does not contain the exact candidate bytes''
       else
     sbind (the_state (\<lambda>st. st)) (\<lambda>st.
     sbind (on_io (unscoped_workspace_fingerprint demo_os (tx_worktree st) (tx_policy st))) (\<lambda>unscoped.
       if unscoped \<noteq> tx_unscoped_fingerprint st then sfail ''transaction worktree changed outside task scope''
       else
     sbind (set_state (\<lambda>st. st\<lparr>tx_candidate_head := Some head_sha\<rparr>)) (\<lambda>_.
     sbind (refresh_fingerprints demo_os (demo_codec c) (tx_worktree st)) (\<lambda>_.
       record_event demo_os (demo_codec c) ''candidate_head_authorized'' head_sha ?d))))) Q E C) E C s"
  proof (rule demo_read_at_commit [OF assms(1)])
    fix t :: "string workspace \<times> demo_world session"
    assume t: "demo_ok c None content (Suc g) t"
    obtain ws p where t_def: "t = (ws, p)" by (cases t)
    have "tx_unscoped_fingerprint (ws_state ws) = rows_digest []" using t by (simp add: demo_ok_def t_def)
    moreover have "demo_ok c None content (Suc g) (ws\<lparr>ws_state := (ws_state ws)\<lparr>tx_candidate_head := Some head_sha\<rparr>\<rparr>, p)"
      using t by (simp add: demo_ok_def t_def)
    ultimately show "post (if ?d \<noteq> ?d
       then sfail ''delivered head does not contain the exact candidate bytes''
       else
     sbind (the_state (\<lambda>st. st)) (\<lambda>st.
     sbind (on_io (unscoped_workspace_fingerprint demo_os (tx_worktree st) (tx_policy st))) (\<lambda>unscoped.
       if unscoped \<noteq> tx_unscoped_fingerprint st then sfail ''transaction worktree changed outside task scope''
       else
     sbind (set_state (\<lambda>st. st\<lparr>tx_candidate_head := Some head_sha\<rparr>)) (\<lambda>_.
     sbind (refresh_fingerprints demo_os (demo_codec c) (tx_worktree st)) (\<lambda>_.
       record_event demo_os (demo_codec c) ''candidate_head_authorized'' head_sha ?d))))) Q E C t"
      unfolding t_def by (simp add: post_simps post_eval [OF demo_unscoped] refreshed)
  qed (use assms(3) in simp)
  then show ?thesis
    unfolding authorize_verified_candidate_commit_def by (simp add: post_simps validate_digest_def is_digest_sha256)
qed

end
