(* ===== verification/Sample_Run.thy ===== *)
theory Sample_Run
  imports Executor_Sample
begin

text \<open>
  A run of an executor from a compiled contract to a resolved task on the sample transaction, and
  an interrupted executor that is written down in full.
\<close>

section \<open>The codec\<close>

text \<open>The bytes of the digest of the workspace, as the hash crate gives them.\<close>

definition nibble :: "u32 \<Rightarrow> nat \<Rightarrow> nat" where
  "nibble w i = unat (drop_bit (4 * (7 - i)) w AND 0xF)"

definition word_bytes :: "u32 \<Rightarrow> byte list" where
  "word_bytes w = map (\<lambda>i. of_nat (16 * nibble w (2 * i) + nibble w (2 * i + 1))) [0..<4]"

lemma nibble_less: "nibble w i < 16"
  using word_and_le1 [of "drop_bit (4 * (7 - i)) w" "0xF"] by (simp add: nibble_def word_le_nat_alt)

lemma hex_word_bytes: "hex_bytes (word_bytes w) = hex_u32 w"
proof -
  have byte: "unat (of_nat (16 * a + b) :: byte) = 16 * a + b" if "a < 16" "b < 16" for a b
    using that by (simp add: unsigned_of_nat take_bit_nat_eq_self del: of_nat_add of_nat_mult)
  have "unat (of_nat (16 * nibble w i + nibble w j) :: byte) = 16 * nibble w i + nibble w j" for i j
    by (rule byte) (rule nibble_less)+
  moreover have "[0..<4] = [0, 1, 2, 3 :: nat]" "[0..<8] = [0, 1, 2, 3, 4, 5, 6, 7 :: nat]" by (simp_all add: upt_rec)
  ultimately show ?thesis
    using nibble_less [of w] by (simp add: hex_bytes_def word_bytes_def hex_u32_def nibble_def [symmetric] del: of_nat_add of_nat_mult)
qed

definition demo_xc :: "bounded_executor \<Rightarrow> executor_codec" where
  "demo_xc stored =
     \<lparr>xc_sha256 = (\<lambda>bytes. concat (map word_bytes (sha_state bytes))), xc_hmac = (\<lambda>_ _. replicate 32 0),
      xc_event = (\<lambda>_. Inr []), xc_evidence = (\<lambda>_. Inr []), xc_executor = (\<lambda>_. Inr []),
      xc_parse_executor = (\<lambda>_. Inr stored), xc_parse_request = (\<lambda>_. Inl ''''), xc_parse_resume = (\<lambda>_. Inl '''')\<rparr>"

lemma demo_hash: "hex_bytes (xc_sha256 (demo_xc p) bytes) = stable_digest bytes"
proof -
  have "hex_bytes (concat (map word_bytes ws)) = concat (map hex_u32 ws)" for ws
    by (induction ws) (simp_all add: hex_word_bytes [symmetric] hex_bytes_def)
  then show ?thesis by (simp add: demo_xc_def stable_digest_def)
qed

lemma demo_codec_ok: "total_codec (demo_xc p)" "hash_lengths (demo_xc p)"
proof -
  have "length (concat (map word_bytes ws)) = 4 * length ws" for ws
    by (induction ws) (simp_all add: word_bytes_def)
  then show "hash_lengths (demo_xc p)" by (simp add: hash_lengths_def demo_xc_def length_sha_state)
qed (simp add: total_codec_def demo_xc_def)

lemma demo_digest_of: "ex_digest (demo_xc p) bytes = sha256_digest bytes"
  by (rule ex_digest_stable) (simp add: demo_hash)

section \<open>The contract and the new executor\<close>

abbreviation demo_json :: "unit agent_task_contract \<Rightarrow> string + byte list" where
  "demo_json c \<equiv> Inr (str_bytes (ct_id c))"

definition demo_contract :: "unit agent_task_contract" where
  "demo_contract = (contract_of (canonicalize sample_task))\<lparr>ct_contract_digest := ''sha256:'' @ stable_digest (str_bytes ''task-1'')\<rparr>"

lemma demo_compiled: "compile_approved_task demo_json [''n1'', ''n2''] sample_task = Some (Inr demo_contract)"
  by (simp add: sample_task_compiles demo_contract_def)

lemma demo_no_delivery: "\<not> any_delivery (ts_delivery_permissions sample_task)"
  by (simp add: any_delivery_def sample_task_def)

lemma demo_contract_fields:
  "sp_allowed_files (ct_scope demo_contract) = [''a.ax'', ''b.ax'']" "ct_repair_plan demo_contract = None"
  "au_source_revision (ct_authority demo_contract) = sample_sha" "bg_retries (ct_budgets demo_contract) = 2"
  "ct_id demo_contract = ''task-1''"
proof -
  have "sp_allowed_files (ts_scope (canonicalize sample_task)) = [''a.ax'', ''b.ax'']" by code_simp
  then show "sp_allowed_files (ct_scope demo_contract) = [''a.ax'', ''b.ax'']" by (simp add: demo_contract_def contract_of_def)
qed (simp_all add: demo_contract_def contract_of_def canonicalize_def sample_task_def sample_sha_def)

lemma demo_retries: "bg_retries (ct_budgets demo_contract) < - 1"
  by (simp add: demo_contract_fields word_less_nat_alt unsigned_minus_1_eq_mask mask_eq_exp_minus_1)

lemma demo_contract_valid: "validate_contract (demo_xc p) demo_json demo_contract = Inr ()"
proof -
  have "sorted_wrt (<) [''n1'', ''n2'']" by code_simp
  then have wf: "task_wf (set [''n1'', ''n2'']) (canonicalize sample_task)"
    using validated_wf [OF sample_task_valid] task_wf_canonicalize by blast
  have hash: "\<forall>bytes. hex_bytes (xc_sha256 (demo_xc p) bytes) = stable_digest bytes" by (simp add: demo_hash)
  show ?thesis
    unfolding demo_contract_def
    by (rule contract_accepted [where to_json = demo_json, OF hash wf])
      (use demo_no_delivery in \<open>simp_all add: contract_of_def canonicalize_def sample_task_def\<close>)
qed

definition demo_key :: executor_seal_key where
  "demo_key = \<lparr>sk_key_id = ''seal'', sk_secret = replicate 32 0\<rparr>"

definition demo_provider :: delivery_evidence_provider where
  "demo_provider = \<lparr>tp_key = \<lparr>dk_provider_id = ''ci'', dk_secret = replicate 32 1\<rparr>, tp_max_age_seconds = 60\<rparr>"

definition demo_workspace :: "string workspace \<times> demo_world session" where
  "demo_workspace =
     (\<lparr>ws_state_path = ''/w/state'', ws_state = demo_state (ct_contract_digest demo_contract), ws_root_dir = ''/w'', ws_lease = ''lease''\<rparr>,
      \<lparr>temp_sequence = 0, epoch_counter = 0, world = \<lparr>dw_state = [0], dw_file = str_bytes old_text, dw_temp = []\<rparr>\<rparr>)"

abbreviation demo_cd :: string where
  "demo_cd \<equiv> ct_contract_digest demo_contract"

abbreviation demo_reaches :: "bounded_executor \<Rightarrow> bounded_executor \<times> string workspace \<times> demo_world session \<Rightarrow> bool" where
  "demo_reaches p \<equiv> executor_run demo_os (demo_codec demo_cd) (demo_xc p) demo_provider demo_json demo_contract"

lemma demo_workspace_ok: "demo_ok demo_cd None (str_bytes old_text) 1 demo_workspace"
  by (simp add: demo_ok_def demo_workspace_def demo_state_def)

text \<open>What stays of a new executor.\<close>

definition demo_static :: "bool \<Rightarrow> bounded_executor \<Rightarrow> bool" where
  "demo_static dry x \<longleftrightarrow> bx_dry_run x = dry \<and> bx_base_sha x = sample_sha \<and> bx_task_contract_digest x = demo_cd
     \<and> bx_allowed_files x = [''a.ax'', ''b.ax''] \<and> bx_repair_allowed_files x = None \<and> bx_seal_key x = Some demo_key"

lemma post_record_exact:
  assumes "sealable (demo_xc p) y" "\<And>z. sealed (demo_xc p) z \<Longrightarrow> resealed y z \<Longrightarrow> Q () z"
  shows "post (ex_record (demo_xc p) kind detail) Q E C y"
proof -
  obtain z where z: "ex_record (demo_xc p) kind detail y = (Done (), z)" "sealed (demo_xc p) z"
    by (rule ex_record_seals [OF demo_codec_ok(1) assms(1)])
  then have "resealed y z" using ex_record_resealed [of y "demo_xc p" kind detail] by simp
  then show ?thesis using z assms(2) by (simp add: post_def)
qed

lemma demo_new:
  "\<exists>x. new_executor (demo_xc p) demo_json demo_contract sample_sha dry demo_key () = (Done x, ()) \<and> sealed (demo_xc p) x
     \<and> demo_static dry x \<and> bx_state x = Planned \<and> bx_transaction_id x = None"
proof -
  let ?x = "planned_executor (demo_xc p) demo_contract sample_sha dry \<lparr>ry_approved_causes = []\<rparr> demo_key"
  have seal: "sealable (demo_xc p) ?x" by (rule planned_sealable) (rule demo_retries)
  obtain y where y: "ex_record (demo_xc p) ''planned'' (ct_id demo_contract) ?x = (Done (), y)" "sealed (demo_xc p) y"
    by (rule ex_record_seals [OF demo_codec_ok(1) seal])
  then have "resealed ?x y" using ex_record_resealed [of ?x "demo_xc p" "''planned''" "ct_id demo_contract"] by simp
  then have "demo_static dry y \<and> bx_state y = Planned \<and> bx_transaction_id y = None"
    by (auto simp: resealed_def demo_static_def planned_executor_def demo_contract_fields)
  then show ?thesis
    using y demo_contract_valid [of p]
    by (simp add: new_executor_def new_with_retry_policy_def sbind_def of_result_def sret_def
        ex_validate_sha_def demo_constants validate_retry_policy_def building_def demo_contract_fields)
qed

lemma demo_start:
  obtains x where "demo_reaches p (x, demo_workspace)" "sealed (demo_xc p) x" "demo_static dry x" "bx_state x = Planned"
    "bx_transaction_id x = None"
proof -
  obtain x where x: "new_executor (demo_xc p) demo_json demo_contract sample_sha dry demo_key () = (Done x, ())"
      "sealed (demo_xc p) x" "demo_static dry x" "bx_state x = Planned" "bx_transaction_id x = None"
    using demo_new [of p dry] by blast
  have "started (demo_xc p) demo_json demo_contract x"
    unfolding started_def using x(1) unfolding new_executor_def by blast
  then have "demo_reaches p (x, demo_workspace)" by (simp add: reachable_init)
  then show ?thesis using x(2-) by (rule that)
qed

section \<open>The calls\<close>

lemma demo_step:
  assumes "demo_reaches p s"
    "post (ex_perform demo_os (demo_codec demo_cd) (demo_xc p) demo_provider call) (\<lambda>_. P) (\<lambda>_ _. False) (\<lambda>_. False) s"
  obtains t where "demo_reaches p t" "P t"
proof -
  obtain r t where t: "ex_perform demo_os (demo_codec demo_cd) (demo_xc p) demo_provider call s = (r, t)"
    by (cases "ex_perform demo_os (demo_codec demo_cd) (demo_xc p) demo_provider call s")
  have "P t" using assms(2) by (cases r) (simp_all add: post_def t)
  moreover have "demo_reaches p t" by (rule reachable_step [OF assms(1) TrueI t])
  ultimately show ?thesis by (rule that [rotated])
qed

lemma demo_guard: "sealed (demo_xc p) x \<Longrightarrow> post (guard (demo_xc p)) Q E C x = Q () x"
  by (simp add: sealed_def guard_def post_simps)

lemma demo_require: "bx_state x = st \<Longrightarrow> post (require_state st) Q E C x = Q () x"
  by (simp add: require_state_def post_simps)

lemma demo_accepts:
  assumes "demo_ok demo_cd pending content g w" "demo_static dry x"
    "bx_transaction_id x = None \<or> bx_transaction_id x = Some ''txn-1'' \<and> bx_policy_digest x = Some (sha256_digest [])"
  shows "post (validate_workspace (demo_xc p) (ws_state (fst w))) Q E C x = Q () x"
  using assms by (auto simp: validate_workspace_def post_simps demo_ok_def demo_static_def outside_repair_def)

lemma demo_recorded:
  assumes "post m (\<lambda>a v. Q a (x, v)) (\<lambda>_ _. False) (\<lambda>_. False) w"
  shows "post (or_recorded xc cause code m) Q E C (x, w)"
  using assms
  by (cases "m w"; cases "fst (m w)") (simp_all add: or_recorded_def post_def sbind_def attempt_def on_ws_def sret_def)

definition demo_at :: "bounded_executor \<Rightarrow> execution_state \<Rightarrow> bool \<Rightarrow> byte list \<Rightarrow> nat \<Rightarrow> bounded_executor \<times> string workspace \<times> demo_world session \<Rightarrow> bool" where
  "demo_at p phase dry content g s \<longleftrightarrow>
     sealed (demo_xc p) (fst s) \<and> demo_static dry (fst s) \<and> bx_state (fst s) = phase
     \<and> bx_transaction_id (fst s) = Some ''txn-1'' \<and> bx_policy_digest (fst s) = Some (sha256_digest [])
     \<and> demo_ok demo_cd None content g (snd s)"

lemma demo_bind:
  assumes "sealed (demo_xc p) x" "demo_static dry x" "bx_state x = Planned" "bx_transaction_id x = None"
  shows "post (ex_perform demo_os (demo_codec demo_cd) (demo_xc p) demo_provider BindTransaction)
    (\<lambda>_. demo_at p Planned dry (str_bytes old_text) 1) (\<lambda>_ _. False) (\<lambda>_. False) (x, demo_workspace)"
proof -
  have st: "tx_transaction_id (ws_state (fst demo_workspace)) = ''txn-1''" "tx_policy_digest (ws_state (fst demo_workspace)) = sha256_digest []"
    using demo_workspace_ok by (simp_all add: demo_ok_def)
  have "demo_at p Planned dry (str_bytes old_text) 1 (z, demo_workspace)"
    if "sealed (demo_xc p) z" "resealed (x\<lparr>bx_transaction_id := Some ''txn-1'', bx_policy_digest := Some (sha256_digest [])\<rparr>) z" for z
    using that assms(2-) demo_workspace_ok by (auto simp: demo_at_def resealed_def demo_static_def)
  then show ?thesis
    using assms by (auto simp: bind_transaction_def sealed_sealable post_simps demo_guard demo_require demo_accepts [OF demo_workspace_ok] st
        intro!: post_record_exact)
qed

definition demo_proposal :: replace_text_proposal where
  "demo_proposal = \<lparr>rt_path = ''a.ax'', rt_expected_before_digest = sha256_digest (str_bytes old_text), rt_find = ''1'',
     rt_replacement = ''2'', rt_candidate_digest = sha256_digest (str_bytes new_text)\<rparr>"

definition demo_proposed :: "bounded_executor \<Rightarrow> bool" where
  "demo_proposed x \<longleftrightarrow> bx_proposal x = Some demo_proposal \<and> bx_candidate_digest x = Some (rt_candidate_digest demo_proposal)"

lemma demo_text: "from_utf8 (str_bytes old_text) = Some old_text" "count_matches old_text ''1'' = 1"
  "replace_first old_text ''1'' ''2'' = new_text" "canonical_relative ''a.ax''"
  by code_simp+

lemma demo_propose:
  assumes "demo_at p Planned dry (str_bytes old_text) g s"
  shows "post (ex_perform demo_os (demo_codec demo_cd) (demo_xc p) demo_provider (ProposeReplace ''a.ax'' (str_bytes old_text) ''1'' ''2''))
    (\<lambda>_ t. demo_at p (if dry then DryRun else Planned) dry (str_bytes old_text) g t \<and> demo_proposed (fst t)) (\<lambda>_ _. False) (\<lambda>_. False) s"
proof -
  obtain x w where s: "s = (x, w)" by (cases s)
  have x: "sealed (demo_xc p) x" "bx_state x = Planned" "demo_static dry x" "bx_dry_run x = dry"
    using assms by (simp_all add: demo_at_def demo_static_def s)
  have path: "post (authorize_path (demo_xc p) ''a.ax'') Q E C x = Q () x" for Q E C
    using x(3) by (simp add: authorize_path_def post_simps demo_static_def demo_text outside_repair_def)
  let ?y = "x\<lparr>bx_proposal := Some demo_proposal, bx_candidate_digest := Some (rt_candidate_digest demo_proposal)\<rparr>"
  have planned: "demo_at p Planned dry (str_bytes old_text) g (z, w) \<and> demo_proposed z"
    if "sealed (demo_xc p) z" "resealed ?y z" for z
    using that assms by (auto simp: demo_at_def demo_proposed_def resealed_def demo_static_def s)
  have dry: "demo_at p DryRun dry (str_bytes old_text) g (z, w) \<and> demo_proposed z"
    if "sealed (demo_xc p) z" "resealed (?y\<lparr>bx_state := DryRun\<rparr>) z" for z
    using that assms by (auto simp: demo_at_def demo_proposed_def resealed_def demo_static_def s)
  have rec: "post (ex_record (demo_xc p) kind detail) (\<lambda>_ z. demo_at p Planned dry (str_bytes old_text) g (z, w) \<and> demo_proposed z) E C ?y"
      "post (ex_record (demo_xc p) kind detail) (\<lambda>_ z. demo_at p DryRun dry (str_bytes old_text) g (z, w) \<and> demo_proposed z) E C (?y\<lparr>bx_state := DryRun\<rparr>)"
    for kind detail E C
    by (rule post_record_exact; simp add: planned dry sealed_sealable x)+
  show ?thesis
    unfolding s using x(4) rec
    by (cases dry) (simp_all add: propose_replace_def discarding_def post_simps demo_guard demo_require path demo_text demo_digest_of Let_def
        demo_proposal_def [symmetric] set_ex_state_def x)
qed

lemma demo_apply:
  assumes "demo_at p Planned False (str_bytes old_text) g s" "demo_proposed (fst s)" "g < 50"
  shows "post (apply_proposal demo_os (demo_codec demo_cd) (demo_xc p))
    (\<lambda>_ t. demo_at p Edited False (str_bytes new_text) (g + 5) t \<and> demo_proposed (fst t)) (\<lambda>_ _. False) (\<lambda>_. False) s"
proof -
  obtain x w where s: "s = (x, w)" by (cases s)
  have x: "sealed (demo_xc p) x" "bx_state x = Planned" "demo_static False x" "\<not> bx_dry_run x" "bx_proposal x = Some demo_proposal"
      "bx_transaction_id x = Some ''txn-1''" "bx_policy_digest x = Some (sha256_digest [])"
      and w: "demo_ok demo_cd None (str_bytes old_text) g w"
    using assms(1,2) by (simp_all add: demo_at_def demo_static_def demo_proposed_def s)
  let ?Q = "\<lambda>_ t. demo_at p Edited False (str_bytes new_text) (g + 5) t \<and> demo_proposed (fst t)"
  let ?done = "sbind (with_state (\<lambda>st. smodify (\<lambda>x. x\<lparr>bx_transaction_id := Some (tx_transaction_id st),
         bx_policy_digest := Some (tx_policy_digest st), bx_state := Edited\<rparr>))) (\<lambda>_.
       on_ex (ex_record (demo_xc p) ''proposal_applied'' (rt_candidate_digest demo_proposal)))"
  have last: "post ?done ?Q (\<lambda>_ _. False) (\<lambda>_. False) (x, v)" if v: "demo_ok demo_cd None (str_bytes new_text) (Suc g + 4) v" for v
  proof -
    have st: "tx_transaction_id (ws_state (fst v)) = ''txn-1''" "tx_policy_digest (ws_state (fst v)) = sha256_digest []"
      using v by (simp_all add: demo_ok_def)
    have "?Q () (z, v)" if "sealed (demo_xc p) z"
        "resealed (x\<lparr>bx_transaction_id := Some ''txn-1'', bx_policy_digest := Some (sha256_digest []), bx_state := Edited\<rparr>) z" for z
      using that x assms(2) v by (auto simp: demo_at_def resealed_def demo_static_def demo_proposed_def s add.commute)
    then show ?thesis by (simp add: post_simps st) (rule post_record_exact; simp add: sealed_sealable x)
  qed
  have wrote: "post (or_recorded (demo_xc p) Policy ''workspace_write'' (write_file demo_os (demo_codec demo_cd) ''a.ax'' (str_bytes new_text)))
      (\<lambda>_. post ?done ?Q (\<lambda>_ _. False) (\<lambda>_. False)) (\<lambda>_ _. False) (\<lambda>_. False) (x, v)"
    if v: "demo_ok demo_cd None (str_bytes old_text) (Suc g) v" for v
    by (rule demo_recorded, rule demo_write_file [OF v]) (use assms(3) in \<open>simp_all add: last\<close>)
  have read: "post (or_recorded (demo_xc p) Environment ''workspace_read'' (read_file demo_os (demo_codec demo_cd) ''a.ax'')) Q E C (x, w)"
    if "\<And>v. demo_ok demo_cd None (str_bytes old_text) (Suc g) v \<Longrightarrow> Q (str_bytes old_text) (x, v)" for Q E C
    by (rule demo_recorded, rule demo_read_file [OF w]) (use assms(3) that in simp_all)
  have parts: "rt_path demo_proposal = ''a.ax''" "candidate_text demo_proposal old_text = str_bytes new_text"
      "rt_find demo_proposal = ''1''" "rt_expected_before_digest demo_proposal = sha256_digest (str_bytes old_text)"
      "rt_candidate_digest demo_proposal = sha256_digest (str_bytes new_text)"
    by (simp_all add: demo_proposal_def candidate_text_def demo_text)
  show ?thesis
    unfolding apply_proposal_def post_sbind s
    by (simp add: post_simps demo_guard demo_require demo_accepts [OF w x(3)] checked_def x parts)
      (rule read, use wrote in \<open>simp add: demo_digest_of parts demo_text post_simps\<close>)
qed

definition demo_verdict :: verification_verdict where
  "demo_verdict = \<lparr>vv_schema_version = verdict_schema_version, vv_plan_digest = sha256_digest [], vv_status = VerdictPassed,
     vv_source_head_sha = sample_sha, vv_delivered_head_sha = head_sha, vv_missing = [], vv_duplicate = [], vv_invalid = [], vv_failed = []\<rparr>"

definition demo_verified :: "bounded_executor \<Rightarrow> bool" where
  "demo_verified x \<longleftrightarrow> bx_verification x = Some demo_verdict
     \<and> (\<exists>b. bx_candidate_binding x = Some b \<and> cb_transaction_id b = ''txn-1'' \<and> cb_policy_digest b = sha256_digest [])"

lemma demo_verify:
  assumes "demo_at p Edited False content g s" "demo_proposed (fst s)" "g < 50"
  shows "post (submit_verification demo_os (demo_codec demo_cd) (demo_xc p) demo_verdict)
    (\<lambda>_ t. demo_at p VerificationPassed False content (Suc (Suc g)) t \<and> demo_proposed (fst t) \<and> demo_verified (fst t))
    (\<lambda>_ _. False) (\<lambda>_. False) s"
proof -
  obtain x w where s: "s = (x, w)" by (cases s)
  have x: "sealed (demo_xc p) x" "bx_state x = Edited" "demo_static False x" "bx_base_sha x = sample_sha" "bx_proposal x = Some demo_proposal"
      "bx_transaction_id x = Some ''txn-1''" "bx_policy_digest x = Some (sha256_digest [])"
      and w: "demo_ok demo_cd None content g w"
    using assms(1,2) by (simp_all add: demo_at_def demo_static_def demo_proposed_def s)
  let ?Q = "\<lambda>_ t. demo_at p VerificationPassed False content (Suc (Suc g)) t \<and> demo_proposed (fst t) \<and> demo_verified (fst t)"
  let ?b = "new_binding (demo_xc p) (rt_candidate_digest demo_proposal) head_sha ''txn-1'' (sha256_digest []) (sha256_digest [])"
  let ?y = "x\<lparr>bx_verification := Some demo_verdict, bx_candidate_binding := Some ?b, bx_state := VerificationPassed\<rparr>"
  have last: "post (ex_record (demo_xc p) kind detail) (\<lambda>a z. ?Q a (z, v)) E C ?y"
    if v: "demo_ok demo_cd None content (Suc (Suc g)) v" for v kind detail E C
  proof (rule post_record_exact)
    show "sealable (demo_xc p) ?y" by (simp add: sealed_sealable x)
    show "?Q () (z, v)" if "sealed (demo_xc p) z" "resealed ?y z" for z
      using that x assms(2) v by (auto simp: demo_at_def resealed_def demo_static_def demo_proposed_def demo_verified_def new_binding_def s)
  qed
  have head: "post (or_recorded (demo_xc p) Evidence ''candidate_head_proof''
        (authorize_verified_candidate_commit demo_os (demo_codec demo_cd) ''a.ax'' head_sha (sha256_digest (str_bytes new_text)))) Q E C (x, w)"
    if "\<And>v. demo_ok demo_cd None content (Suc (Suc g)) v \<Longrightarrow> Q () (x, v)" for Q E C
    by (rule demo_recorded, rule demo_authorize [OF w]) (use assms(3) that in simp_all)
  have parts: "rt_path demo_proposal = ''a.ax''" "rt_candidate_digest demo_proposal = sha256_digest (str_bytes new_text)"
      "vv_source_head_sha demo_verdict = sample_sha" "vv_delivered_head_sha demo_verdict = head_sha" "vv_plan_digest demo_verdict = sha256_digest []"
      "vv_status demo_verdict = VerdictPassed" "\<not> has_failures demo_verdict" "\<not> verdict_malformed demo_verdict"
    using demo_constants(5,6) by (simp_all add: demo_proposal_def demo_verdict_def has_failures_def verdict_malformed_def is_digest_sha256)
  show ?thesis
    unfolding submit_verification_def post_sbind s
    by (simp add: post_simps demo_guard demo_require demo_accepts [OF w x(3)] checked_def x parts demo_constants)
      (rule head, use last in \<open>simp add: conclude_verification_def set_ex_state_def parts post_simps\<close>)
qed

definition demo_evidence :: signed_delivery_evidence where
  "demo_evidence = \<lparr>de_provider_id = ''ci'', de_candidate_digest = sha256_digest (str_bytes new_text), de_plan_digest = sha256_digest [],
     de_delivered_head_sha = head_sha, de_transaction_id = ''txn-1'', de_policy_digest = sha256_digest [],
     de_fetched_at_epoch_seconds = 100, de_required_checks_passed = True, de_review_satisfied = True, de_conversations_resolved = True,
     de_evidence_mac = ''hmac-sha256:'' @ hex_bytes (replicate 32 0)\<rparr>"

lemma demo_trusted: "verify_evidence (demo_xc p) (Some 120) demo_provider demo_evidence = Inr ()"
  by (simp add: verify_evidence_def demo_provider_def demo_evidence_def demo_xc_def hmac_matches_def hmac_digest_def
      constant_time_eq_iff starts_with_def)

lemma demo_deliver:
  assumes "demo_at p VerificationPassed False content g s" "demo_proposed (fst s)" "demo_verified (fst s)"
  shows "post (ex_perform demo_os (demo_codec demo_cd) (demo_xc p) demo_provider (SubmitDelivery (Some 120) demo_evidence))
    (\<lambda>_ t. bx_state (fst t) = Resolved) (\<lambda>_ _. False) (\<lambda>_. False) s"
proof -
  obtain x w where s: "s = (x, w)" by (cases s)
  obtain b where x: "sealed (demo_xc p) x" "bx_state x = VerificationPassed" "demo_static False x"
      "bx_candidate_digest x = Some (sha256_digest (str_bytes new_text))" "bx_verification x = Some demo_verdict" "bx_candidate_binding x = Some b"
      "bx_transaction_id x = Some ''txn-1''" "bx_policy_digest x = Some (sha256_digest [])" "cb_transaction_id b = ''txn-1''" "cb_policy_digest b = sha256_digest []"
      and w: "demo_ok demo_cd None content g w"
    using assms by (auto simp: demo_at_def demo_static_def demo_proposed_def demo_verified_def demo_proposal_def s)
  have bound: "delivery_bound demo_evidence demo_verdict b" "de_candidate_digest demo_evidence = sha256_digest (str_bytes new_text)"
    using x(9,10) by (simp_all add: delivery_bound_def demo_evidence_def demo_verdict_def demo_constants)
  have "post (ex_record (demo_xc p) kind detail) (\<lambda>_ z. bx_state z = Resolved) E C
      (x\<lparr>bx_delivery := Some demo_evidence, bx_state := Resolved\<rparr>)" for kind detail E C
    by (rule post_record_exact) (auto simp: sealed_sealable x resealed_def)
  then show ?thesis
    unfolding s by (simp add: submit_delivery_def post_simps demo_guard demo_require demo_accepts [OF w x(3)] demo_trusted checked_def x bound)
qed

section \<open>The runs\<close>

lemma demo_bound_run:
  obtains s where "demo_reaches p s" "demo_at p Planned dry (str_bytes old_text) 1 s"
proof -
  obtain x where x: "demo_reaches p (x, demo_workspace)" "sealed (demo_xc p) x" "demo_static dry x" "bx_state x = Planned"
      "bx_transaction_id x = None"
    by (rule demo_start)
  show ?thesis by (rule demo_step [OF x(1) demo_bind [OF x(2-5)]]) (rule that)
qed

lemma demo_proposed_run:
  obtains s where "demo_reaches p s" "demo_at p (if dry then DryRun else Planned) dry (str_bytes old_text) 1 s" "demo_proposed (fst s)"
proof -
  obtain s where s: "demo_reaches p s" "demo_at p Planned dry (str_bytes old_text) 1 s" by (rule demo_bound_run)
  show ?thesis by (rule demo_step [OF s(1) demo_propose [OF s(2)]]) (use that in blast)
qed

lemma post_total:
  assumes "post m Q (\<lambda>_ _. False) (\<lambda>_. False) s"
  obtains a t where "m s = (Done a, t)" "Q a t"
  using assms that by (cases "m s"; cases "fst (m s)") (auto simp: post_def)

lemma demo_applied_run:
  obtains s s' where "demo_reaches p s" "apply_proposal demo_os (demo_codec demo_cd) (demo_xc p) s = (Done (), s')"
proof -
  obtain s where s: "demo_reaches p s" "demo_at p Planned False (str_bytes old_text) 1 s" "demo_proposed (fst s)"
    by (rule demo_proposed_run [of p False]) (simp only: if_False)
  obtain a s' where s': "apply_proposal demo_os (demo_codec demo_cd) (demo_xc p) s = (Done a, s')"
    by (rule post_total [OF demo_apply [OF s(2,3)]]) simp_all
  show ?thesis using that [OF s(1)] s' by simp
qed

lemma demo_dry_run:
  obtains s where "demo_reaches p s" "bx_dry_run (fst s)" "demo_proposed (fst s)"
proof -
  obtain s where s: "demo_reaches p s" "demo_at p (if True then DryRun else Planned) True (str_bytes old_text) 1 s" "demo_proposed (fst s)"
    by (rule demo_proposed_run)
  then show ?thesis using that [OF s(1)] by (simp add: demo_at_def demo_static_def)
qed

lemma demo_resolved_run:
  obtains s where "demo_reaches p s" "bx_state (fst s) = Resolved"
proof -
  obtain s where s: "demo_reaches p s" "demo_at p Planned False (str_bytes old_text) 1 s" "demo_proposed (fst s)"
    by (rule demo_proposed_run [of p False]) (simp only: if_False)
  obtain t where t: "demo_reaches p t" "demo_at p Edited False (str_bytes new_text) 6 t" "demo_proposed (fst t)"
    by (rule demo_step [OF s(1), of ApplyProposal "\<lambda>t. demo_at p Edited False (str_bytes new_text) 6 t \<and> demo_proposed (fst t)"])
      (use demo_apply [OF s(2,3)] in simp_all)
  obtain u where u: "demo_reaches p u" "demo_at p VerificationPassed False (str_bytes new_text) 8 u" "demo_proposed (fst u)" "demo_verified (fst u)"
    by (rule demo_step [OF t(1), of "SubmitVerification demo_verdict"
          "\<lambda>t. demo_at p VerificationPassed False (str_bytes new_text) 8 t \<and> demo_proposed (fst t) \<and> demo_verified (fst t)"])
      (use demo_verify [OF t(2,3)] in simp_all)
  show ?thesis by (rule demo_step [OF u(1) demo_deliver [OF u(2-4)]]) (rule that)
qed

text \<open>The stored executor does not take part in a run.\<close>

lemma demo_hmac: "hmac_digest (demo_xc p) key domain payload = hmac_digest (demo_xc q) key domain payload"
  by (simp add: hmac_digest_def demo_xc_def)

lemma demo_events: "event_digest (demo_xc p) e d = event_digest (demo_xc q) e d"
  unfolding event_digest_def demo_digest_of by (simp add: demo_xc_def)

lemma demo_seals: "compute_seal (demo_xc p) x = compute_seal (demo_xc q) x"
proof -
  have "xc_executor (demo_xc p) y = xc_executor (demo_xc q) y" for y by (simp add: demo_xc_def)
  then show ?thesis unfolding compute_seal_def demo_hmac [of p _ _ _ q] by presburger
qed

lemma demo_chains: "chain_loop (demo_xc p) i d u es = chain_loop (demo_xc q) i d u es"
proof (induction es arbitrary: i d u)
  case (Cons e es)
  show ?case unfolding chain_loop.simps demo_events [of p _ _ q] Cons.IH by (rule refl)
qed simp

lemma demo_records: "ex_record (demo_xc p) = ex_record (demo_xc q)"
proof -
  have seal: "compute_seal (demo_xc p) = compute_seal (demo_xc q)" by (rule ext) (rule demo_seals)
  show ?thesis unfolding ex_record_def demo_events [of p _ _ q] seal by (rule refl)
qed

lemma demo_guards: "guard (demo_xc p) = guard (demo_xc q)"
proof -
  have "validate_integrity (demo_xc p) = validate_integrity (demo_xc q)"
    unfolding validate_integrity_def validate_chain_def demo_seals [of p _ q] demo_chains [of p _ _ _ _ q] empty_digest_def demo_digest_of
    by (rule refl)
  then show ?thesis by (simp add: guard_def)
qed

lemma demo_creates: "new_executor (demo_xc p) demo_json demo_contract = new_executor (demo_xc q) demo_json demo_contract"
  unfolding new_executor_def new_with_retry_policy_def demo_records [of p q] demo_contract_valid planned_executor_def
    empty_digest_def demo_digest_of
  by (rule refl)

lemma demo_binds: "bind_transaction (demo_xc p) = bind_transaction (demo_xc q)"
  by (rule ext, unfold bind_transaction_def validate_workspace_def reject_def demo_records [of p q] demo_guards [of p q] demo_digest_of) (rule refl)

lemma demo_shared:
  obtains x where "\<forall>p. demo_reaches p (x, demo_workspace)" "\<forall>p. demo_at p Planned False (str_bytes old_text) 1 (x, demo_workspace)"
proof -
  fix q
  obtain x0 where new: "new_executor (demo_xc q) demo_json demo_contract sample_sha False demo_key () = (Done x0, ())"
    using demo_new [of q False] by blast
  have x0: "sealed (demo_xc p) x0" "demo_static False x0" "bx_state x0 = Planned" "bx_transaction_id x0 = None" for p
    using demo_new [of p False] new unfolding demo_creates [of p q] by auto
  have bind: "post (with_state (bind_transaction (demo_xc q))) (\<lambda>_. demo_at p Planned False (str_bytes old_text) 1) (\<lambda>_ _. False) (\<lambda>_. False) (x0, demo_workspace)" for p
    using demo_bind [OF x0, of p] unfolding ex_perform.simps demo_binds [of p q] .
  obtain r t where t: "with_state (bind_transaction (demo_xc q)) (x0, demo_workspace) = (r, t)"
    by (cases "with_state (bind_transaction (demo_xc q)) (x0, demo_workspace)")
  have reach: "demo_reaches p t" for p
  proof -
    have "started (demo_xc p) demo_json demo_contract x0"
      unfolding started_def using new unfolding demo_creates [of q p] new_executor_def by blast
    then have start: "demo_reaches p (x0, demo_workspace)" by (simp add: reachable_init)
    have call: "ex_perform demo_os (demo_codec demo_cd) (demo_xc p) demo_provider BindTransaction (x0, demo_workspace) = (r, t)"
      using t unfolding ex_perform.simps demo_binds [of p q] .
    show ?thesis by (rule reachable_step [OF start TrueI call])
  qed
  have at: "demo_at p Planned False (str_bytes old_text) 1 t" for p
    using bind [of p] by (cases r) (simp_all add: post_def t)
  have "t = (fst t, demo_workspace)"
    using t by (auto simp: with_state_def sbind_def on_ws_def on_ex_def the_state_def sget_def split: prod.splits)
  then obtain x where x: "t = (x, demo_workspace)" by blast
  show ?thesis by (rule that [of x]) (use reach at in \<open>simp_all add: x\<close>)
qed

end
