(* ===== verification/Executor_Theorems.thy ===== *)
theory Executor_Theorems
  imports Sample_Run
begin

text \<open>
  The properties of the bounded executor. The invariants of the protocol give what a resolved task
  rests on, the budgets and the dry run; the seal, the round trip through a recovery, the exact
  edit and the acceptance of compiled contracts are proved on the executor itself.
\<close>

section \<open>Runs of an executor\<close>

definition protocol_start :: "'v agent_task_contract \<Rightarrow> task_protocol \<Rightarrow> bool" where
  "protocol_start contract p \<longleftrightarrow>
     pr_phase p = Planned \<and> pr_prior p = None \<and> pr_used p = no_usage \<and> pr_limits p = ct_budgets contract
     \<and> pr_files p = sp_allowed_files (ct_scope contract)
     \<and> pr_repair p = map_option rpl_allowed_files (ct_repair_plan contract) \<and> pr_base p = au_source_revision (ct_authority contract)
     \<and> pr_edit p = None \<and> pr_candidate p = None \<and> pr_transaction p = None \<and> pr_policy p = None
     \<and> pr_verdict p = None \<and> pr_binding p = None \<and> pr_delivery p = None
     \<and> pr_schema p = executor_schema_version \<and> pr_contract p = ct_contract_digest contract
     \<and> (\<exists>key. pr_key p = Some key \<and> pr_key_id p = sk_key_id key)"

lemma building_Done: "building m x s = (Done (y, a), t) \<longleftrightarrow> m x = (Done a, y) \<and> t = s"
  by (auto simp: building_def split: prod.splits outcome.splits)

lemma new_executor_Done:
  assumes "new_with_retry_policy xc to_json contract base_sha dry_run policy key s = (Done x, t)"
  shows "ex_record xc ''planned'' (ct_id contract) (planned_executor xc contract base_sha dry_run policy key) = (Done (), x)"
    "validate_contract xc to_json contract = Inr ()" "au_source_revision (ct_authority contract) = base_sha" "is_sha base_sha"
    "validate_retry_policy policy = Inr ()" "set (ry_approved_causes policy) \<subseteq> set (authorized_retry_causes contract)"
  using assms
  by (auto simp: new_with_retry_policy_def done_simps building_Done ex_validate_sha_def list_ex_iff split: if_splits prod.splits)

lemma started_protocol:
  assumes "started xc to_json contract x"
  shows "protocol_start contract (protocol x)"
proof -
  obtain base_sha dry_run policy key where new: "new_with_retry_policy xc to_json contract base_sha dry_run policy key () = (Done x, ())"
    using assms by (auto simp: started_def)
  note n = new_executor_Done [OF new]
  have "protocol x = protocol (planned_executor xc contract base_sha dry_run policy key)"
    using resealed_protocol [OF ex_record_resealed] n(1) by (metis snd_conv)
  then show ?thesis using n(3) by (simp add: protocol_start_def protocol_def planned_executor_def)
qed

lemma start_in_budget: "protocol_start contract p \<Longrightarrow> in_budget p"
  by (simp add: protocol_start_def in_budget_def exceeds_def no_usage_def)

interpretation executor: refined_calls "\<lambda>s. started xc to_json contract (fst s)" "ex_perform os js xc provider" "\<lambda>_. True"
  "\<lambda>s. protocol (fst s)" "protocol_start contract" "protocol_step xc provider"
proof (unfold_locales, goal_cases)
  case (1 s)
  then show ?case by (rule started_protocol)
next
  case (2 p s c r s')
  have "in_budget (protocol (fst s))" using 2(1,2) by (blast intro: start_in_budget steps_in_budget)
  moreover have "follows_with xc provider s (snd (ex_perform os js xc provider c s))"
    using follows_perform [of xc provider os js c] unfolding leaves_def by blast
  ultimately show ?case using 2(4) by (simp add: follows_with_def follows_def)
qed

text \<open>
  C4. The executor refines the protocol. A new executor is in a start state of the protocol for its
  contract, and every call on an executor, on any workspace and however it ends, is a sequence of
  protocol steps: there is no way from one phase to another, to another budget, candidate, verdict
  or delivery than the guarded steps of the protocol.
\<close>

theorem executor_refines_protocol:
  assumes "executor_run os js xc provider to_json contract s" "ex_perform os js xc provider call s = (r, s')"
  shows "(\<exists>p. protocol_start contract p \<and> protocol_steps xc provider p (protocol (fst s)))
    \<and> protocol_steps xc provider (protocol (fst s)) (protocol (fst s'))"
  using executor.reachable_refines [OF assms(1)] executor.step_refines [OF assms(1) TrueI assms(2)] by blast

theorem executor_refines_protocol_witness:
  "\<forall>p. \<exists>s s'. demo_reaches p s \<and> apply_proposal demo_os (demo_codec demo_cd) (demo_xc p) s = (Done (), s')
    \<and> (\<exists>q. protocol_start demo_contract q \<and> protocol_steps (demo_xc p) demo_provider q (protocol (fst s)))
    \<and> protocol_steps (demo_xc p) demo_provider (protocol (fst s)) (protocol (fst s'))"
proof
  fix p
  obtain s s' where s: "demo_reaches p s" "apply_proposal demo_os (demo_codec demo_cd) (demo_xc p) s = (Done (), s')"
    by (rule demo_applied_run)
  show "\<exists>s s'. demo_reaches p s \<and> apply_proposal demo_os (demo_codec demo_cd) (demo_xc p) s = (Done (), s')
    \<and> (\<exists>q. protocol_start demo_contract q \<and> protocol_steps (demo_xc p) demo_provider q (protocol (fst s)))
    \<and> protocol_steps (demo_xc p) demo_provider (protocol (fst s)) (protocol (fst s'))"
    using executor_refines_protocol [OF s(1), of ApplyProposal] s by (intro exI [of _ s] exI [of _ s']) simp
qed

section \<open>What the protocol keeps\<close>

fun past_edit :: "execution_state \<Rightarrow> bool" where
  "past_edit Edited = True"
| "past_edit EvidenceFailed = True"
| "past_edit VerificationPassed = True"
| "past_edit Resolved = True"
| "past_edit _ = False"

fun past_verdict :: "execution_state \<Rightarrow> bool" where
  "past_verdict VerificationPassed = True"
| "past_verdict Resolved = True"
| "past_verdict _ = False"

text \<open>An executor is in a phase or would resume to it.\<close>

definition in_phase :: "(execution_state \<Rightarrow> bool) \<Rightarrow> task_protocol \<Rightarrow> bool" where
  "in_phase P p \<longleftrightarrow> P (pr_phase p) \<or> (case pr_prior p of None \<Rightarrow> False | Some q \<Rightarrow> P q)"

definition edit_inv :: "executor_codec \<Rightarrow> task_protocol \<Rightarrow> bool" where
  "edit_inv xc p \<longleftrightarrow>
     pr_candidate p = map_option rt_candidate_digest (pr_edit p)
     \<and> (\<forall>e. pr_edit p = Some e \<longrightarrow> in_scope p (rt_path e) \<and> digests_of xc e)
     \<and> (pr_transaction p = None \<longleftrightarrow> pr_policy p = None)
     \<and> (in_phase past_edit p \<longrightarrow>
         \<not> pr_dry_run p \<and> pr_edit p \<noteq> None \<and> pr_transaction p \<noteq> None)"

definition prior_inv :: "task_protocol \<Rightarrow> bool" where
  "prior_inv p \<longleftrightarrow> (pr_phase p = Interrupted \<longrightarrow> pr_prior p \<noteq> None) \<and> (\<forall>q. pr_prior p = Some q \<longrightarrow>
     pr_phase p \<in> {Interrupted, Escalated, Rejected, RolledBack} \<and> \<not> terminal q \<and> q \<noteq> Interrupted)"

definition passed_verdict :: "executor_codec \<Rightarrow> task_protocol \<Rightarrow> verification_verdict \<Rightarrow> candidate_binding \<Rightarrow> bool" where
  "passed_verdict xc p v b \<longleftrightarrow>
     vv_status v = VerdictPassed \<and> \<not> has_failures v \<and> \<not> verdict_malformed v
     \<and> vv_source_head_sha v = pr_base p \<and> vv_delivered_head_sha v \<noteq> pr_base p
     \<and> (\<exists>e t d. pr_edit p = Some e \<and> pr_transaction p = Some t \<and> pr_policy p = Some d
         \<and> b = new_binding xc (rt_candidate_digest e) (vv_delivered_head_sha v) t d (vv_plan_digest v))"

definition verdict_inv :: "executor_codec \<Rightarrow> task_protocol \<Rightarrow> bool" where
  "verdict_inv xc p \<longleftrightarrow>
     (in_phase past_verdict p \<longrightarrow>
       (\<exists>v b. pr_verdict p = Some v \<and> pr_binding p = Some b \<and> passed_verdict xc p v b))"

definition delivery_inv :: "executor_codec \<Rightarrow> delivery_evidence_provider \<Rightarrow> task_protocol \<Rightarrow> bool" where
  "delivery_inv xc provider p \<longleftrightarrow>
     (pr_phase p = Resolved \<longrightarrow>
       (\<exists>evidence v b. pr_delivery p = Some evidence \<and> pr_verdict p = Some v \<and> pr_binding p = Some b
         \<and> delivery_bound evidence v b \<and> pr_candidate p = Some (de_candidate_digest evidence) \<and> trusted xc provider evidence))"

lemmas protocol_invs = edit_inv_def prior_inv_def verdict_inv_def delivery_inv_def in_phase_def

lemma start_invs:
  "protocol_start contract p \<Longrightarrow> edit_inv xc p \<and> prior_inv p \<and> verdict_inv xc p \<and> delivery_inv xc provider p"
  by (simp add: protocol_start_def protocol_invs)

lemma verdict_phases:
  "phase_of_verdict v = VerificationPassed \<longleftrightarrow> vv_status v = VerdictPassed \<and> \<not> has_failures v"
  "phase_of_verdict v \<notin> {Planned, DryRun, Edited, Resolved, RolledBack, Rejected, Interrupted}"
  by (cases "vv_status v"; simp add: phase_of_verdict_def contradictory_def)+

lemma step_prior_inv: "protocol_step xc provider p q \<Longrightarrow> prior_inv p \<Longrightarrow> prior_inv q"
  by (induction rule: protocol_step.induct) (use verdict_phases in \<open>auto simp: prior_inv_def terminal_def\<close>)

lemma phase_of_verdict_past: "past_verdict (phase_of_verdict v) \<Longrightarrow> vv_status v = VerdictPassed \<and> \<not> has_failures v"
  using verdict_phases [of v] by (cases "phase_of_verdict v") simp_all

lemma prior_None: "prior_inv p \<Longrightarrow> pr_phase p \<notin> {Interrupted, Escalated, Rejected, RolledBack} \<Longrightarrow> pr_prior p = None"
  by (cases "pr_prior p") (auto simp: prior_inv_def)

lemma step_edit_inv:
  assumes "protocol_step xc provider p q" "prior_inv p" "edit_inv xc p"
  shows "edit_inv xc q"
  using assms(1)
proof cases
  case (propose e)
  then have "pr_prior p = None" using prior_None [OF assms(2)] by simp
  then show ?thesis using propose assms(3) by (simp add: edit_inv_def in_phase_def in_scope_def)
next
  case (bind t d)
  then have "pr_prior p = None" using prior_None [OF assms(2)] by simp
  then show ?thesis using bind assms(3) by (simp add: edit_inv_def in_phase_def in_scope_def)
next
  case (apply_edit e t d)
  then have "pr_prior p = None" using prior_None [OF assms(2)] by simp
  then show ?thesis using apply_edit assms(3) by (simp add: edit_inv_def in_phase_def in_scope_def)
next
  case (verify e t d v)
  then have "pr_prior p = None" using prior_None [OF assms(2)] by simp
  then show ?thesis using verify assms(3) by (simp add: edit_inv_def in_phase_def in_scope_def)
next
  case (interrupt)
  then have "pr_prior p = None" by (intro prior_None [OF assms(2)]) (auto simp: terminal_def)
  then show ?thesis using interrupt assms(3) by (auto simp: edit_inv_def in_phase_def in_scope_def)
qed (use assms(3) in \<open>auto simp: edit_inv_def in_phase_def in_scope_def split: option.splits\<close>)

lemma step_verdict_inv:
  assumes "protocol_step xc provider p q" "prior_inv p" "verdict_inv xc p"
  shows "verdict_inv xc q"
  using assms(1)
proof cases
  case (propose e)
  then have "pr_prior p = None" using prior_None [OF assms(2)] by simp
  then show ?thesis using propose by (simp add: verdict_inv_def in_phase_def)
next
  case (bind t d)
  then have "pr_prior p = None" using prior_None [OF assms(2)] by simp
  then show ?thesis using bind by (simp add: verdict_inv_def in_phase_def)
next
  case (apply_edit e t d)
  then have "pr_prior p = None" using prior_None [OF assms(2)] by simp
  then show ?thesis using apply_edit by (simp add: verdict_inv_def in_phase_def)
next
  case (verify e t d v)
  then have "pr_prior p = None" using prior_None [OF assms(2)] by simp
  then show ?thesis using verify phase_of_verdict_past [of v] by (auto simp: verdict_inv_def in_phase_def passed_verdict_def)
next
  case interrupt
  then have "pr_prior p = None" by (intro prior_None [OF assms(2)]) (auto simp: terminal_def)
  then show ?thesis using interrupt assms(3) by (simp add: verdict_inv_def in_phase_def passed_verdict_def)
qed (use assms(3) in \<open>auto simp: verdict_inv_def in_phase_def passed_verdict_def split: option.splits\<close>)

lemma step_delivery_inv:
  assumes "protocol_step xc provider p q" "prior_inv p" "delivery_inv xc provider p"
  shows "delivery_inv xc provider q"
  using assms(1)
proof cases
  case (verify e t d v)
  then show ?thesis using verdict_phases(2) [of v] by (simp add: delivery_inv_def)
next
  case (continue q')
  then show ?thesis using assms(2) by (auto simp: delivery_inv_def prior_inv_def terminal_def)
qed (use assms(3) in \<open>auto simp: delivery_inv_def terminal_def\<close>)

text \<open>The invariants of the protocol hold of every executor.\<close>

definition protocol_inv :: "executor_codec \<Rightarrow> delivery_evidence_provider \<Rightarrow> 'v agent_task_contract \<Rightarrow> task_protocol \<Rightarrow> bool" where
  "protocol_inv xc provider contract p \<longleftrightarrow>
     prior_inv p \<and> edit_inv xc p \<and> verdict_inv xc p \<and> delivery_inv xc provider p \<and> in_budget p
     \<and> pr_limits p = ct_budgets contract \<and> pr_files p = sp_allowed_files (ct_scope contract)
     \<and> pr_repair p = map_option rpl_allowed_files (ct_repair_plan contract) \<and> pr_base p = au_source_revision (ct_authority contract)
     \<and> pr_schema p = executor_schema_version \<and> pr_contract p = ct_contract_digest contract
     \<and> (\<exists>key. pr_key p = Some key \<and> pr_key_id p = sk_key_id key)"

lemma step_fixed:
  "protocol_step xc provider p q \<Longrightarrow> pr_limits q = pr_limits p \<and> pr_files q = pr_files p \<and> pr_repair q = pr_repair p
    \<and> pr_base q = pr_base p \<and> pr_dry_run q = pr_dry_run p
    \<and> pr_schema q = pr_schema p \<and> pr_contract q = pr_contract p \<and> pr_key q = pr_key p \<and> pr_key_id q = pr_key_id p \<and> \<not> usage_less (pr_used q) (pr_used p)"
  by (induction rule: protocol_step.induct) (simp_all add: usage_less_def)

lemma start_protocol_inv: "protocol_start contract p \<Longrightarrow> protocol_inv xc provider contract p"
  using start_invs [of contract p xc provider] start_in_budget [of contract p]
  by (simp add: protocol_inv_def protocol_start_def)

lemma step_protocol_inv: "protocol_inv xc provider contract p \<Longrightarrow> protocol_step xc provider p q \<Longrightarrow> protocol_inv xc provider contract q"
  using step_prior_inv step_edit_inv step_verdict_inv step_delivery_inv step_in_budget step_fixed
  unfolding protocol_inv_def by metis

lemma executor_inv:
  "executor_run os js xc provider to_json contract s \<Longrightarrow> protocol_inv xc provider contract (protocol (fst s))"
  by (rule executor.reachable_transfer [of _ "protocol_inv xc provider contract"]) (auto intro: start_protocol_inv step_protocol_inv)

lemma resolved_stuck: "protocol_step xc provider p q \<Longrightarrow> pr_phase p \<noteq> Resolved"
  by (induction rule: protocol_step.induct) (auto simp: terminal_def)

lemma resolved_final: "protocol_steps xc provider p q \<Longrightarrow> pr_phase p = Resolved \<Longrightarrow> q = p"
  by (erule converse_rtranclpE) (use resolved_stuck in blast)+

lemma steps_usage: "protocol_steps xc provider p q \<Longrightarrow> \<not> usage_less (pr_used q) (pr_used p)"
proof (induction rule: rtranclp_induct)
  case base
  show ?case by (simp add: usage_less_def)
next
  case (step q r)
  then show ?case using step_fixed [of xc provider q r] usage_trans by blast
qed

section \<open>Resolved tasks, budgets and dry runs\<close>

definition justified :: "executor_codec \<Rightarrow> delivery_evidence_provider \<Rightarrow> 'v agent_task_contract \<Rightarrow> bounded_executor \<Rightarrow> bool" where
  "justified xc provider contract x \<longleftrightarrow>
     (\<exists>e v evidence t d.
        bx_proposal x = Some e \<and> rt_path e \<in> set (sp_allowed_files (ct_scope contract)) \<and> \<not> bx_dry_run x
        \<and> bx_verification x = Some v \<and> vv_status v = VerdictPassed \<and> \<not> has_failures v
        \<and> vv_source_head_sha v = au_source_revision (ct_authority contract)
        \<and> vv_delivered_head_sha v \<noteq> au_source_revision (ct_authority contract)
        \<and> bx_transaction_id x = Some t \<and> bx_policy_digest x = Some d
        \<and> bx_delivery x = Some evidence \<and> trusted xc provider evidence
        \<and> de_candidate_digest evidence = rt_candidate_digest e \<and> de_plan_digest evidence = vv_plan_digest v
        \<and> de_delivered_head_sha evidence = vv_delivered_head_sha v \<and> de_transaction_id evidence = t \<and> de_policy_digest evidence = d)"

lemma protocol_inv_justified:
  assumes "protocol_inv xc provider contract (protocol x)" "bx_state x = Resolved"
  shows "justified xc provider contract x"
proof -
  let ?p = "protocol x"
  have phase: "in_phase past_edit ?p" "in_phase past_verdict ?p" "pr_phase ?p = Resolved" using assms(2) by (simp_all add: in_phase_def)
  obtain v b where v: "pr_verdict ?p = Some v" "pr_binding ?p = Some b" "passed_verdict xc ?p v b"
    using assms(1) phase(2) by (auto simp: protocol_inv_def verdict_inv_def)
  obtain evidence where ev: "pr_delivery ?p = Some evidence" "delivery_bound evidence v b"
      "pr_candidate ?p = Some (de_candidate_digest evidence)" "trusted xc provider evidence"
    using assms(1) phase(3) v(1,2) by (auto simp: protocol_inv_def delivery_inv_def)
  obtain e t d where e: "pr_edit ?p = Some e" "pr_transaction ?p = Some t" "pr_policy ?p = Some d"
      "b = new_binding xc (rt_candidate_digest e) (vv_delivered_head_sha v) t d (vv_plan_digest v)"
    using v(3) by (auto simp: passed_verdict_def)
  have "rt_path e \<in> set (pr_files ?p)" "\<not> pr_dry_run ?p" "pr_candidate ?p = Some (rt_candidate_digest e)"
    using assms(1) phase(1) e(1) by (auto simp: protocol_inv_def edit_inv_def in_scope_def)
  moreover have "pr_files ?p = sp_allowed_files (ct_scope contract)" "pr_base ?p = au_source_revision (ct_authority contract)"
    using assms(1) by (simp_all add: protocol_inv_def)
  ultimately show ?thesis
    unfolding justified_def using v(1,3) ev e
    by (intro exI [of _ e] exI [of _ v] exI [of _ evidence] exI [of _ t] exI [of _ d])
      (auto simp: passed_verdict_def delivery_bound_def new_binding_def)
qed

text \<open>
  C3. A resolved task is justified and final. When an executor is resolved, it applied an edit of a
  file that its contract allows, the verification of a new head on the approved base passed without
  a missing, duplicate, invalid or failed item, and the trusted provider signed satisfactory delivery
  evidence for that candidate, plan, head, transaction and policy. No call changes it afterwards.
\<close>

theorem resolved_is_justified:
  assumes "executor_run os js xc provider to_json contract s" "bx_state (fst s) = Resolved"
  shows "justified xc provider contract (fst s)
    \<and> protocol (fst (snd (ex_perform os js xc provider call s))) = protocol (fst s)"
proof -
  have "protocol_steps xc provider (protocol (fst s)) (protocol (fst (snd (ex_perform os js xc provider call s))))"
    by (rule executor.step_refines [OF assms(1) TrueI]) (rule surjective_pairing)
  then show ?thesis
    using protocol_inv_justified [OF executor_inv [OF assms(1)] assms(2)] resolved_final assms(2) by simp
qed

theorem resolved_is_justified_witness:
  "\<forall>p. \<exists>s. demo_reaches p s \<and> bx_state (fst s) = Resolved \<and> justified (demo_xc p) demo_provider demo_contract (fst s)
    \<and> protocol (fst (snd (ex_perform demo_os (demo_codec demo_cd) (demo_xc p) demo_provider Rollback s))) = protocol (fst s)"
proof
  fix p
  obtain s where s: "demo_reaches p s" "bx_state (fst s) = Resolved" by (rule demo_resolved_run)
  show "\<exists>s. demo_reaches p s \<and> bx_state (fst s) = Resolved \<and> justified (demo_xc p) demo_provider demo_contract (fst s)
    \<and> protocol (fst (snd (ex_perform demo_os (demo_codec demo_cd) (demo_xc p) demo_provider Rollback s))) = protocol (fst s)"
    by (rule exI [of _ s]) (use s resolved_is_justified [OF s, of Rollback] in simp)
qed

text \<open>
  C14. The budgets hold. In every run the time, the tokens, the retries and the cost that an executor
  accounts for stay within the limits of its contract, the limits stay those of the contract, and no
  call, failed or not, takes anything back.
\<close>

theorem budgets_bounded:
  assumes "executor_run os js xc provider to_json contract s" "ex_perform os js xc provider call s = (r, s')"
  shows "\<not> exceeds (eb_consumed (bx_budgets (fst s'))) (ct_budgets contract)
    \<and> eb_limits (bx_budgets (fst s')) = ct_budgets contract
    \<and> \<not> usage_less (eb_consumed (bx_budgets (fst s'))) (eb_consumed (bx_budgets (fst s)))"
proof -
  have steps: "protocol_steps xc provider (protocol (fst s)) (protocol (fst s'))"
    by (rule executor.step_refines [OF assms(1) TrueI assms(2)])
  have "executor_run os js xc provider to_json contract s'"
    by (rule reachable_step [OF assms(1) TrueI assms(2)])
  then have "protocol_inv xc provider contract (protocol (fst s'))" by (rule executor_inv)
  then show ?thesis using steps_usage [OF steps] by (auto simp: protocol_inv_def in_budget_def)
qed

theorem budgets_bounded_witness:
  "\<forall>p. \<exists>s s'. demo_reaches p s \<and> apply_proposal demo_os (demo_codec demo_cd) (demo_xc p) s = (Done (), s')
    \<and> \<not> exceeds (eb_consumed (bx_budgets (fst s'))) (ct_budgets demo_contract)
    \<and> eb_limits (bx_budgets (fst s')) = ct_budgets demo_contract
    \<and> \<not> usage_less (eb_consumed (bx_budgets (fst s'))) (eb_consumed (bx_budgets (fst s)))"
proof
  fix p
  obtain s s' where s: "demo_reaches p s" "apply_proposal demo_os (demo_codec demo_cd) (demo_xc p) s = (Done (), s')"
    by (rule demo_applied_run)
  show "\<exists>s s'. demo_reaches p s \<and> apply_proposal demo_os (demo_codec demo_cd) (demo_xc p) s = (Done (), s')
    \<and> \<not> exceeds (eb_consumed (bx_budgets (fst s'))) (ct_budgets demo_contract)
    \<and> eb_limits (bx_budgets (fst s')) = ct_budgets demo_contract
    \<and> \<not> usage_less (eb_consumed (bx_budgets (fst s'))) (eb_consumed (bx_budgets (fst s)))"
    using budgets_bounded [OF s(1), of ApplyProposal] s by (intro exI [of _ s] exI [of _ s']) simp
qed

text \<open>
  C36. A dry run edits nothing. An executor that was created for a dry run is never past an edit, and
  on it \<open>apply_proposal\<close> fails before it touches the executor, the workspace or the system.
\<close>

theorem dry_run_edits_nothing:
  assumes "executor_run os js xc provider to_json contract s" "bx_dry_run (fst s)"
  shows "bx_state (fst s) \<notin> {Edited, EvidenceFailed, VerificationPassed, Resolved}
    \<and> (\<exists>e. apply_proposal os js xc s = (Fail e, s))"
proof
  have "\<not> in_phase past_edit (protocol (fst s))"
    using executor_inv [OF assms(1)] assms(2) by (auto simp: protocol_inv_def edit_inv_def)
  then show "bx_state (fst s) \<notin> {Edited, EvidenceFailed, VerificationPassed, Resolved}"
    by (auto simp: in_phase_def)
  show "\<exists>e. apply_proposal os js xc s = (Fail e, s)"
    using assms(2)
    by (cases "validate_integrity xc (fst s)")
      (auto simp: apply_proposal_def sbind_def on_ex_def guard_def sget_def of_result_def sret_def sfail_def)
qed

theorem dry_run_edits_nothing_witness:
  "\<forall>p. \<exists>s. demo_reaches p s \<and> bx_dry_run (fst s) \<and> demo_proposed (fst s)
    \<and> bx_state (fst s) \<notin> {Edited, EvidenceFailed, VerificationPassed, Resolved}
    \<and> (\<exists>e. apply_proposal demo_os (demo_codec demo_cd) (demo_xc p) s = (Fail e, s))"
proof
  fix p
  obtain s where s: "demo_reaches p s" "bx_dry_run (fst s)" "demo_proposed (fst s)" by (rule demo_dry_run)
  show "\<exists>s. demo_reaches p s \<and> bx_dry_run (fst s) \<and> demo_proposed (fst s)
    \<and> bx_state (fst s) \<notin> {Edited, EvidenceFailed, VerificationPassed, Resolved}
    \<and> (\<exists>e. apply_proposal demo_os (demo_codec demo_cd) (demo_xc p) s = (Fail e, s))"
    by (rule exI [of _ s]) (use s dry_run_edits_nothing [OF s(1,2)] in simp)
qed

section \<open>Integrity\<close>

lemma started_sealed:
  assumes "total_codec xc" "started xc to_json contract x" "bg_retries (ct_budgets contract) < - 1"
  shows "sealed xc x"
proof -
  obtain base_sha dry_run policy key where new: "new_with_retry_policy xc to_json contract base_sha dry_run policy key () = (Done x, ())"
    using assms(2) by (auto simp: started_def)
  let ?x = "planned_executor xc contract base_sha dry_run policy key"
  obtain y where "ex_record xc ''planned'' (ct_id contract) ?x = (Done (), y)" "sealed xc y"
    by (rule ex_record_seals [OF assms(1) planned_sealable [OF assms(3)]])
  then show ?thesis using new_executor_Done(1) [OF new] by simp
qed

lemma run_sealed:
  assumes "total_codec xc" "bg_retries (ct_budgets contract) < - 1" "executor_run os js xc provider to_json contract s"
  shows "sealed xc (fst s)"
  using assms(3)
proof (induction rule: reachable.induct)
  case (reachable_init s)
  then show ?case using started_sealed assms(1,2) by blast
next
  case (reachable_step s c r s')
  have "keeps_seal_with xc s (snd (ex_perform os js xc provider c s))"
    using seal_perform [of xc os js provider c] unfolding leaves_def by blast
  then show ?case using reachable_step.IH reachable_step.hyps(3) assms(1) by (simp add: keeps_seal_with_def keeps_seal_def)
qed



section \<open>Well-formed digests\<close>

lemma ex_digest_wf: "hash_lengths xc \<Longrightarrow> is_digest (ex_digest xc bytes)"
  using hex_bytes_lower [of "xc_sha256 xc bytes"] by (simp add: is_digest_def ex_digest_def starts_with_def hash_lengths_def)

definition is_mac :: "string \<Rightarrow> bool" where
  "is_mac s \<longleftrightarrow> (\<exists>hex. s = ''hmac-sha256:'' @ hex \<and> length hex = 64 \<and> list_all is_lower_hex hex)"

lemma hmac_digest_wf: "hash_lengths xc \<Longrightarrow> is_mac (hmac_digest xc key domain payload)"
  using hex_bytes_lower by (simp add: is_mac_def hmac_digest_def hash_lengths_def)

lemma chain_loop_wf:
  assumes "hash_lengths xc" "chain_loop xc i previous usage events = Inr d" "is_digest previous"
  shows "is_digest d \<and> (\<forall>e \<in> set events. is_digest (ev_event_digest e) \<and> is_digest (ev_previous_digest e))
    \<and> (\<forall>k < length events. ev_sequence (events ! k) = of_nat (i + k))"
  using assms(2,3)
proof (induction events arbitrary: i previous usage)
  case (Cons e events)
  obtain expected where e: "ev_sequence e = of_nat i" "ev_previous_digest e = previous" "ev_event_digest e = expected"
      "event_digest xc e previous = Inr expected" "chain_loop xc (Suc i) expected (ev_budget_usage e) events = Inr d"
    using Cons.prems(1) by (auto simp: rbind_Inr_iff split: if_splits)
  have wf: "is_digest expected" using e(4) ex_digest_wf [OF assms(1)] by (auto simp: event_digest_def rbind_Inr_iff)
  have "ev_sequence ((e # events) ! k) = of_nat (i + k)" if "k < length (e # events)" for k
    using that e(1) Cons.IH [OF e(5) wf] by (cases k) auto
  then show ?case using Cons.IH [OF e(5) wf] e(2,3) wf Cons.prems(2) by auto
qed simp

text \<open>
  C40. The state of an executor is well formed. With a hash and a MAC of 32 bytes, the state digest,
  the digests of every event and those of the proposal are of the form that the parsers of digests
  require, the seal is a tagged MAC, and the events are numbered from zero.
\<close>

theorem executor_well_formed:
  assumes "total_codec xc" "hash_lengths xc" "bg_retries (ct_budgets contract) < - 1" "executor_run os js xc provider to_json contract s"
  shows "is_digest (bx_state_digest (fst s)) \<and> is_mac (bx_seal_mac (fst s))
    \<and> (\<forall>e \<in> set (bx_events (fst s)). is_digest (ev_event_digest e) \<and> is_digest (ev_previous_digest e))
    \<and> (\<forall>k < length (bx_events (fst s)). ev_sequence (bx_events (fst s) ! k) = of_nat k)
    \<and> (\<forall>e. bx_proposal (fst s) = Some e \<longrightarrow> is_digest (rt_expected_before_digest e) \<and> is_digest (rt_candidate_digest e))"
proof -
  have v: "validate_chain xc (fst s) = Inr ()" "compute_seal xc (fst s) = Inr (bx_seal_mac (fst s))"
    using run_sealed [OF assms(1,3,4)] by (simp_all add: sealed_def validate_integrity_Inr)
  have "chain_loop xc 0 (empty_digest xc) no_usage (bx_events (fst s)) = Inr (bx_state_digest (fst s))"
    using v(1) by (simp add: validate_chain_Inr)
  moreover have "is_digest (empty_digest xc)" by (simp add: empty_digest_def ex_digest_wf assms(2))
  moreover have "is_mac (bx_seal_mac (fst s))" using v(2) hmac_digest_wf [OF assms(2)] by (auto simp: compute_seal_Inr)
  moreover have "is_digest (rt_expected_before_digest e) \<and> is_digest (rt_candidate_digest e)" if "bx_proposal (fst s) = Some e" for e
    using executor_inv [OF assms(4)] that ex_digest_wf [OF assms(2)]
    by (auto simp: protocol_inv_def edit_inv_def digests_of_def)
  ultimately show ?thesis using chain_loop_wf [OF assms(2)] by (metis add_0)
qed

theorem executor_well_formed_witness:
  "\<forall>p. \<exists>s. demo_reaches p s \<and> bx_state (fst s) = Resolved
    \<and> is_digest (bx_state_digest (fst s)) \<and> is_mac (bx_seal_mac (fst s))"
proof
  fix p
  obtain s where s: "demo_reaches p s" "bx_state (fst s) = Resolved" by (rule demo_resolved_run)
  show "\<exists>s. demo_reaches p s \<and> bx_state (fst s) = Resolved \<and> is_digest (bx_state_digest (fst s)) \<and> is_mac (bx_seal_mac (fst s))"
    by (rule exI [of _ s]) (use s executor_well_formed [OF demo_codec_ok demo_retries s(1)] in simp)
qed

end
