(* ===== verification/Executor_Recovery.thy ===== *)
theory Executor_Recovery
  imports Executor_Theorems
begin

text \<open>
  The executor and its neighbours: contracts of the task compiler, recovery from a serialised state,
  the evidence of the delivery provider, and the edit that goes through the workspace.
\<close>

section \<open>Contracts\<close>

text \<open>
  C38. The compiler of tasks and the executor agree. With a hash crate that computes SHA-256, every
  contract that the compiler produces and that grants no delivery permission is accepted by the
  executor, and an executor for it can be created on the approved revision.
\<close>

theorem compiled_contract_accepted:
  assumes "\<forall>bytes. hex_bytes (xc_sha256 xc bytes) = stable_digest bytes" "total_codec xc"
    "compile_approved_task to_json ids source = Some (Inr contract)" "sorted_wrt (<) ids"
    "\<not> any_delivery (ts_delivery_permissions source)"
  shows "validate_contract xc to_json contract = Inr ()
    \<and> (\<exists>x. new_executor xc to_json contract (au_source_revision (ts_authority source)) dry_run key s = (Done x, s))"
proof -
  let ?t = "canonicalize source"
  have valid: "validate_task ids source = Some (Inr ())"
    using assms(3) by (auto simp: compile_approved_task_def split: option.splits sum.splits)
  then have wf: "task_wf (set ids) ?t" using validated_wf [OF _ assms(4)] task_wf_canonicalize by blast
  obtain bytes where c: "to_json (contract_of ?t) = Inr bytes"
      "contract = (contract_of ?t)\<lparr>ct_contract_digest := ''sha256:'' @ stable_digest bytes\<rparr>"
    using assms(3) by (auto simp: compile_approved_task_def Let_def split: option.splits sum.splits)
  have ok: "validate_contract xc to_json contract = Inr ()"
    unfolding c(2) by (rule contract_accepted [where to_json = to_json and t = ?t, OF assms(1) wf c(1)]) (use assms(5) in simp)
  have authority: "ct_authority contract = ts_authority source" unfolding c(2) by (simp add: contract_of_def canonicalize_def)
  have "validate_authority (ts_authority source) = Inr ()"
    using valid by (auto simp: validate_task_def validate_opening_def all_ok_iff split: option.splits sum.splits)
  then have sha: "is_sha (au_source_revision (ct_authority contract))"
    unfolding authority validate_authority_def all_ok_iff by (simp add: require_iff is_lower_sha_def is_sha_def)
  have "unat (bg_retries (ct_budgets contract)) \<le> 20"
    using wf unfolding c(2) by (simp add: task_wf_def budgets_wf_def contract_of_def)
  then have "bg_retries (ct_budgets contract) < - 1"
    by (simp add: word_less_nat_alt unsigned_minus_1_eq_mask mask_eq_exp_minus_1)
  then have "\<exists>x. new_executor xc to_json contract (au_source_revision (ct_authority contract)) dry_run key s = (Done x, s)"
    by (rule new_executor_accepts [OF assms(2) ok sha])
  then show ?thesis using ok unfolding authority by blast
qed

theorem compiled_contract_accepted_witness:
  "\<forall>p. compile_approved_task demo_json [''n1'', ''n2''] sample_task = Some (Inr demo_contract)
    \<and> validate_contract (demo_xc p) demo_json demo_contract = Inr ()
    \<and> (\<exists>x. new_executor (demo_xc p) demo_json demo_contract (au_source_revision (ts_authority sample_task)) False demo_key () = (Done x, ()))"
proof
  fix p
  have ids: "sorted_wrt (<) [''n1'', ''n2'']" by code_simp
  have hash: "\<forall>bytes. hex_bytes (xc_sha256 (demo_xc p) bytes) = stable_digest bytes" by (simp add: demo_hash)
  show "compile_approved_task demo_json [''n1'', ''n2''] sample_task = Some (Inr demo_contract)
    \<and> validate_contract (demo_xc p) demo_json demo_contract = Inr ()
    \<and> (\<exists>x. new_executor (demo_xc p) demo_json demo_contract (au_source_revision (ts_authority sample_task)) False demo_key () = (Done x, ()))"
    using compiled_contract_accepted [OF hash demo_codec_ok(1) demo_compiled ids demo_no_delivery, of False demo_key "()"] demo_compiled by blast
qed

section \<open>Recovery\<close>





section \<open>Delivery evidence\<close>

text \<open>
  C39. The provider accepts exactly the evidence that its own key would sign. Verification succeeds if
  and only if signing the evidence with the provider's key gives the evidence itself, it is neither
  from the future nor older than the freshness window, and all three conditions of it are satisfied.
\<close>

theorem evidence_verified_iff_signed:
  "verify_evidence xc clock provider evidence = Inr () \<longleftrightarrow>
     sign_evidence xc (tp_key provider) evidence = Inr evidence
     \<and> (\<exists>now. clock = Some now \<and> unat (de_fetched_at_epoch_seconds evidence) \<le> unat now
         \<and> unat now \<le> unat (de_fetched_at_epoch_seconds evidence) + unat (tp_max_age_seconds provider))
     \<and> de_required_checks_passed evidence \<and> de_review_satisfied evidence \<and> de_conversations_resolved evidence"
proof -
  have mac: "hmac_matches xc secret domain bytes provided \<longleftrightarrow> hmac_digest xc secret domain bytes = provided" for secret domain bytes provided
    by (auto simp: hmac_matches_def constant_time_eq_iff str_bytes_inj hmac_digest_def starts_with_def)
  have same: "evidence\<lparr>de_evidence_mac := m\<rparr> = evidence \<longleftrightarrow> m = de_evidence_mac evidence" for m
    by (cases evidence) auto
  have age: "\<not> (now < fetched \<or> window < now - fetched) \<longleftrightarrow> unat fetched \<le> unat now \<and> unat now \<le> unat fetched + unat window"
    for now fetched window :: u64
    by (cases "fetched \<le> now") (auto simp: word_less_nat_alt word_le_nat_alt unat_sub not_less)
  show ?thesis
    unfolding verify_evidence_def sign_evidence_def mac
    using age by (auto simp: rbind_Inr_iff same split: option.splits)
qed

section \<open>The edit\<close>

lemma on_ex_Done: "on_ex m s = (Done a, t) \<longleftrightarrow> (\<exists>y. m (fst s) = (Done a, y) \<and> t = (y, snd s))"
  by (auto simp: on_ex_def split: prod.splits)

lemma fail_recorded_not_Done: "fail_recorded xc cause code message x \<noteq> (Done a, y)"
  by (simp add: fail_recorded_def sbind_def sfail_def split: prod.splits outcome.splits)

lemma or_recorded_Done:
  "or_recorded xc cause code m s = (Done a, t) \<longleftrightarrow> (\<exists>w. m (snd s) = (Done a, w) \<and> t = (fst s, w))"
proof -
  obtain r w where m: "m (snd s) = (r, w)" by (cases "m (snd s)")
  show ?thesis
    by (cases r) (auto simp: or_recorded_def sbind_def attempt_def on_ws_def m sret_def on_ex_Done fail_recorded_not_Done)
qed

lemma reject_not_Done: "reject xc message x \<noteq> (Done a, y)"
  by (simp add: reject_def sbind_def sfail_def split: prod.splits outcome.splits)

lemma validate_workspace_Done: "validate_workspace xc st x = (Done a, y) \<Longrightarrow> y = x \<and> workspace_ok x st"
  by (auto simp: validate_workspace_def sbind_def sget_def sret_def reject_not_Done workspace_ok_def list_ex_iff
      split: if_splits option.splits)

lemma with_state_Done:
  "with_state m s = (Done a, t) \<longleftrightarrow> (\<exists>y. m (ws_state (fst (snd s))) (fst s) = (Done a, y) \<and> t = (y, snd s))"
  by (auto simp: with_state_def sbind_def on_ws_def on_ex_def the_state_def sget_def split: prod.splits outcome.splits)

lemma sget_Done: "sget f s = (Done a, t) \<longleftrightarrow> a = f s \<and> t = s"
  by (auto simp: sget_def)

lemma guard_Done: "guard xc x = (Done a, y) \<Longrightarrow> y = x"
  by (auto simp: guard_def done_simps sget_Done)

lemma require_state_Done: "require_state st x = (Done a, y) \<Longrightarrow> y = x \<and> bx_state x = st"
  by (auto simp: require_state_def done_simps sget_Done split: if_splits)

lemma case_option_Done:
  "(case v of None \<Rightarrow> sfail e | Some a \<Rightarrow> f a) s = (Done b, t) \<longleftrightarrow> (\<exists>a. v = Some a \<and> f a s = (Done b, t))"
  by (cases v) (simp_all add: sfail_def)

lemma if_Done: "(if c then m else n) s = (Done b, t) \<longleftrightarrow> c \<and> m s = (Done b, t) \<or> \<not> c \<and> n s = (Done b, t)"
  by simp

lemma checked_Inr: "checked v message = Inr a \<longleftrightarrow> v = Some a"
  by (auto simp: checked_def split: option.splits)

lemma smodify_Done: "smodify f s = (Done a, t) \<longleftrightarrow> t = f s"
  by (auto simp: smodify_def)

text \<open>
  C13. An applied proposal is exactly the edit that was proposed. When \<open>apply_proposal\<close> succeeds, it
  read the file of the proposal, which the contract allows, found the bytes that the proposal is
  based on, and wrote the text with the one occurrence replaced, whose digest is the candidate
  digest; the read and that write are all it did to the workspace.
\<close>

theorem apply_writes_candidate:
  assumes "executor_run os js xc provider to_json contract s" "apply_proposal os js xc s = (Done (), s')"
  shows "\<exists>e current w source.
      bx_proposal (fst s) = Some e \<and> rt_path e \<in> set (sp_allowed_files (ct_scope contract))
      \<and> read_file os js (rt_path e) (snd s) = (Done current, w)
      \<and> ex_digest xc current = rt_expected_before_digest e \<and> from_utf8 current = Some source
      \<and> count_matches source (rt_find e) = 1
      \<and> write_file os js (rt_path e) (str_bytes (replace_first source (rt_find e) (rt_replacement e))) w = (Done (), snd s')
      \<and> ex_digest xc (str_bytes (replace_first source (rt_find e) (rt_replacement e))) = rt_candidate_digest e
      \<and> bx_state (fst s') = Edited \<and> bx_candidate_digest (fst s') = Some (rt_candidate_digest e)"
proof -
  obtain e current w source u where e: "bx_proposal (fst s) = Some e"
      and calls: "read_file os js (rt_path e) (snd s) = (Done current, w)" "ex_digest xc current = rt_expected_before_digest e"
        "from_utf8 current = Some source" "count_matches source (rt_find e) = 1"
        "ex_digest xc (candidate_text e source) = rt_candidate_digest e"
        "write_file os js (rt_path e) (candidate_text e source) w = (Done (), u)"
      and last: "\<exists>t d. on_ex (ex_record xc ''proposal_applied'' (rt_candidate_digest e))
          ((fst s)\<lparr>bx_transaction_id := t, bx_policy_digest := d, bx_state := Edited\<rparr>, u) = (Done (), s')"
    using assms(2) unfolding apply_proposal_def
    by (auto simp: done_simps on_ex_Done with_state_Done or_recorded_Done sget_Done smodify_Done checked_Inr fail_recorded_not_Done
        case_option_Done if_Done dest!: guard_Done require_state_Done validate_workspace_Done) blast
  have "resealed ((fst s)\<lparr>bx_transaction_id := t, bx_policy_digest := d, bx_state := Edited\<rparr>) (fst s') \<and> snd s' = u"
    if "on_ex (ex_record xc ''proposal_applied'' (rt_candidate_digest e))
          ((fst s)\<lparr>bx_transaction_id := t, bx_policy_digest := d, bx_state := Edited\<rparr>, u) = (Done (), s')" for t d
    using that ex_record_resealed [of "(fst s)\<lparr>bx_transaction_id := t, bx_policy_digest := d, bx_state := Edited\<rparr>" xc "''proposal_applied''"]
    by (auto simp: on_ex_Done) (metis snd_conv)
  then obtain t d where "resealed ((fst s)\<lparr>bx_transaction_id := t, bx_policy_digest := d, bx_state := Edited\<rparr>) (fst s')" "snd s' = u"
    using last by blast
  then have "bx_state (fst s') = Edited" "bx_candidate_digest (fst s') = bx_candidate_digest (fst s)" "snd s' = u"
    by (auto simp: resealed_def)
  moreover have "rt_path e \<in> set (sp_allowed_files (ct_scope contract))" "bx_candidate_digest (fst s) = Some (rt_candidate_digest e)"
    using executor_inv [OF assms(1)] e by (auto simp: protocol_inv_def edit_inv_def in_scope_def)
  ultimately show ?thesis
    using e calls unfolding candidate_text_def
    by (intro exI [of _ e] exI [of _ current] exI [of _ w] exI [of _ source]) simp
qed

theorem apply_writes_candidate_witness:
  "\<forall>p. \<exists>s s' e current. demo_reaches p s \<and> apply_proposal demo_os (demo_codec demo_cd) (demo_xc p) s = (Done (), s')
    \<and> bx_proposal (fst s) = Some e \<and> ex_digest (demo_xc p) current = rt_expected_before_digest e \<and> bx_state (fst s') = Edited"
proof
  fix p
  obtain s s' where s: "demo_reaches p s" "apply_proposal demo_os (demo_codec demo_cd) (demo_xc p) s = (Done (), s')"
    by (rule demo_applied_run)
  show "\<exists>s s' e current. demo_reaches p s \<and> apply_proposal demo_os (demo_codec demo_cd) (demo_xc p) s = (Done (), s')
    \<and> bx_proposal (fst s) = Some e \<and> ex_digest (demo_xc p) current = rt_expected_before_digest e \<and> bx_state (fst s') = Edited"
    using apply_writes_candidate [OF s] s by blast
qed

end
