(* ===== verification/Spec2Isabelle.thy ===== *)
theory Spec2Isabelle
  imports Resolver_Theorems Lifecycle_Theorems Agent_Task_Theorems Anchored_Confinement Workspace_Theorems Executor_Recovery
begin

text \<open>A verification library for the Axiom toolchain.\<close>

end
